theory Spec2Isabelle
  imports Complex_Main "HOL-Library.Sublist"
begin

section \<open>JavaScript strings\<close>

text \<open>
  A JavaScript string is modelled as a \<^typ>\<open>string\<close>: a list of characters whose code
  is below 256. The functions below are the methods of \<^verbatim>\<open>String.prototype\<close> that the
  sources call, each with the meaning ECMAScript gives it on such strings.
\<close>

text \<open>\<^verbatim>\<open>s.startsWith(p)\<close> and \<^verbatim>\<open>s.endsWith(p)\<close>.\<close>

definition startsWith :: "string \<Rightarrow> string \<Rightarrow> bool" where
  "startsWith s p = (take (length p) s = p)"

definition endsWith :: "string \<Rightarrow> string \<Rightarrow> bool" where
  "endsWith s p = (length p \<le> length s \<and> drop (length s - length p) s = p)"

text \<open>
  \<^verbatim>\<open>s.indexOf(p)\<close>: the position of the first occurrence of \<open>p\<close> in \<open>s\<close>, or \<open>-1\<close>
  when there is none.
\<close>

fun indexOf :: "string \<Rightarrow> string \<Rightarrow> int" where
  "indexOf [] p = (if p = [] then 0 else - 1)"
| "indexOf (c # cs) p =
     (if startsWith (c # cs) p then 0
      else (let r = indexOf cs p in if r = - 1 then - 1 else r + 1))"

text \<open>
  \<^verbatim>\<open>s.substring(a, b)\<close>: both arguments are clamped to \<open>0 .. length s\<close>, and they are
  swapped when the first is larger than the second.
\<close>

definition clampIndex :: "string \<Rightarrow> int \<Rightarrow> nat" where
  "clampIndex s i = (if i < 0 then 0 else min (nat i) (length s))"

definition substring :: "string \<Rightarrow> int \<Rightarrow> int \<Rightarrow> string" where
  "substring s a b =
     (let from = min (clampIndex s a) (clampIndex s b);
          to = max (clampIndex s a) (clampIndex s b)
      in take (to - from) (drop from s))"

text \<open>
  \<^verbatim>\<open>s.replace(/p/g, r)\<close> for a pattern \<open>p\<close> without metacharacters: the text is scanned
  from the left, every occurrence of \<open>p\<close> found is replaced by \<open>r\<close>, and the scan goes on
  after the occurrence (the replacement is not scanned again). The counter \<open>k\<close> is the
  number of characters of the current occurrence still to be skipped.
\<close>

fun replaceFrom :: "string \<Rightarrow> string \<Rightarrow> nat \<Rightarrow> string \<Rightarrow> string" where
  "replaceFrom p r k [] = []"
| "replaceFrom p r k (c # cs) =
     (if 0 < k then replaceFrom p r (k - 1) cs
      else if p \<noteq> [] \<and> startsWith (c # cs) p then r @ replaceFrom p r (length p - 1) cs
      else c # replaceFrom p r 0 cs)"

definition replace_g :: "string \<Rightarrow> string \<Rightarrow> string \<Rightarrow> string" where
  "replace_g s p r = replaceFrom p r 0 s"

text \<open>
  \<^verbatim>\<open>s.trim()\<close> removes white space and line terminators at both ends. Among the
  characters below 256 these are TAB, LF, VT, FF, CR, SPACE and NO-BREAK SPACE.
\<close>

definition isWhiteSpace :: "char \<Rightarrow> bool" where
  "isWhiteSpace c =
     (c \<in> {CHR 0x09, CHR 0x0A, CHR 0x0B, CHR 0x0C, CHR 0x0D, CHR 0x20, CHR 0xA0})"

definition trim :: "string \<Rightarrow> string" where
  "trim s = rev (dropWhile isWhiteSpace (rev (dropWhile isWhiteSpace s)))"

text \<open>
  Truthiness of a value that is a string, \<^verbatim>\<open>undefined\<close> or \<^verbatim>\<open>null\<close>, and the
  operator \<^verbatim>\<open>a || b\<close> on such values.
\<close>

definition truthy :: "string option \<Rightarrow> bool" where
  "truthy v = (case v of None \<Rightarrow> False | Some s \<Rightarrow> s \<noteq> [])"

definition orElse :: "string option \<Rightarrow> string option \<Rightarrow> string option" where
  "orElse a b = (if truthy a then a else b)"

definition orDefault :: "string option \<Rightarrow> string \<Rightarrow> string" where
  "orDefault a d = (case a of None \<Rightarrow> d | Some s \<Rightarrow> if s \<noteq> [] then s else d)"


section \<open>The generation service (\<^verbatim>\<open>services/geminiService.ts\<close>)\<close>

text \<open>
  \<^verbatim>\<open>generateGeometrySvg(prompt, options, userApiKey)\<close> returns the markup or throws an
  \<^verbatim>\<open>Error\<close> with a message; the model returns \<open>Inr\<close> the markup or \<open>Inl\<close> the message.
  The messages of the source are Vietnamese; they are written here without their
  diacritics.

  The call of the text service, \<^verbatim>\<open>await ai.models.generateContent(...)\<close>, either rejects
  with an error (whose \<^verbatim>\<open>message\<close> may be missing) or resolves to a response whose
  \<^verbatim>\<open>text\<close> may be undefined. Its outcome is an input of the model; the prompt that the
  function assembles before the call only decides what the service is sent.
\<close>

datatype upstream = Rejected "string option" | Resolved "string option"

definition msgNoApiKey :: string where
  "msgNoApiKey = ''Vui long nhap Gemini API Key de su dung tinh nang nay.''"

definition msgNoResponse :: string where
  "msgNoResponse = ''Khong nhan duoc phan hoi tu AI.''"

definition msgInvalidSvg :: string where
  "msgInvalidSvg = ''AI khong tra ve ma SVG hop le. Vui long thu lai.''"

definition msgDefault :: string where
  "msgDefault = ''Da xay ra loi khi tao hinh.''"

text \<open>The \<^verbatim>\<open>catch\<close> block: every error of the \<^verbatim>\<open>try\<close> block is thrown again with its
  own message, or with the default message when it has none.\<close>

definition rethrow :: "string option \<Rightarrow> string + string" where
  "rethrow message = Inl (orDefault message msgDefault)"

text \<open>The body of the \<^verbatim>\<open>try\<close> block after the call has resolved to \<open>text\<close>.\<close>

definition cleanText :: "string \<Rightarrow> string" where
  "cleanText text =
     trim (replace_g (replace_g (replace_g text ''```xml'' '''') ''```svg'' '''') ''```'' '''')"

definition extractSvg :: "string option \<Rightarrow> string + string" where
  "extractSvg text0 =
     (case text0 of
        None \<Rightarrow> rethrow (Some msgNoResponse)
      | Some raw \<Rightarrow>
          if raw = [] then rethrow (Some msgNoResponse)
          else
            let text = cleanText raw in
            if \<not> startsWith text ''<svg'' \<or> \<not> endsWith text ''</svg>'' then
              (let startIndex = indexOf text ''<svg'';
                   endIndex = indexOf text ''</svg>''
               in if startIndex \<noteq> - 1 \<and> endIndex \<noteq> - 1
                  then Inr (substring text startIndex (endIndex + 6))
                  else rethrow (Some msgInvalidSvg))
            else Inr text)"

definition generateGeometrySvg ::
  "string option \<Rightarrow> string option \<Rightarrow> upstream \<Rightarrow> string + string" where
  "generateGeometrySvg userApiKey envApiKey response =
     (let effectiveApiKey = orElse userApiKey envApiKey in
      if \<not> truthy effectiveApiKey then Inl msgNoApiKey
      else case response of
             Rejected message \<Rightarrow> rethrow message
           | Resolved text \<Rightarrow> extractSvg text)"


text \<open>
  The extraction as the specification words it, for comparison with the code: the text
  from the first opening tag to the last closing tag.
\<close>

fun lastIndexOf :: "string \<Rightarrow> string \<Rightarrow> int" where
  "lastIndexOf [] p = (if p = [] then 0 else - 1)"
| "lastIndexOf (c # cs) p =
     (let r = lastIndexOf cs p in
      if r \<noteq> - 1 then r + 1 else if startsWith (c # cs) p then 0 else - 1)"

definition specExtract :: "string \<Rightarrow> string" where
  "specExtract text = substring text (indexOf text ''<svg'') (lastIndexOf text ''</svg>'' + 6)"

text \<open>Occurrences of a pattern in a text, to state what \<^const>\<open>indexOf\<close> finds.\<close>

definition occursAt :: "string \<Rightarrow> string \<Rightarrow> nat \<Rightarrow> bool" where
  "occursAt s p i = startsWith (drop i s) p"

definition firstAt :: "string \<Rightarrow> string \<Rightarrow> nat \<Rightarrow> bool" where
  "firstAt s p i = (occursAt s p i \<and> (\<forall>j<i. \<not> occursAt s p j))"


section \<open>The editor (\<^verbatim>\<open>components/DrawingCanvas.tsx\<close>): data\<close>

text \<open>
  The model follows the second, multi-selection version of the component. A JavaScript
  number is idealised as a \<^typ>\<open>real\<close>: rounding, infinities and \<^verbatim>\<open>NaN\<close> are not
  represented.

  What the browser provides is a parameter of the model, the record \<open>platform\<close>:
  \<^item> \<open>String\<close> and \<open>parseFloat\<close>, the conversions between numbers and attribute texts;
  \<^item> \<open>serializeToString\<close> (\<^verbatim>\<open>XMLSerializer\<close>) and \<open>parseFromString\<close> (\<^verbatim>\<open>DOMParser\<close>),
    on a tree given as its root element and the elements inside it in document order;
  \<^item> \<open>boundingCorners\<close>, the corners \<^verbatim>\<open>(left, top)\<close> and \<^verbatim>\<open>(right, bottom)\<close> of
    \<^verbatim>\<open>el.getBoundingClientRect()\<close>, each mapped by \<^verbatim>\<open>getSVGPoint\<close>.
  Nothing is assumed about these functions; a theorem that needs a property of them
  states it as a hypothesis.
\<close>

record element =
  tagName :: string
  attributes :: "string \<rightharpoonup> string"
  style :: "string \<rightharpoonup> string"
  textContent :: string

type_synonym point = "real \<times> real"

record platform =
  String :: "real \<Rightarrow> string"
  parseFloat :: "string \<Rightarrow> real"
  serializeToString :: "element \<times> element list \<Rightarrow> string"
  parseFromString :: "string \<Rightarrow> element \<times> element list"
  boundingCorners :: "element \<Rightarrow> point \<times> point"

definition getAttribute :: "element \<Rightarrow> string \<Rightarrow> string option" where
  "getAttribute el name = attributes el name"

definition setAttribute :: "element \<Rightarrow> string \<Rightarrow> string \<Rightarrow> element" where
  "setAttribute el name v = el\<lparr>attributes := (attributes el)(name \<mapsto> v)\<rparr>"

text \<open>\<^verbatim>\<open>el.style.prop\<close> reads as the empty string when the property is not set.\<close>

definition getStyle :: "element \<Rightarrow> string \<Rightarrow> string" where
  "getStyle el prop = (case style el prop of None \<Rightarrow> [] | Some v \<Rightarrow> v)"

definition setStyle :: "element \<Rightarrow> string \<Rightarrow> string \<Rightarrow> element" where
  "setStyle el prop v = el\<lparr>style := (style el)(prop \<mapsto> v)\<rparr>"

definition createElementNS :: "string \<Rightarrow> element" where
  "createElementNS tag =
     \<lparr>tagName = tag, attributes = Map.empty, style = Map.empty, textContent = []\<rparr>"

text \<open>\<^verbatim>\<open>parseFloat(el.getAttribute(name) || '0')\<close>.\<close>

definition numAttr :: "platform \<Rightarrow> element \<Rightarrow> string \<Rightarrow> real" where
  "numAttr P el name = parseFloat P (orDefault (getAttribute el name) ''0'')"

text \<open>
  \<^verbatim>\<open>s.toLowerCase()\<close>, on the letters A to Z. The sources lower a text only to compare
  it with a text of ASCII letters or to look for the letter z in it, and no other
  character below 256 has an ASCII letter as its lower case.
\<close>

definition lowerChar :: "char \<Rightarrow> char" where
  "lowerChar c =
     (case map_of (zip ''ABCDEFGHIJKLMNOPQRSTUVWXYZ'' ''abcdefghijklmnopqrstuvwxyz'') c of
        None \<Rightarrow> c
      | Some l \<Rightarrow> l)"

definition toLowerCase :: "string \<Rightarrow> string" where
  "toLowerCase s = map lowerChar s"

datatype ToolType = ToolSelect | ToolLine | ToolRect | ToolCircle | ToolText

datatype DragMode = DragNone | DragVertex | DragMove | DragRotate

datatype PointType = Vertex | Center | Radius | Resize | RadiusX | RadiusY

record ControlPoint =
  cp_x :: real
  cp_y :: real
  cp_id :: nat
  cp_type :: PointType

record TransformData =
  tx :: real
  ty :: real
  rotation :: real
  cx :: real
  cy :: real

record BoundingBox =
  bb_x :: real
  bb_y :: real
  bb_width :: real
  bb_height :: real
  bb_cx :: real
  bb_cy :: real

text \<open>
  DOM elements are objects with identity: the selection, the drag session and the document
  tree refer to the same objects, which the handlers mutate in place. The model keeps them
  in a store, \<open>heap\<close>, from references to element values; \<open>nextRef\<close> is the next
  unused reference. \<open>svg\<close> is the \<^verbatim>\<open><svg></svg>\<close> element mounted in the canvas, with
  the references of the elements inside it in document order, or \<open>None\<close> when none is
  mounted. The other fields are the component's state variables and refs; a state
  variable and the ref that mirrors it (\<^verbatim>\<open>tool\<close> and \<^verbatim>\<open>toolRef\<close>, \<^verbatim>\<open>selectedElements\<close> and
  \<^verbatim>\<open>selectedElementsRef\<close>) are one field, since the mirror is brought up to date before
  the next event is handled.
\<close>

type_synonym ref = nat

record editor =
  heap :: "ref \<rightharpoonup> element"
  nextRef :: ref
  svg :: "(element \<times> ref list) option"
  tool :: ToolType
  selectedElements :: "ref list"
  controlPoints :: "ControlPoint list"
  selectionBBox :: "BoundingBox option"
  history :: "string list"
  historyIndex :: int
  dragMode :: DragMode
  isDraggingPoint :: "nat option"
  isDrawing :: bool
  startPoint :: "point option"
  currentDrawElement :: "ref option"
  didChange :: bool
  currentHexColor :: string
  rotationCenter :: "point option"
  startTransformsMap :: "ref \<rightharpoonup> TransformData"

text \<open>
  A mouse event, with what the handlers read from it: \<open>svgPoint\<close> is
  \<^verbatim>\<open>getSVGPoint(e.clientX, e.clientY)\<close>, \<open>localPoint\<close> is \<^verbatim>\<open>getLocalPoint(e.clientX,
  e.clientY, el)\<close> for the selected element, \<open>target\<close> is the reference of \<^verbatim>\<open>e.target\<close>
  (a reference outside the store when the target is not an element of the drawing), and
  \<open>promptText\<close> is what \<^verbatim>\<open>window.prompt\<close> returns if the handler opens it.
\<close>

record mouse_event =
  svgPoint :: point
  localPoint :: point
  target :: ref
  ctrlKey :: bool
  metaKey :: bool
  shiftKey :: bool
  promptText :: "string option"


section \<open>The editor: transform store, bounding box and history\<close>

text \<open>\<^verbatim>\<open>getElementTransform(el)\<close> and \<^verbatim>\<open>setElementTransform(el, data)\<close>.\<close>

definition getElementTransform :: "platform \<Rightarrow> element \<Rightarrow> TransformData" where
  "getElementTransform P el =
     \<lparr>tx = numAttr P el ''data-tx'',
      ty = numAttr P el ''data-ty'',
      rotation = numAttr P el ''data-rotation'',
      cx = numAttr P el ''data-cx'',
      cy = numAttr P el ''data-cy''\<rparr>"

definition transformString :: "platform \<Rightarrow> TransformData \<Rightarrow> string" where
  "transformString P d =
     (let transformStr = ''translate('' @ String P (tx d) @ '', '' @ String P (ty d) @ '')''
      in if rotation d \<noteq> 0
         then transformStr @ '' rotate('' @ String P (rotation d) @ '', '' @ String P (cx d)
                @ '', '' @ String P (cy d) @ '')''
         else transformStr)"

definition setElementTransform :: "platform \<Rightarrow> element \<Rightarrow> TransformData \<Rightarrow> element" where
  "setElementTransform P el d =
     (let el1 = setAttribute el ''data-tx'' (String P (tx d));
          el2 = setAttribute el1 ''data-ty'' (String P (ty d));
          el3 = setAttribute el2 ''data-rotation'' (String P (rotation d));
          el4 = setAttribute el3 ''data-cx'' (String P (cx d));
          el5 = setAttribute el4 ''data-cy'' (String P (cy d))
      in setAttribute el5 ''transform'' (transformString P d))"

text \<open>
  The objects a list of references denotes. A reference always denotes an object; one
  outside the store, which no handler creates, is passed over.
\<close>

definition elementsOf :: "editor \<Rightarrow> ref list \<Rightarrow> element list" where
  "elementsOf st refs = List.map_filter (heap st) refs"

text \<open>
  \<^verbatim>\<open>updateSelectionBBox(elements)\<close>. The running minimum and maximum start at
  \<^verbatim>\<open>Infinity\<close> and \<^verbatim>\<open>-Infinity\<close>; \<open>extent\<close> is \<open>None\<close> when they are still there.
\<close>

definition extent :: "real list \<Rightarrow> (real \<times> real) option" where
  "extent vs = (case vs of [] \<Rightarrow> None | v # rest \<Rightarrow> Some (fold min rest v, fold max rest v))"

definition updateSelectionBBox :: "platform \<Rightarrow> ref list \<Rightarrow> editor \<Rightarrow> editor" where
  "updateSelectionBBox P elements st =
     (if elements = [] then st\<lparr>selectionBBox := None\<rparr>
      else
        let corners = map (boundingCorners P) (elementsOf st elements);
            xs = concat (map (\<lambda>(ptTL, ptBR). [fst ptTL, fst ptBR]) corners);
            ys = concat (map (\<lambda>(ptTL, ptBR). [snd ptTL, snd ptBR]) corners)
        in case (extent xs, extent ys) of
             (Some (minX, maxX), Some (minY, maxY)) \<Rightarrow>
               if 10000 < \<bar>minX\<bar> then st\<lparr>selectionBBox := None\<rparr>
               else st\<lparr>selectionBBox := Some
                      \<lparr>bb_x = minX, bb_y = minY, bb_width = maxX - minX,
                       bb_height = maxY - minY, bb_cx = (minX + maxX) / 2,
                       bb_cy = (minY + maxY) / 2\<rparr>\<rparr>
           | _ \<Rightarrow> st\<lparr>selectionBBox := None\<rparr>)"

text \<open>\<^verbatim>\<open>getCurrentSVGString()\<close>: \<open>None\<close> is \<^verbatim>\<open>null\<close>.\<close>

definition getCurrentSVGString :: "platform \<Rightarrow> editor \<Rightarrow> string option" where
  "getCurrentSVGString P st =
     (case svg st of
        None \<Rightarrow> None
      | Some (svgEl, children) \<Rightarrow> Some (serializeToString P (svgEl, elementsOf st children)))"

text \<open>\<^verbatim>\<open>xs.slice(0, n)\<close>: a negative \<open>n\<close> counts from the end.\<close>

definition slice0 :: "'a list \<Rightarrow> int \<Rightarrow> 'a list" where
  "slice0 xs n = (if n < 0 then take (length xs - nat (- n)) xs else take (nat n) xs)"

text \<open>
  \<^verbatim>\<open>addToHistory()\<close>. The callback closes over the value \<^verbatim>\<open>historyIndex\<close> had when the
  handler that calls it was created, which is the value at the start of the event; this
  is the argument \<open>hi\<close>. The two state updates are functional updates: the first
  truncates the current history at \<open>hi + 1\<close> and appends, the second adds one to the
  current index.
\<close>

definition addToHistory :: "platform \<Rightarrow> int \<Rightarrow> editor \<Rightarrow> editor" where
  "addToHistory P hi st =
     (case getCurrentSVGString P st of
        None \<Rightarrow> st
      | Some content \<Rightarrow>
          if content = [] then st
          else st\<lparr>history := slice0 (history st) (hi + 1) @ [content],
                  historyIndex := historyIndex st + 1\<rparr>)"

text \<open>
  \<^verbatim>\<open>restoreState(content)\<close>. The parsed tree consists of new objects, which get new
  references. The mount node \<^verbatim>\<open>mountRef.current\<close> exists whenever the toolbar that calls
  the handlers is rendered.
\<close>

definition restoredTree :: "platform \<Rightarrow> string \<Rightarrow> element \<times> element list" where
  "restoredTree P content =
     (case parseFromString P content of
        (newSvg, els) \<Rightarrow>
          (setStyle (setStyle newSvg ''display'' ''block'') ''overflow'' ''visible'', els))"

definition allocate :: "element list \<Rightarrow> editor \<Rightarrow> ref list \<times> editor" where
  "allocate els st =
     (let refs = [nextRef st ..< nextRef st + length els]
      in (refs, st\<lparr>heap := heap st ++ map_of (zip refs els),
                    nextRef := nextRef st + length els\<rparr>))"

definition restoreState :: "platform \<Rightarrow> string \<Rightarrow> editor \<Rightarrow> editor" where
  "restoreState P content st =
     (case restoredTree P content of
        (newSvg, els) \<Rightarrow>
          (case allocate els st of
             (refs, st1) \<Rightarrow>
               st1\<lparr>svg := Some (newSvg, refs), selectedElements := [],
                    controlPoints := [], selectionBBox := None\<rparr>))"

text \<open>\<^verbatim>\<open>history[i]\<close>; out of range it is \<^verbatim>\<open>undefined\<close>, which the parser reads as the text
  \<^verbatim>\<open>undefined\<close>.\<close>

definition historyAt :: "editor \<Rightarrow> int \<Rightarrow> string" where
  "historyAt st i =
     (if 0 \<le> i \<and> nat i < length (history st) then history st ! nat i else ''undefined'')"

definition handleUndo :: "platform \<Rightarrow> editor \<Rightarrow> editor" where
  "handleUndo P st =
     (if 0 < historyIndex st then
        (let newIndex = historyIndex st - 1
         in restoreState P (historyAt st newIndex) (st\<lparr>historyIndex := newIndex\<rparr>))
      else st)"

definition handleRedo :: "platform \<Rightarrow> editor \<Rightarrow> editor" where
  "handleRedo P st =
     (if historyIndex st < int (length (history st)) - 1 then
        (let newIndex = historyIndex st + 1
         in restoreState P (historyAt st newIndex) (st\<lparr>historyIndex := newIndex\<rparr>))
      else st)"


section \<open>The editor: control points and shape edits\<close>

text \<open>
  \<^verbatim>\<open>s.split(/\s+|,/)\<close> and \<^verbatim>\<open>s.split(/\s+/)\<close>: the pieces of \<open>s\<close> between separators,
  a separator being a longest run of white space or, when \<open>comma\<close> is set, a single
  comma. The flag \<open>inWs\<close> says that the previous character was white space, so that
  the separator it began goes on.
\<close>

fun splitFrom :: "bool \<Rightarrow> bool \<Rightarrow> string \<Rightarrow> string list" where
  "splitFrom comma inWs [] = [[]]"
| "splitFrom comma inWs (c # cs) =
     (if isWhiteSpace c then
        (if inWs then splitFrom comma True cs else [] # splitFrom comma True cs)
      else if comma \<and> c = CHR '','' then [] # splitFrom comma False cs
      else (case splitFrom comma False cs of
              [] \<Rightarrow> [[c]]
            | piece # pieces \<Rightarrow> (c # piece) # pieces))"

definition splitWsComma :: "string \<Rightarrow> string list" where
  "splitWsComma s = splitFrom True False s"

definition splitWs :: "string \<Rightarrow> string list" where
  "splitWs s = splitFrom False False s"

text \<open>
  \<^verbatim>\<open>d.match(/[ML]\s*[\d.-]+\s*[\d.-]+/gi)\<close>. \<open>matchCommand s\<close> is the length of the match
  of the expression at the start of \<open>s\<close>, if there is one: a letter M or L in either
  case, white space, a run of the characters \<^verbatim>\<open>0-9 . -\<close>, white space, and a second
  such run. Each part takes as much as it can; when no second run follows, the first run
  gives up its last character to stand for the second, which needs a first run of two
  characters or more. \<open>matchAll\<close> collects the matches from left to right, each search
  starting where the previous match ended; the empty list is \<^verbatim>\<open>null\<close>.
\<close>

definition isCoordChar :: "char \<Rightarrow> bool" where
  "isCoordChar c = (c \<in> set ''0123456789.-'')"

definition matchCommand :: "string \<Rightarrow> nat option" where
  "matchCommand s =
     (case s of
        [] \<Rightarrow> None
      | c # cs \<Rightarrow>
          if c \<notin> set ''MLml'' then None
          else
            let w1 = length (takeWhile isWhiteSpace cs);
                r1 = drop w1 cs;
                n1 = length (takeWhile isCoordChar r1);
                r2 = drop n1 r1;
                w2 = length (takeWhile isWhiteSpace r2);
                r3 = drop w2 r2;
                n2 = length (takeWhile isCoordChar r3)
            in if n1 = 0 then None
               else if 0 < n2 then Some (1 + w1 + n1 + w2 + n2)
               else if 2 \<le> n1 then Some (1 + w1 + n1)
               else None)"

fun matchAllFrom :: "nat \<Rightarrow> string \<Rightarrow> string list" where
  "matchAllFrom k [] = []"
| "matchAllFrom k (c # cs) =
     (if 0 < k then matchAllFrom (k - 1) cs
      else case matchCommand (c # cs) of
             None \<Rightarrow> matchAllFrom 0 cs
           | Some n \<Rightarrow> take n (c # cs) # matchAllFrom (n - 1) cs)"

definition matchAll :: "string \<Rightarrow> string list" where
  "matchAll d = matchAllFrom 0 d"

text \<open>\<^verbatim>\<open>parseControlPoints(el)\<close>.\<close>

definition mkPoint :: "real \<Rightarrow> real \<Rightarrow> nat \<Rightarrow> PointType \<Rightarrow> ControlPoint" where
  "mkPoint px py i t = \<lparr>cp_x = px, cp_y = py, cp_id = i, cp_type = t\<rparr>"

text \<open>The loop over \<^verbatim>\<open>pairs\<close> in steps of two; \<open>k\<close> is \<^verbatim>\<open>i / 2\<close>. No piece is empty, so
  \<^verbatim>\<open>pairs[i] && pairs[i+1]\<close> holds exactly when both exist.\<close>

fun pairPoints :: "platform \<Rightarrow> nat \<Rightarrow> string list \<Rightarrow> ControlPoint list" where
  "pairPoints P k (a # b # rest) =
     mkPoint (parseFloat P a) (parseFloat P b) k Vertex # pairPoints P (Suc k) rest"
| "pairPoints P k rest = []"

fun commandPoints :: "platform \<Rightarrow> nat \<Rightarrow> string list \<Rightarrow> ControlPoint list" where
  "commandPoints P index [] = []"
| "commandPoints P index (cmd # cmds) =
     (let parts = splitWs (trim cmd)
      in (if 3 \<le> length parts
          then [mkPoint (parseFloat P (parts ! 1)) (parseFloat P (parts ! 2)) index Vertex]
          else [])
         @ commandPoints P (Suc index) cmds)"

definition parseControlPoints :: "platform \<Rightarrow> element \<Rightarrow> ControlPoint list" where
  "parseControlPoints P el =
     (let tag = toLowerCase (tagName el) in
      if tag = ''line'' then
        [mkPoint (numAttr P el ''x1'') (numAttr P el ''y1'') 0 Vertex,
         mkPoint (numAttr P el ''x2'') (numAttr P el ''y2'') 1 Vertex]
      else if tag = ''circle'' then
        (let cx0 = numAttr P el ''cx''; cy0 = numAttr P el ''cy''; r = numAttr P el ''r''
         in [mkPoint cx0 cy0 0 Center, mkPoint (cx0 + r) cy0 1 Radius])
      else if tag = ''ellipse'' then
        (let cx0 = numAttr P el ''cx''; cy0 = numAttr P el ''cy'';
             rx = numAttr P el ''rx''; ry = numAttr P el ''ry''
         in [mkPoint cx0 cy0 0 Center, mkPoint (cx0 + rx) cy0 1 RadiusX,
             mkPoint cx0 (cy0 + ry) 2 RadiusY])
      else if tag = ''rect'' then
        (let x0 = numAttr P el ''x''; y0 = numAttr P el ''y'';
             w = numAttr P el ''width''; h = numAttr P el ''height''
         in [mkPoint x0 y0 0 Resize, mkPoint (x0 + w) (y0 + h) 1 Resize])
      else if tag = ''polygon'' \<or> tag = ''polyline'' then
        (let pointsAttr = orDefault (getAttribute el ''points'') [];
             pairs = filter (\<lambda>p. p \<noteq> []) (splitWsComma (trim pointsAttr))
         in pairPoints P 0 pairs)
      else if tag = ''path'' then
        (let d = orDefault (getAttribute el ''d'') []
         in commandPoints P 0 (matchAll d))
      else if tag = ''text'' then
        [mkPoint (numAttr P el ''x'') (numAttr P el ''y'') 0 Center]
      else [])"

text \<open>
  \<^verbatim>\<open>updateElementShape(el, pointIndex, newX, newY)\<close>. The result is the element after the
  edit, or \<open>None\<close> when the function throws a \<^verbatim>\<open>TypeError\<close>: in the branch for a path,
  \<^verbatim>\<open>currentPoints[pointIndex].x = newX\<close> is not guarded, and there can be fewer points
  than commands. The first statement of the function, \<^verbatim>\<open>didChangeRef.current = true\<close>, is
  a write to the editor's state; the model makes it where the function is called.
\<close>

definition joinWith :: "string \<Rightarrow> string list \<Rightarrow> string" where
  "joinWith sep xs = (case xs of [] \<Rightarrow> [] | y # ys \<Rightarrow> y @ concat (map (\<lambda>z. sep @ z) ys))"

definition movePoint :: "ControlPoint list \<Rightarrow> nat \<Rightarrow> real \<Rightarrow> real \<Rightarrow> ControlPoint list" where
  "movePoint ps i newX newY = ps[i := (ps ! i)\<lparr>cp_x := newX, cp_y := newY\<rparr>]"

fun pathData :: "platform \<Rightarrow> nat \<Rightarrow> ControlPoint list \<Rightarrow> string" where
  "pathData P idx [] = []"
| "pathData P idx (p # ps) =
     (if idx = 0 then ''M'' else ''L'') @ '' '' @ String P (cp_x p) @ '' ''
       @ String P (cp_y p) @ '' '' @ pathData P (Suc idx) ps"

definition updateElementShape ::
  "platform \<Rightarrow> element \<Rightarrow> nat \<Rightarrow> real \<Rightarrow> real \<Rightarrow> element option" where
  "updateElementShape P el pointIndex newX newY =
     (let tag = toLowerCase (tagName el) in
      if tag = ''line'' then
        (if pointIndex = 0
         then Some (setAttribute (setAttribute el ''x1'' (String P newX)) ''y1'' (String P newY))
         else Some (setAttribute (setAttribute el ''x2'' (String P newX)) ''y2'' (String P newY)))
      else if tag = ''circle'' then
        (if pointIndex = 0
         then Some (setAttribute (setAttribute el ''cx'' (String P newX)) ''cy'' (String P newY))
         else
           let cx0 = numAttr P el ''cx''; cy0 = numAttr P el ''cy'';
               newR = sqrt ((newX - cx0)\<^sup>2 + (newY - cy0)\<^sup>2)
           in Some (setAttribute el ''r'' (String P newR)))
      else if tag = ''ellipse'' then
        (if pointIndex = 0
         then Some (setAttribute (setAttribute el ''cx'' (String P newX)) ''cy'' (String P newY))
         else if pointIndex = 1 then
           (let cx0 = numAttr P el ''cx''; newRx = \<bar>newX - cx0\<bar>
            in Some (setAttribute el ''rx'' (String P newRx)))
         else if pointIndex = 2 then
           (let cy0 = numAttr P el ''cy''; newRy = \<bar>newY - cy0\<bar>
            in Some (setAttribute el ''ry'' (String P newRy)))
         else Some el)
      else if tag = ''rect'' then
        (let x0 = numAttr P el ''x''; y0 = numAttr P el ''y'';
             w = numAttr P el ''width''; h = numAttr P el ''height''
         in if pointIndex = 0 then
              (let newW = (x0 + w) - newX; newH = (y0 + h) - newY
               in if 0 < newW \<and> 0 < newH
                  then Some (setAttribute (setAttribute (setAttribute (setAttribute el
                         ''x'' (String P newX)) ''y'' (String P newY))
                         ''width'' (String P newW)) ''height'' (String P newH))
                  else Some el)
            else
              (let newW = newX - x0; newH = newY - y0
               in if 0 < newW \<and> 0 < newH
                  then Some (setAttribute (setAttribute el
                         ''width'' (String P newW)) ''height'' (String P newH))
                  else Some el))
      else if tag = ''polygon'' \<or> tag = ''polyline'' then
        (let currentPoints = parseControlPoints P el
         in if pointIndex < length currentPoints then
              (let moved = movePoint currentPoints pointIndex newX newY;
                   newPointsStr =
                     joinWith '' '' (map (\<lambda>p. String P (cp_x p) @ '','' @ String P (cp_y p)) moved)
               in Some (setAttribute el ''points'' newPointsStr))
            else Some el)
      else if tag = ''path'' then
        (let d = orDefault (getAttribute el ''d'') [];
             commands = matchAll d
         in if pointIndex < length commands then
              (let currentPoints = parseControlPoints P el
               in if pointIndex < length currentPoints then
                    (let moved = movePoint currentPoints pointIndex newX newY;
                         newD = pathData P 0 moved;
                         newD2 = (if CHR ''z'' \<in> set (toLowerCase d) then newD @ ''Z'' else newD)
                     in Some (setAttribute el ''d'' newD2))
                  else None)
            else Some el)
      else if tag = ''text'' then
        Some (setAttribute (setAttribute el ''x'' (String P newX)) ''y'' (String P newY))
      else Some el)"


section \<open>The editor: event handlers\<close>

text \<open>Operations on the store and the tree that the handlers use.\<close>

definition newObject :: "element \<Rightarrow> editor \<Rightarrow> ref \<times> editor" where
  "newObject el st =
     (nextRef st, st\<lparr>heap := (heap st)(nextRef st \<mapsto> el), nextRef := Suc (nextRef st)\<rparr>)"

definition appendChild :: "ref \<Rightarrow> editor \<Rightarrow> editor" where
  "appendChild r st =
     (case svg st of
        None \<Rightarrow> st
      | Some (svgEl, children) \<Rightarrow> st\<lparr>svg := Some (svgEl, children @ [r])\<rparr>)"

text \<open>\<^verbatim>\<open>el.parentNode?.removeChild(el)\<close>, and the same under \<^verbatim>\<open>if (el.parentNode)\<close>.\<close>

definition removeChild :: "ref \<Rightarrow> editor \<Rightarrow> editor" where
  "removeChild r st =
     (case svg st of
        None \<Rightarrow> st
      | Some (svgEl, children) \<Rightarrow> st\<lparr>svg := Some (svgEl, filter (\<lambda>c. c \<noteq> r) children)\<rparr>)"

text \<open>\<^verbatim>\<open>refs.forEach(el => f(el))\<close> for an \<open>f\<close> that mutates the element it is given.\<close>

definition forEachElement ::
  "(ref \<Rightarrow> element \<Rightarrow> element) \<Rightarrow> ref list \<Rightarrow> (ref \<rightharpoonup> element) \<Rightarrow> (ref \<rightharpoonup> element)" where
  "forEachElement f refs h =
     fold (\<lambda>r h'. case h' r of None \<Rightarrow> h' | Some el \<Rightarrow> h'(r \<mapsto> f r el)) refs h"

definition controlPointsOf :: "platform \<Rightarrow> editor \<Rightarrow> ref \<Rightarrow> ControlPoint list" where
  "controlPointsOf P st r =
     (case heap st r of None \<Rightarrow> [] | Some el \<Rightarrow> parseControlPoints P el)"

text \<open>The drag session's map from each element to its transform at the start of the
  gesture: \<^verbatim>\<open>clear()\<close>, then one \<^verbatim>\<open>set\<close> for each element.\<close>

definition captureTransforms :: "platform \<Rightarrow> ref list \<Rightarrow> editor \<Rightarrow> editor" where
  "captureTransforms P refs st =
     st\<lparr>startTransformsMap :=
          fold (\<lambda>r m. case heap st r of
                         None \<Rightarrow> m
                       | Some el \<Rightarrow> m(r \<mapsto> getElementTransform P el)) refs Map.empty\<rparr>"

subsection \<open>\<^verbatim>\<open>handleMouseDownCanvas\<close>\<close>

definition newShapeTag :: "ToolType \<Rightarrow> string" where
  "newShapeTag t =
     (if t = ToolRect then ''rect'' else if t = ToolCircle then ''ellipse''
      else if t = ToolText then ''text'' else ''line'')"

text \<open>The new element with its stroke and fill and, for a line, a rectangle or an ellipse,
  its geometry of no extent at the point \<open>pt\<close>.\<close>

definition newShape :: "platform \<Rightarrow> ToolType \<Rightarrow> string \<Rightarrow> point \<Rightarrow> element" where
  "newShape P t color pt =
     (let newEl = createElementNS (newShapeTag t);
          styled =
            (if t \<noteq> ToolText
             then setAttribute (setAttribute (setAttribute newEl ''stroke'' color)
                    ''stroke-width'' ''2'') ''fill'' ''none''
             else setAttribute newEl ''fill'' color)
      in if t = ToolLine then
           setAttribute (setAttribute (setAttribute (setAttribute styled
             ''x1'' (String P (fst pt))) ''y1'' (String P (snd pt)))
             ''x2'' (String P (fst pt))) ''y2'' (String P (snd pt))
         else if t = ToolRect then
           setAttribute (setAttribute (setAttribute (setAttribute styled
             ''x'' (String P (fst pt))) ''y'' (String P (snd pt)))
             ''width'' ''0'') ''height'' ''0''
         else if t = ToolCircle then
           setAttribute (setAttribute (setAttribute (setAttribute styled
             ''cx'' (String P (fst pt))) ''cy'' (String P (snd pt)))
             ''rx'' ''0'') ''ry'' ''0''
         else styled)"

definition textShape :: "platform \<Rightarrow> element \<Rightarrow> string \<Rightarrow> point \<Rightarrow> element" where
  "textShape P newEl text pt =
     setAttribute (setAttribute (setAttribute (setAttribute (setAttribute (setAttribute
       (newEl\<lparr>textContent := text\<rparr>)
       ''x'' (String P (fst pt))) ''y'' (String P (snd pt)))
       ''font-size'' ''16'') ''font-family'' ''sans-serif'')
       ''text-anchor'' ''middle'') ''dominant-baseline'' ''middle''"

text \<open>The branch \<^verbatim>\<open>tool !== 'select'\<close> once the mounted tree has been found; \<open>hi\<close> is the
  history index that \<^verbatim>\<open>addToHistory\<close> closes over.\<close>

definition beginDraw :: "platform \<Rightarrow> mouse_event \<Rightarrow> int \<Rightarrow> editor \<Rightarrow> editor" where
  "beginDraw P e hi st =
     (let pt = svgPoint e;
          st1 = st\<lparr>isDrawing := True, didChange := False, startPoint := Some pt,
                   selectedElements := [], controlPoints := [], selectionBBox := None\<rparr>;
          newEl = newShape P (tool st1) (currentHexColor st1) pt
      in if tool st1 = ToolText then
           (case promptText e of
              None \<Rightarrow> (snd (newObject newEl st1))\<lparr>isDrawing := False\<rparr>
            | Some text \<Rightarrow>
                if text = [] then (snd (newObject newEl st1))\<lparr>isDrawing := False\<rparr>
                else
                  (case newObject (textShape P newEl text pt) st1 of
                     (r, st2) \<Rightarrow>
                       (let st3 = addToHistory P hi (appendChild r st2);
                            st4 = st3\<lparr>selectedElements := [r],
                                     controlPoints := controlPointsOf P st3 r\<rparr>;
                            st5 = updateSelectionBBox P [r] st4
                        in st5\<lparr>isDrawing := False, tool := ToolSelect\<rparr>)))
         else
           (case newObject newEl st1 of
              (r, st2) \<Rightarrow> (appendChild r st2)\<lparr>currentDrawElement := Some r\<rparr>))"

definition validShapeTags :: "string list" where
  "validShapeTags =
     [''line'', ''rect'', ''circle'', ''ellipse'', ''path'', ''polygon'', ''polyline'', ''text'']"

text \<open>\<^verbatim>\<open>svg && svg.contains(target) && validShapeTags.includes(tagName)\<close>.\<close>

definition isShapeTarget :: "editor \<Rightarrow> ref \<Rightarrow> bool" where
  "isShapeTarget st t =
     (case svg st of
        None \<Rightarrow> False
      | Some (svgEl, children) \<Rightarrow>
          (case heap st t of
             None \<Rightarrow> False
           | Some el \<Rightarrow> t \<in> set children \<and> toLowerCase (tagName el) \<in> set validShapeTags))"

text \<open>The selection after a click on the shape \<open>t\<close>.\<close>

definition nextSelection :: "bool \<Rightarrow> ref \<Rightarrow> ref list \<Rightarrow> ref list" where
  "nextSelection isCtrl t sel =
     (if isCtrl then
        (if t \<in> set sel then filter (\<lambda>el. el \<noteq> t) sel else sel @ [t])
      else
        (if t \<notin> set sel then [t] else sel))"

definition selectDown :: "platform \<Rightarrow> mouse_event \<Rightarrow> editor \<Rightarrow> editor" where
  "selectDown P e st =
     (if isShapeTarget st (target e) then
        (let isCtrl = (ctrlKey e \<or> metaKey e);
             newSelection = nextSelection isCtrl (target e) (selectedElements st);
             st1 = st\<lparr>selectedElements := newSelection\<rparr>;
             st2 = (if length newSelection = 1
                    then st1\<lparr>controlPoints := controlPointsOf P st1 (newSelection ! 0)\<rparr>
                    else st1\<lparr>controlPoints := []\<rparr>);
             st3 = updateSelectionBBox P newSelection st2;
             st4 = st3\<lparr>dragMode := DragMove, startPoint := Some (svgPoint e),
                      didChange := False\<rparr>
         in captureTransforms P newSelection st4)
      else
        st\<lparr>selectedElements := [], controlPoints := [], selectionBBox := None,
           dragMode := DragNone\<rparr>)"

definition handleMouseDownCanvas :: "platform \<Rightarrow> mouse_event \<Rightarrow> editor \<Rightarrow> editor" where
  "handleMouseDownCanvas P e st =
     (if tool st \<noteq> ToolSelect then
        (case svg st of
           None \<Rightarrow> st
         | Some mounted \<Rightarrow> beginDraw P e (historyIndex st) st)
      else selectDown P e st)"

subsection \<open>The handlers of the bounding box and of the handles\<close>

definition handleBBoxMouseDown :: "platform \<Rightarrow> mouse_event \<Rightarrow> editor \<Rightarrow> editor" where
  "handleBBoxMouseDown P e st =
     (if tool st \<noteq> ToolSelect then st
      else captureTransforms P (selectedElements st)
             (st\<lparr>dragMode := DragMove, startPoint := Some (svgPoint e), didChange := False\<rparr>))"

definition handleRotateMouseDown :: "platform \<Rightarrow> mouse_event \<Rightarrow> editor \<Rightarrow> editor" where
  "handleRotateMouseDown P e st =
     (if tool st \<noteq> ToolSelect then st
      else case selectionBBox st of
             None \<Rightarrow> st
           | Some bbox \<Rightarrow>
               captureTransforms P (selectedElements st)
                 (st\<lparr>dragMode := DragRotate, startPoint := Some (svgPoint e),
                     didChange := False, rotationCenter := Some (bb_cx bbox, bb_cy bbox)\<rparr>))"

definition handleVertexMouseDown :: "nat \<Rightarrow> editor \<Rightarrow> editor" where
  "handleVertexMouseDown idx st =
     st\<lparr>dragMode := DragVertex, isDraggingPoint := Some idx, didChange := False\<rparr>"


subsection \<open>\<^verbatim>\<open>handleMouseMove\<close>\<close>

text \<open>The block for a vertex drag, which ends the handler. When \<^const>\<open>updateElementShape\<close>
  throws, the handler stops there, with \<^verbatim>\<open>didChangeRef\<close> already set.\<close>

definition dragVertex :: "platform \<Rightarrow> mouse_event \<Rightarrow> editor \<Rightarrow> editor" where
  "dragVertex P e st =
     (case (selectedElements st, isDraggingPoint st) of
        ([r], Some idx) \<Rightarrow>
          (let st1 = st\<lparr>didChange := True\<rparr>
           in case heap st1 r of
                None \<Rightarrow> st1
              | Some el \<Rightarrow>
                  (case updateElementShape P el idx (fst (localPoint e)) (snd (localPoint e)) of
                     None \<Rightarrow> st1
                   | Some el' \<Rightarrow>
                       (let st2 = st1\<lparr>heap := (heap st1)(r \<mapsto> el')\<rparr>;
                            st3 = st2\<lparr>controlPoints := controlPointsOf P st2 r\<rparr>
                        in updateSelectionBBox P [r] st3)))
      | _ \<Rightarrow> st)"

text \<open>The block for a move drag, entered when a start point \<open>start\<close> is set.\<close>

definition moveElement ::
  "platform \<Rightarrow> real \<Rightarrow> real \<Rightarrow> (ref \<rightharpoonup> TransformData) \<Rightarrow> ref \<Rightarrow> element \<Rightarrow> element" where
  "moveElement P dx dy starts r el =
     (case starts r of
        None \<Rightarrow> el
      | Some startTx \<Rightarrow>
          (let newTx = tx startTx + dx; newTy = ty startTx + dy
           in setElementTransform P el (startTx\<lparr>tx := newTx, ty := newTy\<rparr>)))"

definition dragMove :: "platform \<Rightarrow> point \<Rightarrow> point \<Rightarrow> editor \<Rightarrow> editor" where
  "dragMove P pt start st =
     (let st1 = st\<lparr>didChange := True\<rparr>;
          dx = fst pt - fst start;
          dy = snd pt - snd start;
          st2 = st1\<lparr>heap := forEachElement (moveElement P dx dy (startTransformsMap st1))
                                (selectedElements st1) (heap st1)\<rparr>
      in updateSelectionBBox P (selectedElements st2) st2)"

text \<open>\<^verbatim>\<open>Math.atan2(y, x)\<close>, and the block for a rotation drag around the centre \<open>c\<close>.\<close>

definition atan2 :: "real \<Rightarrow> real \<Rightarrow> real" where
  "atan2 b a =
     (if 0 < a then arctan (b / a)
      else if a < 0 \<and> 0 \<le> b then arctan (b / a) + pi
      else if a < 0 then arctan (b / a) - pi
      else if 0 < b then pi / 2
      else if b < 0 then - pi / 2
      else 0)"

definition rotateElement ::
  "platform \<Rightarrow> real \<Rightarrow> point \<Rightarrow> (ref \<rightharpoonup> TransformData) \<Rightarrow> ref \<Rightarrow> element \<Rightarrow> element" where
  "rotateElement P angleDelta c starts r el =
     (case starts r of
        None \<Rightarrow> el
      | Some startTx \<Rightarrow>
          setElementTransform P el
            (startTx\<lparr>rotation := rotation startTx + angleDelta, cx := fst c, cy := snd c\<rparr>))"

definition dragRotate :: "platform \<Rightarrow> point \<Rightarrow> point \<Rightarrow> point \<Rightarrow> editor \<Rightarrow> editor" where
  "dragRotate P pt start c st =
     (let st1 = st\<lparr>didChange := True\<rparr>;
          angleNow = atan2 (snd pt - snd c) (fst pt - fst c);
          angleStart = atan2 (snd start - snd c) (fst start - fst c);
          angleDelta = (angleNow - angleStart) * (180 / pi);
          st2 = st1\<lparr>heap := forEachElement (rotateElement P angleDelta c (startTransformsMap st1))
                                (selectedElements st1) (heap st1)\<rparr>
      in updateSelectionBBox P (selectedElements st2) st2)"

text \<open>The block that grows the shape being drawn. \<^verbatim>\<open>Math.round(v)\<close> is
  \<open>\<lfloor>v + 1/2\<rfloor>\<close>.\<close>

definition growShape :: "platform \<Rightarrow> ToolType \<Rightarrow> bool \<Rightarrow> point \<Rightarrow> point \<Rightarrow> element \<Rightarrow> element" where
  "growShape P t shift pt start el =
     (if t = ToolLine then
        (let dx = fst pt - fst start;
             dy = snd pt - snd start;
             angle = atan2 dy dx;
             snapAngle = of_int \<lfloor>angle / (pi / 4) + 1 / 2\<rfloor> * (pi / 4);
             dist = sqrt (dx * dx + dy * dy);
             x2 = (if shift then fst start + dist * cos snapAngle else fst pt);
             y2 = (if shift then snd start + dist * sin snapAngle else snd pt)
         in setAttribute (setAttribute el ''x2'' (String P x2)) ''y2'' (String P y2))
      else if t = ToolRect then
        (let width0 = fst pt - fst start;
             height0 = snd pt - snd start;
             size = max \<bar>width0\<bar> \<bar>height0\<bar>;
             width = (if shift then size * (if width0 < 0 then - 1 else 1) else width0);
             height = (if shift then size * (if height0 < 0 then - 1 else 1) else height0)
         in setAttribute (setAttribute (setAttribute (setAttribute el
              ''x'' (String P (if width < 0 then fst start + width else fst start)))
              ''y'' (String P (if height < 0 then snd start + height else snd start)))
              ''width'' (String P \<bar>width\<bar>)) ''height'' (String P \<bar>height\<bar>))
      else if t = ToolCircle then
        (let rx0 = \<bar>fst pt - fst start\<bar>;
             ry0 = \<bar>snd pt - snd start\<bar>;
             r = max rx0 ry0;
             rx = (if shift then r else rx0);
             ry = (if shift then r else ry0)
         in setAttribute (setAttribute el ''rx'' (String P rx)) ''ry'' (String P ry))
      else el)"

definition drawGrow :: "platform \<Rightarrow> mouse_event \<Rightarrow> ref \<Rightarrow> point \<Rightarrow> editor \<Rightarrow> editor" where
  "drawGrow P e r start st =
     (let st1 = st\<lparr>didChange := True\<rparr>
      in st1\<lparr>heap := forEachElement
                         (\<lambda>r'. growShape P (tool st1) (shiftKey e) (svgPoint e) start)
                         [r] (heap st1)\<rparr>)"

definition handleMouseMove :: "platform \<Rightarrow> mouse_event \<Rightarrow> editor \<Rightarrow> editor" where
  "handleMouseMove P e st =
     (let pt = svgPoint e in
      if dragMode st = DragVertex \<and> isDraggingPoint st \<noteq> None
         \<and> length (selectedElements st) = 1
      then dragVertex P e st
      else
        let st1 = (case startPoint st of
                     None \<Rightarrow> st
                   | Some start \<Rightarrow>
                       if dragMode st = DragMove \<and> 0 < length (selectedElements st)
                       then dragMove P pt start st else st);
            st2 = (case (startPoint st1, rotationCenter st1) of
                     (Some start, Some c) \<Rightarrow>
                       if dragMode st1 = DragRotate \<and> 0 < length (selectedElements st1)
                       then dragRotate P pt start c st1 else st1
                   | _ \<Rightarrow> st1)
        in (case (currentDrawElement st2, startPoint st2) of
              (Some r, Some start) \<Rightarrow> if isDrawing st2 then drawGrow P e r start st2 else st2
            | _ \<Rightarrow> st2))"

subsection \<open>\<^verbatim>\<open>handleMouseUp\<close>\<close>

text \<open>The test \<^verbatim>\<open>isTiny\<close>; it compares \<^verbatim>\<open>el.tagName\<close> as it is.\<close>

definition isTiny :: "platform \<Rightarrow> element \<Rightarrow> bool" where
  "isTiny P el =
     ((tagName el = ''circle'' \<and> numAttr P el ''r'' < 1)
      \<or> (tagName el = ''ellipse'' \<and> (numAttr P el ''rx'' < 1 \<or> numAttr P el ''ry'' < 1))
      \<or> (tagName el = ''rect'' \<and> numAttr P el ''width'' < 1)
      \<or> (tagName el = ''line''
          \<and> \<bar>numAttr P el ''x1'' - numAttr P el ''x2''\<bar> < 1
          \<and> \<bar>numAttr P el ''y1'' - numAttr P el ''y2''\<bar> < 1))"

definition endDrag :: "platform \<Rightarrow> int \<Rightarrow> editor \<Rightarrow> editor" where
  "endDrag P hi st =
     (if dragMode st \<noteq> DragNone then
        (let st1 = st\<lparr>dragMode := DragNone, isDraggingPoint := None\<rparr>
         in if didChange st1 then
              (let st2 = (addToHistory P hi st1)\<lparr>didChange := False\<rparr>
               in updateSelectionBBox P (selectedElements st2) st2)
            else st1)
      else st)"

definition endDraw :: "platform \<Rightarrow> int \<Rightarrow> editor \<Rightarrow> editor" where
  "endDraw P hi st =
     (if isDrawing st then
        (let st1 = st\<lparr>isDrawing := False\<rparr>
         in case currentDrawElement st1 of
              None \<Rightarrow> st1
            | Some r \<Rightarrow>
                (case heap st1 r of
                   None \<Rightarrow> st1\<lparr>currentDrawElement := None\<rparr>
                 | Some el \<Rightarrow>
                     if isTiny P el then (removeChild r st1)\<lparr>currentDrawElement := None\<rparr>
                     else
                       (let st2 = st1\<lparr>selectedElements := [r],
                                     controlPoints := parseControlPoints P el\<rparr>;
                            st3 = updateSelectionBBox P [r] st2;
                            st4 = addToHistory P hi st3
                        in st4\<lparr>tool := ToolSelect, currentDrawElement := None\<rparr>)))
      else st)"

definition handleMouseUp :: "platform \<Rightarrow> editor \<Rightarrow> editor" where
  "handleMouseUp P st = endDraw P (historyIndex st) (endDrag P (historyIndex st) st)"

subsection \<open>Double click, deletion and the style commands\<close>

definition handleDoubleClick :: "platform \<Rightarrow> mouse_event \<Rightarrow> editor \<Rightarrow> editor" where
  "handleDoubleClick P e st =
     (if tool st \<noteq> ToolSelect then st
      else case heap st (target e) of
             None \<Rightarrow> st
           | Some el \<Rightarrow>
               if toLowerCase (tagName el) = ''text'' then
                 (case promptText e of
                    None \<Rightarrow> st
                  | Some newText \<Rightarrow>
                      if newText \<noteq> textContent el then
                        (let st1 = st\<lparr>heap := (heap st)(target e \<mapsto> el\<lparr>textContent := newText\<rparr>)\<rparr>;
                             st2 = (if target e \<in> set (selectedElements st1)
                                       \<and> length (selectedElements st1) = 1
                                    then updateSelectionBBox P [target e]
                                           (st1\<lparr>controlPoints := controlPointsOf P st1 (target e)\<rparr>)
                                    else st1)
                         in addToHistory P (historyIndex st) st2)
                      else st)
               else st)"

definition handleDelete :: "platform \<Rightarrow> editor \<Rightarrow> editor" where
  "handleDelete P st =
     (if 0 < length (selectedElements st) then
        (let st1 = fold removeChild (selectedElements st) st;
             st2 = st1\<lparr>selectedElements := [], controlPoints := [], selectionBBox := None\<rparr>
         in addToHistory P (historyIndex st) st2)
      else st)"

definition isDashed :: "element \<Rightarrow> bool" where
  "isDashed el =
     (let attrDash = getAttribute el ''stroke-dasharray'';
          styleDash = getStyle el ''strokeDasharray''
      in (truthy attrDash \<and> attrDash \<noteq> Some ''none'')
         \<or> (styleDash \<noteq> [] \<and> styleDash \<noteq> ''none''))"

definition toggleDash :: "element \<Rightarrow> element" where
  "toggleDash el =
     (if isDashed el
      then setStyle (setAttribute el ''stroke-dasharray'' ''none'') ''strokeDasharray'' ''none''
      else setStyle (setAttribute el ''stroke-dasharray'' ''4 4'') ''strokeDasharray'' ''4 4'')"

definition handleToggleDash :: "platform \<Rightarrow> editor \<Rightarrow> editor" where
  "handleToggleDash P st =
     (if 0 < length (selectedElements st) then
        (let st1 = st\<lparr>heap := forEachElement (\<lambda>r. toggleDash) (selectedElements st) (heap st)\<rparr>
         in addToHistory P (historyIndex st) st1)
      else st)"

definition changeStrokeWidth :: "string \<Rightarrow> element \<Rightarrow> element" where
  "changeStrokeWidth width el =
     setStyle (setAttribute el ''stroke-width'' width) ''strokeWidth'' (width @ ''px'')"

definition handleChangeStrokeWidth :: "platform \<Rightarrow> string \<Rightarrow> editor \<Rightarrow> editor" where
  "handleChangeStrokeWidth P width st =
     (if 0 < length (selectedElements st) then
        (let st1 = st\<lparr>heap := forEachElement (\<lambda>r. changeStrokeWidth width)
                                  (selectedElements st) (heap st)\<rparr>
         in addToHistory P (historyIndex st) st1)
      else st)"


subsection \<open>Mounting a new drawing, and the editor as a state machine\<close>

text \<open>The effect that runs when the property \<^verbatim>\<open>svgContent\<close> changes.\<close>

definition withViewBox :: "platform \<Rightarrow> element \<Rightarrow> element" where
  "withViewBox P newSvg =
     (if getAttribute newSvg ''viewBox'' = None then
        (let w = orDefault (getAttribute newSvg ''width'') ''500'';
             h = orDefault (getAttribute newSvg ''height'') ''500''
         in setAttribute newSvg ''viewBox''
              (''0 0 '' @ String P (parseFloat P w) @ '' '' @ String P (parseFloat P h)))
      else newSvg)"

definition initialize :: "platform \<Rightarrow> string option \<Rightarrow> editor \<Rightarrow> editor" where
  "initialize P svgContent st =
     (case svgContent of
        None \<Rightarrow> st
      | Some content \<Rightarrow>
          if content = [] then st
          else
            (let st1 = st\<lparr>selectedElements := [], controlPoints := [], selectionBBox := None,
                          history := [], historyIndex := - 1\<rparr>
             in case parseFromString P content of
                  (newSvg, els) \<Rightarrow>
                    if toLowerCase (tagName newSvg) \<noteq> ''svg'' then st1
                    else
                      (let sized = setAttribute (setAttribute newSvg ''width'' ''100%'')
                                     ''height'' ''100%'';
                           boxed = withViewBox P sized;
                           shown = setStyle (setStyle boxed ''display'' ''block'')
                                     ''overflow'' ''visible''
                       in case allocate els st1 of
                            (refs, st2) \<Rightarrow>
                              st2\<lparr>svg := Some (shown, refs),
                                   history := [serializeToString P (shown, els)],
                                   historyIndex := 0\<rparr>)))"

text \<open>
  The component starts with nothing mounted and an empty history. Its state then changes
  by the handlers above, by the effect, by a change of the properties, and when the
  canvas is replaced by the loading or the error view, which removes the mount node
  with the tree in it.
\<close>

definition initialEditor :: "string \<Rightarrow> editor" where
  "initialEditor color =
     \<lparr>heap = Map.empty, nextRef = 0, svg = None, tool = ToolSelect, selectedElements = [],
      controlPoints = [], selectionBBox = None, history = [], historyIndex = - 1,
      dragMode = DragNone, isDraggingPoint = None, isDrawing = False, startPoint = None,
      currentDrawElement = None, didChange = False, currentHexColor = color,
      rotationCenter = None, startTransformsMap = Map.empty\<rparr>"

datatype event =
    MouseDownCanvas mouse_event
  | BBoxMouseDown mouse_event
  | RotateMouseDown mouse_event
  | VertexMouseDown nat
  | MouseMove mouse_event
  | MouseUp
  | DoubleClick mouse_event
  | Delete
  | ToggleDash
  | ChangeStrokeWidth string
  | Undo
  | Redo
  | SetTool ToolType
  | SvgContentChanged "string option"
  | ColorChanged string
  | CanvasUnmounted

fun step :: "platform \<Rightarrow> event \<Rightarrow> editor \<Rightarrow> editor" where
  "step P (MouseDownCanvas e) st = handleMouseDownCanvas P e st"
| "step P (BBoxMouseDown e) st = handleBBoxMouseDown P e st"
| "step P (RotateMouseDown e) st = handleRotateMouseDown P e st"
| "step P (VertexMouseDown idx) st = handleVertexMouseDown idx st"
| "step P (MouseMove e) st = handleMouseMove P e st"
| "step P MouseUp st = handleMouseUp P st"
| "step P (DoubleClick e) st = handleDoubleClick P e st"
| "step P Delete st = handleDelete P st"
| "step P ToggleDash st = handleToggleDash P st"
| "step P (ChangeStrokeWidth width) st = handleChangeStrokeWidth P width st"
| "step P Undo st = handleUndo P st"
| "step P Redo st = handleRedo P st"
| "step P (SetTool t) st = st\<lparr>tool := t\<rparr>"
| "step P (SvgContentChanged svgContent) st = initialize P svgContent st"
| "step P (ColorChanged color) st = st\<lparr>currentHexColor := color\<rparr>"
| "step P CanvasUnmounted st = st\<lparr>svg := None\<rparr>"

definition run :: "platform \<Rightarrow> event list \<Rightarrow> editor \<Rightarrow> editor" where
  "run P evs st = fold (step P) evs st"

text \<open>Repeating a handler.\<close>

definition repeatedly :: "nat \<Rightarrow> (editor \<Rightarrow> editor) \<Rightarrow> editor \<Rightarrow> editor" where
  "repeatedly n f st = (f ^^ n) st"


section \<open>A platform to compute with\<close>

text \<open>
  The theorems below hold for every platform. To apply them to a concrete input one
  platform is needed; this one converts the numbers of a small table, writes a tree as
  the tag names of its root and of its elements, and measures every element as the unit
  square.
\<close>

definition sampleNumbers :: "(real \<times> string) list" where
  "sampleNumbers =
     [(0, ''0''), (1, ''1''), (2, ''2''), (3, ''3''), (5, ''5''), (7, ''7''), (10, ''10''),
      (10.3, ''10.3''), (10.5, ''10.5''), (20, ''20''), (30, ''30''), (50, ''50''),
      (60, ''60''), (80, ''80''), (90, ''90''), (- 20, ''-20'')]"

definition sampleString :: "real \<Rightarrow> string" where
  "sampleString v = (case map_of sampleNumbers v of None \<Rightarrow> ''NaN'' | Some s \<Rightarrow> s)"

definition sampleParseFloat :: "string \<Rightarrow> real" where
  "sampleParseFloat s =
     (case map_of (map (\<lambda>(v, t). (t, v)) sampleNumbers) s of None \<Rightarrow> 0 | Some v \<Rightarrow> v)"

definition sampleSerialize :: "element \<times> element list \<Rightarrow> string" where
  "sampleSerialize tree = joinWith '' '' (tagName (fst tree) # map tagName (snd tree))"

definition sampleParse :: "string \<Rightarrow> element \<times> element list" where
  "sampleParse s =
     (case filter (\<lambda>p. p \<noteq> []) (splitWs s) of
        [] \<Rightarrow> (createElementNS ''parsererror'', [])
      | t # ts \<Rightarrow> (createElementNS t, map createElementNS ts))"

definition samplePlatform :: platform where
  "samplePlatform =
     \<lparr>String = sampleString, parseFloat = sampleParseFloat,
      serializeToString = sampleSerialize, parseFromString = sampleParse,
      boundingCorners = (\<lambda>el. ((0, 0), (1, 1)))\<rparr>"


text \<open>Three states to compute with: a drawing of one line just mounted, the same after
  the line has been taken out of the tree, and that edit committed.\<close>

definition sampleLoaded :: editor where
  "sampleLoaded = initialize samplePlatform (Some ''svg line'') (initialEditor ''#000000'')"

definition sampleEdited :: editor where
  "sampleEdited = removeChild 0 sampleLoaded"

definition sampleCommitted :: editor where
  "sampleCommitted = addToHistory samplePlatform (historyIndex sampleEdited) sampleEdited"


text \<open>A drawing of a line and a rectangle, and the editor after a click on the line and
  a click with the Ctrl key on the rectangle: both are selected and a move begins.\<close>

definition clickAt :: "ref \<Rightarrow> point \<Rightarrow> bool \<Rightarrow> mouse_event" where
  "clickAt t pt ctrl =
     \<lparr>svgPoint = pt, localPoint = pt, target = t, ctrlKey = ctrl, metaKey = False,
      shiftKey = False, promptText = None\<rparr>"

definition sampleTwoShapes :: editor where
  "sampleTwoShapes = initialize samplePlatform (Some ''svg line rect'') (initialEditor ''#000000'')"

definition sampleGesture :: editor where
  "sampleGesture =
     run samplePlatform
       [MouseDownCanvas (clickAt 0 (3, 3) False), MouseUp,
        MouseDownCanvas (clickAt 1 (10, 10) True)] sampleTwoShapes"



text \<open>A drawing of three lines in which the first line has been selected and dashed, and
  then all three have been selected with the Ctrl key.\<close>

definition sampleMixed :: editor where
  "sampleMixed =
     run samplePlatform
       [SvgContentChanged (Some ''svg line line line''),
        MouseDownCanvas (clickAt 0 (3, 3) False), MouseUp, ToggleDash,
        MouseDownCanvas (clickAt 1 (3, 3) True), MouseUp,
        MouseDownCanvas (clickAt 2 (3, 3) True), MouseUp]
       (initialEditor ''#000000'')"


text \<open>The drawing of a line and a rectangle with the line selected by a click.\<close>

definition sampleSelected :: editor where
  "sampleSelected =
     run samplePlatform
       [SvgContentChanged (Some ''svg line rect''), MouseDownCanvas (clickAt 0 (3, 3) False),
        MouseUp] (initialEditor ''#000000'')"


text \<open>
  A second platform, for the properties that need the parser to give back the tree that
  was written. It differs from the first in the parser only, which looks the text up in a
  table of documents; their root carries the size, the view box and the style that the
  component gives to every root it mounts.
\<close>

definition sampleRoot :: element where
  "sampleRoot =
     \<lparr>tagName = ''svg'',
      attributes = [''viewBox'' \<mapsto> ''0 0 500 500'', ''width'' \<mapsto> ''100%'',
                    ''height'' \<mapsto> ''100%''],
      style = [''display'' \<mapsto> ''block'', ''overflow'' \<mapsto> ''visible''],
      textContent = []\<rparr>"

definition sampleDocuments :: "(string \<times> element \<times> element list) list" where
  "sampleDocuments =
     [(''svg'', (sampleRoot, [])),
      (''svg line'', (sampleRoot, [createElementNS ''line''])),
      (''svg line line'', (sampleRoot, [createElementNS ''line'', createElementNS ''line''])),
      (''svg line line line'',
         (sampleRoot,
          [createElementNS ''line'', createElementNS ''line'', createElementNS ''line'']))]"

definition sampleParseDocument :: "string \<Rightarrow> element \<times> element list" where
  "sampleParseDocument s =
     (case map_of sampleDocuments s of
        None \<Rightarrow> (createElementNS ''parsererror'', [])
      | Some tree \<Rightarrow> tree)"

definition documentPlatform :: platform where
  "documentPlatform = samplePlatform\<lparr>parseFromString := sampleParseDocument\<rparr>"

text \<open>On this platform: a drawing of three lines just mounted, and the editor after two
  committed edits, each the deletion of a line selected by a click.\<close>

definition sampleThreeLines :: editor where
  "sampleThreeLines =
     initialize documentPlatform (Some ''svg line line line'') (initialEditor ''#000000'')"

definition sampleTwoEdits :: editor where
  "sampleTwoEdits =
     run documentPlatform
       [SvgContentChanged (Some ''svg line line line''),
        MouseDownCanvas (clickAt 0 (3, 3) False), MouseUp, Delete,
        MouseDownCanvas (clickAt 1 (3, 3) False), MouseUp, Delete]
       (initialEditor ''#000000'')"

text \<open>The editor after a drawing of one line has been mounted, the tool \<open>t\<close> chosen,
  and the pointer pressed at one point, moved to another without Shift and released.\<close>

definition drawGesture :: "ToolType \<Rightarrow> point \<Rightarrow> point \<Rightarrow> editor" where
  "drawGesture t pressed released =
     run samplePlatform
       [SvgContentChanged (Some ''svg line''), SetTool t,
        MouseDownCanvas (clickAt 0 pressed False), MouseMove (clickAt 0 released False),
        MouseUp]
       (initialEditor ''#000000'')"


section \<open>Notions used to state the properties\<close>

text \<open>The platform converts the number \<open>v\<close> to a text and back without loss; the text
  is not empty, as no number's is.\<close>

definition roundTrips :: "platform \<Rightarrow> real \<Rightarrow> bool" where
  "roundTrips P v = (String P v \<noteq> [] \<and> parseFloat P (String P v) = v)"

text \<open>The attributes that hold the applied transform of a shape; every other attribute,
  and the tag, the style and the text, is left to the shape itself.\<close>

definition transformAttributes :: "string list" where
  "transformAttributes =
     [''data-tx'', ''data-ty'', ''data-rotation'', ''data-cx'', ''data-cy'', ''transform'']"

definition sameShape :: "element \<Rightarrow> element \<Rightarrow> bool" where
  "sameShape el el' =
     (tagName el' = tagName el \<and> style el' = style el \<and> textContent el' = textContent el
      \<and> (\<forall>name. name \<notin> set transformAttributes \<longrightarrow>
             getAttribute el' name = getAttribute el name))"

text \<open>The history has a current snapshot, or it is empty with the index at \<open>-1\<close>.\<close>

definition historyInRange :: "editor \<Rightarrow> bool" where
  "historyInRange st =
     (- 1 \<le> historyIndex st \<and> historyIndex st < int (length (history st)))"

text \<open>The tree in the canvas is the one restored from the current snapshot.\<close>

definition synced :: "platform \<Rightarrow> editor \<Rightarrow> bool" where
  "synced P st =
     (getCurrentSVGString P st
        = Some (serializeToString P (restoredTree P (historyAt st (historyIndex st)))))"


text \<open>What a run of undos or redos keeps: the history, and that the tree is either
  untouched or the one restored from the current snapshot.\<close>

definition settled :: "platform \<Rightarrow> editor \<Rightarrow> editor \<Rightarrow> bool" where
  "settled P st s = (history s = history st \<and> (s = st \<or> synced P s))"


text \<open>The control points derived from the selection, and what a step does to the control
  points: it leaves them and the selection alone, or it sets them to the derived ones.\<close>

definition derivedControlPoints :: "platform \<Rightarrow> editor \<Rightarrow> ControlPoint list" where
  "derivedControlPoints P st =
     (if length (selectedElements st) = 1
      then controlPointsOf P st (selectedElements st ! 0) else [])"

definition controlPointsFollow :: "platform \<Rightarrow> editor \<Rightarrow> editor \<Rightarrow> bool" where
  "controlPointsFollow P st st' =
     ((selectedElements st' = selectedElements st \<and> controlPoints st' = controlPoints st)
      \<or> controlPoints st' = derivedControlPoints P st')"


text \<open>
  The tree in the canvas, as its root and the elements inside it; the root alone; and
  a root that carries the two style properties that the component sets on every root
  before it mounts it.
\<close>

definition mountedTree :: "editor \<Rightarrow> (element \<times> element list) option" where
  "mountedTree st =
     (case svg st of
        None \<Rightarrow> None
      | Some (svgEl, children) \<Rightarrow> Some (svgEl, elementsOf st children))"

definition mountedRoot :: "editor \<Rightarrow> element option" where
  "mountedRoot st = map_option fst (svg st)"

definition shown :: "element \<Rightarrow> bool" where
  "shown el =
     (style el ''display'' = Some ''block'' \<and> style el ''overflow'' = Some ''visible'')"

definition rootShown :: "editor \<Rightarrow> bool" where
  "rootShown st = (case svg st of None \<Rightarrow> True | Some (svgEl, children) \<Rightarrow> shown svgEl)"

text \<open>The platform's parser gives back the tree \<open>tree\<close> from the text that the
  platform's serializer writes for it. This concerns \<^verbatim>\<open>XMLSerializer\<close> and \<^verbatim>\<open>DOMParser\<close>
  alone.\<close>

definition parsesBack :: "platform \<Rightarrow> element \<times> element list \<Rightarrow> bool" where
  "parsesBack P tree = (parseFromString P (serializeToString P tree) = tree)"


section \<open>Properties of the generation service\<close>

lemma indexOf_range: "indexOf s p = - 1 \<or> (0 \<le> indexOf s p \<and> indexOf s p \<le> int (length s))"
  by (induction s) (auto simp: Let_def)

lemma indexOf_found:
  "indexOf s p \<noteq> - 1 \<Longrightarrow> firstAt s p (nat (indexOf s p))"
proof (induction s)
  case Nil
  then show ?case by (auto simp: firstAt_def occursAt_def startsWith_def split: if_splits)
next
  case (Cons c cs)
  show ?case
  proof (cases "startsWith (c # cs) p")
    case True
    then show ?thesis by (simp add: firstAt_def occursAt_def)
  next
    case False
    with Cons.prems have ne: "indexOf cs p \<noteq> - 1" by (auto simp: Let_def split: if_splits)
    from indexOf_range[of cs p] ne have nonneg: "0 \<le> indexOf cs p" by auto
    from False ne have eq: "nat (indexOf (c # cs) p) = Suc (nat (indexOf cs p))"
      using nonneg by (simp add: Let_def nat_add_distrib)
    from Cons.IH[OF ne] have fa: "firstAt cs p (nat (indexOf cs p))" .
    show ?thesis unfolding eq firstAt_def occursAt_def
    proof (intro conjI allI impI)
      show "startsWith (drop (Suc (nat (indexOf cs p))) (c # cs)) p"
        using fa by (simp add: firstAt_def occursAt_def)
    next
      fix j assume "j < Suc (nat (indexOf cs p))"
      then show "\<not> startsWith (drop j (c # cs)) p"
        using fa False by (cases j) (auto simp: firstAt_def occursAt_def)
    qed
  qed
qed

lemma indexOf_absent:
  "indexOf s p = - 1 \<Longrightarrow> \<not> occursAt s p i"
proof (induction s arbitrary: i)
  case Nil
  then show ?case by (auto simp: occursAt_def startsWith_def split: if_splits)
next
  case (Cons c cs)
  from Cons.prems have nf: "\<not> startsWith (c # cs) p" and r: "indexOf cs p = - 1"
    using indexOf_range[of cs p] by (auto simp: Let_def split: if_splits)
  show ?case
  proof (cases i)
    case 0
    then show ?thesis using nf by (simp add: occursAt_def)
  next
    case (Suc k)
    then show ?thesis using Cons.IH[OF r, of k] by (simp add: occursAt_def)
  qed
qed

lemma firstAt_unique: "firstAt s p i \<Longrightarrow> firstAt s p j \<Longrightarrow> i = j"
  unfolding firstAt_def by (metis linorder_neqE_nat)

lemma firstAt_indexOf: "firstAt s p i \<Longrightarrow> indexOf s p = int i"
proof -
  assume f: "firstAt s p i"
  then have "indexOf s p \<noteq> - 1" using indexOf_absent[of s p i] by (auto simp: firstAt_def)
  then have g: "firstAt s p (nat (indexOf s p))" and "0 \<le> indexOf s p"
    using indexOf_found indexOf_range[of s p] by auto
  with firstAt_unique[OF f g(1)] show ?thesis by simp
qed

lemma occursAt_length: "occursAt s p i \<Longrightarrow> p \<noteq> [] \<Longrightarrow> i + length p \<le> length s"
proof -
  assume "occursAt s p i" and ne: "p \<noteq> []"
  then have "take (length p) (drop i s) = p" by (simp add: occursAt_def startsWith_def)
  then have "length (take (length p) (drop i s)) = length p" by simp
  then have "min (length p) (length s - i) = length p" by simp
  moreover from ne have "0 < length p" by simp
  ultimately show ?thesis by arith
qed

lemma substring_span:
  assumes "i \<le> j" and "j + n \<le> length s"
  shows "substring s (int i) (int j + int n) = take (j + n - i) (drop i s)"
  using assms by (simp add: substring_def clampIndex_def Let_def min_def max_def nat_add_distrib)


lemma msgs_nonempty: "msgNoApiKey \<noteq> []" "msgNoResponse \<noteq> []" "msgInvalidSvg \<noteq> []" "msgDefault \<noteq> []"
  by (simp_all add: msgNoApiKey_def msgNoResponse_def msgInvalidSvg_def msgDefault_def)

lemma rethrow_own: "m \<noteq> [] \<Longrightarrow> rethrow (Some m) = Inl m"
  by (simp add: rethrow_def orDefault_def)

lemma extract_span:
  assumes notboth: "\<not> (startsWith t ''<svg'' \<and> endsWith t ''</svg>'')"
    and i: "firstAt t ''<svg'' i" and j: "firstAt t ''</svg>'' j" and ij: "i \<le> j"
    and raw: "raw \<noteq> []" and t: "t = cleanText raw"
  shows "extractSvg (Some raw) = Inr (take (j + 6 - i) (drop i t))"
proof -
  have a: "indexOf t ''<svg'' = int i" using i by (rule firstAt_indexOf)
  have b: "indexOf t ''</svg>'' = int j" using j by (rule firstAt_indexOf)
  have "j + length ''</svg>'' \<le> length t"
    using j occursAt_length[of t "''</svg>''" j] by (simp add: firstAt_def)
  then have len: "j + 6 \<le> length t" by simp
  have "substring t (int i) (int j + int 6) = take (j + 6 - i) (drop i t)"
    using ij len by (rule substring_span)
  then have sub: "substring t (int i) (int j + 6) = take (j + 6 - i) (drop i t)" by simp
  show ?thesis
    using notboth[unfolded t] raw a[unfolded t] b[unfolded t] sub[unfolded t]
    by (auto simp: extractSvg_def Let_def t)
qed

lemma endsWith_occursAt: "endsWith t p \<Longrightarrow> occursAt t p (length t - length p)"
  by (simp add: endsWith_def occursAt_def startsWith_def)

lemma startsWith_occursAt: "startsWith t p \<Longrightarrow> occursAt t p 0"
  by (simp add: occursAt_def)

lemma extract_absent:
  assumes "(\<forall>i. \<not> occursAt t ''<svg'' i) \<or> (\<forall>j. \<not> occursAt t ''</svg>'' j)"
    and raw: "raw \<noteq> []" and t: "t = cleanText raw"
  shows "extractSvg (Some raw) = Inl msgInvalidSvg"
proof -
  have "indexOf t ''<svg'' = - 1 \<or> indexOf t ''</svg>'' = - 1"
    using assms(1) indexOf_found[of t "''<svg''"] indexOf_found[of t "''</svg>''"]
    by (auto simp: firstAt_def)
  moreover have "\<not> (startsWith t ''<svg'' \<and> endsWith t ''</svg>'')"
    using assms(1) endsWith_occursAt[of t "''</svg>''"] startsWith_occursAt[of t "''<svg''"]
    by blast
  ultimately show ?thesis
    using raw rethrow_own[OF msgs_nonempty(3)] unfolding t
    by (auto simp: extractSvg_def Let_def)
qed


text \<open>
  Claim C7, as the code has it. Without a credential the operation fails with the message
  asking for one; with a credential and an empty or missing response text it fails with
  the message that no response came. Otherwise the text is freed of its code fences and
  trimmed. When the cleaned text starts with the opening tag and ends with the closing
  tag it is returned as it is. When it does not, and the first opening tag stands
  before the first closing tag, the result is exactly the part of the text from the
  first opening tag to the end of the first closing tag; when the opening tag or the
  closing tag does not occur at all, the operation fails with the message that the
  markup is not valid. Every message is a non-empty text.
\<close>

theorem generateGeometrySvg_extracts:
  fixes userApiKey envApiKey :: "string option" and raw :: string
  defines "t \<equiv> cleanText raw"
  shows
  "(\<not> truthy (orElse userApiKey envApiKey) \<longrightarrow>
      generateGeometrySvg userApiKey envApiKey response = Inl msgNoApiKey \<and> msgNoApiKey \<noteq> [])
   \<and> (truthy (orElse userApiKey envApiKey) \<longrightarrow>
      generateGeometrySvg userApiKey envApiKey (Resolved None) = Inl msgNoResponse
      \<and> generateGeometrySvg userApiKey envApiKey (Resolved (Some [])) = Inl msgNoResponse
      \<and> msgNoResponse \<noteq> []
      \<and> (raw \<noteq> [] \<longrightarrow>
          (startsWith t ''<svg'' \<and> endsWith t ''</svg>'' \<longrightarrow>
             generateGeometrySvg userApiKey envApiKey (Resolved (Some raw)) = Inr t)
        \<and> (\<not> (startsWith t ''<svg'' \<and> endsWith t ''</svg>'') \<longrightarrow>
            (\<forall>i j. firstAt t ''<svg'' i \<and> firstAt t ''</svg>'' j \<and> i \<le> j \<longrightarrow>
               generateGeometrySvg userApiKey envApiKey (Resolved (Some raw))
                 = Inr (take (j + 6 - i) (drop i t))))
        \<and> ((\<forall>i. \<not> occursAt t ''<svg'' i) \<or> (\<forall>j. \<not> occursAt t ''</svg>'' j) \<longrightarrow>
             generateGeometrySvg userApiKey envApiKey (Resolved (Some raw)) = Inl msgInvalidSvg
             \<and> msgInvalidSvg \<noteq> [])))"
proof (intro conjI impI allI)
  assume "\<not> truthy (orElse userApiKey envApiKey)"
  then show "generateGeometrySvg userApiKey envApiKey response = Inl msgNoApiKey"
    by (simp add: generateGeometrySvg_def)
next
  show "msgNoApiKey \<noteq> []" by (rule msgs_nonempty)
next
  assume "truthy (orElse userApiKey envApiKey)"
  then show "generateGeometrySvg userApiKey envApiKey (Resolved None) = Inl msgNoResponse"
    using rethrow_own[OF msgs_nonempty(2)] by (simp add: generateGeometrySvg_def extractSvg_def)
next
  assume "truthy (orElse userApiKey envApiKey)"
  then show "generateGeometrySvg userApiKey envApiKey (Resolved (Some [])) = Inl msgNoResponse"
    using rethrow_own[OF msgs_nonempty(2)] by (simp add: generateGeometrySvg_def extractSvg_def)
next
  show "msgNoResponse \<noteq> []" by (rule msgs_nonempty)
next
  assume "truthy (orElse userApiKey envApiKey)" "raw \<noteq> []" "startsWith t ''<svg'' \<and> endsWith t ''</svg>''"
  then show "generateGeometrySvg userApiKey envApiKey (Resolved (Some raw)) = Inr t"
    by (simp add: generateGeometrySvg_def extractSvg_def t_def Let_def)
next
  fix i j
  assume k: "truthy (orElse userApiKey envApiKey)" and "raw \<noteq> []"
    and "\<not> (startsWith t ''<svg'' \<and> endsWith t ''</svg>'')"
    and "firstAt t ''<svg'' i \<and> firstAt t ''</svg>'' j \<and> i \<le> j"
  then have "extractSvg (Some raw) = Inr (take (j + 6 - i) (drop i t))"
    using extract_span[of t i j raw] by (simp add: t_def)
  with k show "generateGeometrySvg userApiKey envApiKey (Resolved (Some raw))
                 = Inr (take (j + 6 - i) (drop i t))"
    by (simp add: generateGeometrySvg_def)
next
  assume k: "truthy (orElse userApiKey envApiKey)" and "raw \<noteq> []"
    and "(\<forall>i. \<not> occursAt t ''<svg'' i) \<or> (\<forall>j. \<not> occursAt t ''</svg>'' j)"
  then have "extractSvg (Some raw) = Inl msgInvalidSvg"
    using extract_absent[of t raw] by (simp add: t_def)
  with k show "generateGeometrySvg userApiKey envApiKey (Resolved (Some raw)) = Inl msgInvalidSvg"
    by (simp add: generateGeometrySvg_def)
next
  show "msgInvalidSvg \<noteq> []" by (rule msgs_nonempty)
qed


theorem generateGeometrySvg_extracts_witness:
  "generateGeometrySvg None (Some []) (Resolved (Some ''<svg></svg>'')) = Inl msgNoApiKey
   \<and> generateGeometrySvg (Some ''k'') None (Resolved (Some [])) = Inl msgNoResponse
   \<and> generateGeometrySvg None (Some ''k'') (Resolved (Some ''```svg <svg>a</svg> ```'')) = Inr ''<svg>a</svg>''
   \<and> generateGeometrySvg (Some ''k'') None (Resolved (Some ''x<svg>a</svg>b</svg>y'')) = Inr ''<svg>a</svg>''
   \<and> generateGeometrySvg (Some ''k'') None (Resolved (Some ''a circle'')) = Inl msgInvalidSvg"
proof -
  let ?r = "''x<svg>a</svg>b</svg>y''"
  have nokey: "\<not> truthy (orElse None (Some []))" by (simp add: truthy_def orElse_def)
  have key1: "truthy (orElse (Some ''k'') None)" by (simp add: truthy_def orElse_def)
  have key2: "truthy (orElse None (Some ''k''))" by (simp add: truthy_def orElse_def)
  have c1: "cleanText ''```svg <svg>a</svg> ```'' = ''<svg>a</svg>''"
    by (simp add: cleanText_def replace_g_def trim_def isWhiteSpace_def startsWith_def)
  have c2: "cleanText ?r = ?r"
    by (simp add: cleanText_def replace_g_def trim_def isWhiteSpace_def startsWith_def)
  have c3: "cleanText ''a circle'' = ''a circle''"
    by (simp add: cleanText_def replace_g_def trim_def isWhiteSpace_def startsWith_def)
  have both: "startsWith ''<svg>a</svg>'' ''<svg'' \<and> endsWith ''<svg>a</svg>'' ''</svg>''"
    by (simp add: startsWith_def endsWith_def)
  have notboth: "\<not> (startsWith ?r ''<svg'' \<and> endsWith ?r ''</svg>'')"
    by (simp add: startsWith_def)
  have i: "firstAt ?r ''<svg'' 1"
    using indexOf_found[of ?r "''<svg''"] by (simp add: startsWith_def)
  have j: "firstAt ?r ''</svg>'' 7"
    using indexOf_found[of ?r "''</svg>''"] by (simp add: startsWith_def)
  have absent: "\<forall>i. \<not> occursAt ''a circle'' ''<svg'' i"
    using indexOf_absent[of "''a circle''" "''<svg''"] by (simp add: startsWith_def)
  have a: "generateGeometrySvg None (Some []) (Resolved (Some ''<svg></svg>'')) = Inl msgNoApiKey"
    using generateGeometrySvg_extracts[of None "Some []" "Resolved (Some ''<svg></svg>'')" "[]"] nokey
    by simp
  have b: "generateGeometrySvg (Some ''k'') None (Resolved (Some [])) = Inl msgNoResponse"
    using generateGeometrySvg_extracts[of "Some ''k''" None "Resolved None" "[]"] key1 by simp
  have c: "generateGeometrySvg None (Some ''k'') (Resolved (Some ''```svg <svg>a</svg> ```'')) = Inr ''<svg>a</svg>''"
    using generateGeometrySvg_extracts[of None "Some ''k''" "Resolved None" "''```svg <svg>a</svg> ```''"]
      key2 both unfolding c1 by simp
  have d: "generateGeometrySvg (Some ''k'') None (Resolved (Some ?r)) = Inr ''<svg>a</svg>''"
    using generateGeometrySvg_extracts[of "Some ''k''" None "Resolved None" ?r]
      key1 notboth i j unfolding c2 by fastforce
  have e: "generateGeometrySvg (Some ''k'') None (Resolved (Some ''a circle'')) = Inl msgInvalidSvg"
    using generateGeometrySvg_extracts[of "Some ''k''" None "Resolved None" "''a circle''"]
      key1 absent unfolding c3 by simp
  from a b c d e show ?thesis by blast
qed

text \<open>
  Claim C7 as stated asks for the text up to the last closing tag. The code stops at the
  first one: on a response with two closing tags the two differ.
\<close>

theorem generateGeometrySvg_last_closing_counterexample:
  "generateGeometrySvg (Some ''k'') None (Resolved (Some ''x<svg>a</svg>b</svg>y''))
     = Inr ''<svg>a</svg>''
   \<and> specExtract (cleanText ''x<svg>a</svg>b</svg>y'') = ''<svg>a</svg>b</svg>''
   \<and> generateGeometrySvg (Some ''k'') None (Resolved (Some ''x<svg>a</svg>b</svg>y''))
     \<noteq> Inr (specExtract (cleanText ''x<svg>a</svg>b</svg>y''))"
  by (simp add: generateGeometrySvg_def extractSvg_def cleanText_def replace_g_def trim_def
      isWhiteSpace_def startsWith_def endsWith_def substring_def clampIndex_def truthy_def
      orElse_def specExtract_def Let_def)


section \<open>Properties of the transform store\<close>

lemma getAttribute_setAttribute:
  "getAttribute (setAttribute el name v) name' = (if name' = name then Some v else getAttribute el name')"
  by (simp add: getAttribute_def setAttribute_def)

lemma setElementTransform_attribute:
  "getAttribute (setElementTransform P el d) name =
     (if name = ''transform'' then Some (transformString P d)
      else if name = ''data-cy'' then Some (String P (cy d))
      else if name = ''data-cx'' then Some (String P (cx d))
      else if name = ''data-rotation'' then Some (String P (rotation d))
      else if name = ''data-ty'' then Some (String P (ty d))
      else if name = ''data-tx'' then Some (String P (tx d))
      else getAttribute el name)"
  by (simp add: setElementTransform_def Let_def getAttribute_setAttribute)

lemma numAttr_roundTrips:
  "getAttribute el name = Some (String P v) \<Longrightarrow> roundTrips P v \<Longrightarrow> numAttr P el name = v"
  by (simp add: numAttr_def orDefault_def roundTrips_def)

lemma numAttr_absent:
  "getAttribute el name = None \<Longrightarrow> numAttr P el name = parseFloat P ''0''"
  by (simp add: numAttr_def orDefault_def)

lemma getElementTransform_written:
  assumes rt: "\<forall>v \<in> set [tx d, ty d, rotation d, cx d, cy d]. roundTrips P v"
  shows "getElementTransform P (setElementTransform P el d) = d"
proof -
  have "numAttr P (setElementTransform P el d) ''data-tx'' = tx d"
    using rt by (intro numAttr_roundTrips) (simp_all add: setElementTransform_attribute)
  moreover have "numAttr P (setElementTransform P el d) ''data-ty'' = ty d"
    using rt by (intro numAttr_roundTrips) (simp_all add: setElementTransform_attribute)
  moreover have "numAttr P (setElementTransform P el d) ''data-rotation'' = rotation d"
    using rt by (intro numAttr_roundTrips) (simp_all add: setElementTransform_attribute)
  moreover have "numAttr P (setElementTransform P el d) ''data-cx'' = cx d"
    using rt by (intro numAttr_roundTrips) (simp_all add: setElementTransform_attribute)
  moreover have "numAttr P (setElementTransform P el d) ''data-cy'' = cy d"
    using rt by (intro numAttr_roundTrips) (simp_all add: setElementTransform_attribute)
  ultimately show ?thesis
    by (simp add: getElementTransform_def)
qed

text \<open>
  Claim C5. Writing a transform stores each of its five fields in its attribute, as the
  text of the number, and sets the rendered transform to the translation followed,
  only when the rotation is not zero, by the rotation about the pivot. Reading an element
  that has none of the five attributes gives the transform with every field zero, on a
  platform that reads the text \<^verbatim>\<open>0\<close> as zero. Reading after writing gives the transform
  written, on a platform that converts its five numbers to text and back without loss.
\<close>

theorem transform_store:
  "getAttribute (setElementTransform P el d) ''data-tx'' = Some (String P (tx d))
   \<and> getAttribute (setElementTransform P el d) ''data-ty'' = Some (String P (ty d))
   \<and> getAttribute (setElementTransform P el d) ''data-rotation'' = Some (String P (rotation d))
   \<and> getAttribute (setElementTransform P el d) ''data-cx'' = Some (String P (cx d))
   \<and> getAttribute (setElementTransform P el d) ''data-cy'' = Some (String P (cy d))
   \<and> getAttribute (setElementTransform P el d) ''transform'' =
       Some (if rotation d \<noteq> 0
             then ''translate('' @ String P (tx d) @ '', '' @ String P (ty d) @ '')''
                  @ '' rotate('' @ String P (rotation d) @ '', '' @ String P (cx d) @ '', ''
                  @ String P (cy d) @ '')''
             else ''translate('' @ String P (tx d) @ '', '' @ String P (ty d) @ '')'')
   \<and> ((\<forall>name \<in> set [''data-tx'', ''data-ty'', ''data-rotation'', ''data-cx'', ''data-cy''].
          getAttribute el name = None) \<and> parseFloat P ''0'' = 0 \<longrightarrow>
        getElementTransform P el = \<lparr>tx = 0, ty = 0, rotation = 0, cx = 0, cy = 0\<rparr>)
   \<and> ((\<forall>v \<in> set [tx d, ty d, rotation d, cx d, cy d]. roundTrips P v) \<longrightarrow>
        getElementTransform P (setElementTransform P el d) = d)"
proof (intro conjI impI)
  show "getAttribute (setElementTransform P el d) ''transform'' =
       Some (if rotation d \<noteq> 0
             then ''translate('' @ String P (tx d) @ '', '' @ String P (ty d) @ '')''
                  @ '' rotate('' @ String P (rotation d) @ '', '' @ String P (cx d) @ '', ''
                  @ String P (cy d) @ '')''
             else ''translate('' @ String P (tx d) @ '', '' @ String P (ty d) @ '')'')"
    by (simp add: setElementTransform_attribute transformString_def Let_def)
next
  assume "(\<forall>name \<in> set [''data-tx'', ''data-ty'', ''data-rotation'', ''data-cx'', ''data-cy''].
          getAttribute el name = None) \<and> parseFloat P ''0'' = 0"
  then show "getElementTransform P el = \<lparr>tx = 0, ty = 0, rotation = 0, cx = 0, cy = 0\<rparr>"
    by (simp add: getElementTransform_def numAttr_absent)
next
  assume "\<forall>v \<in> set [tx d, ty d, rotation d, cx d, cy d]. roundTrips P v"
  then show "getElementTransform P (setElementTransform P el d) = d"
    by (rule getElementTransform_written)
qed (simp_all add: setElementTransform_attribute)

lemmas sample_defs = samplePlatform_def sampleString_def sampleParseFloat_def sampleNumbers_def
  sampleSerialize_def sampleParse_def


theorem transform_store_witness:
  "getElementTransform samplePlatform
     (setElementTransform samplePlatform (createElementNS ''rect'')
        \<lparr>tx = 5, ty = 7, rotation = 90, cx = 10, cy = 20\<rparr>)
     = \<lparr>tx = 5, ty = 7, rotation = 90, cx = 10, cy = 20\<rparr>
   \<and> getAttribute (setElementTransform samplePlatform (createElementNS ''rect'')
        \<lparr>tx = 5, ty = 7, rotation = 90, cx = 10, cy = 20\<rparr>) ''transform''
     = Some ''translate(5, 7) rotate(90, 10, 20)''
   \<and> getAttribute (setElementTransform samplePlatform (createElementNS ''rect'')
        \<lparr>tx = 5, ty = 7, rotation = 0, cx = 10, cy = 20\<rparr>) ''transform''
     = Some ''translate(5, 7)''
   \<and> getElementTransform samplePlatform (createElementNS ''rect'')
     = \<lparr>tx = 0, ty = 0, rotation = 0, cx = 0, cy = 0\<rparr>"
proof -
  let ?d = "\<lparr>tx = 5, ty = 7, rotation = 90, cx = 10, cy = 20\<rparr> :: TransformData"
  let ?z = "\<lparr>tx = 5, ty = 7, rotation = 0, cx = 10, cy = 20\<rparr> :: TransformData"
  have rt: "\<forall>v \<in> set [tx ?d, ty ?d, rotation ?d, cx ?d, cy ?d]. roundTrips samplePlatform v"
    by (simp add: roundTrips_def sample_defs)
  have none: "(\<forall>name \<in> set [''data-tx'', ''data-ty'', ''data-rotation'', ''data-cx'', ''data-cy''].
          getAttribute (createElementNS ''rect'') name = None) \<and> parseFloat samplePlatform ''0'' = 0"
    by (simp add: getAttribute_def createElementNS_def sample_defs)
  note t1 = transform_store[of samplePlatform "createElementNS ''rect''" ?d]
  note t0 = transform_store[of samplePlatform "createElementNS ''rect''" ?z]
  have a: "getElementTransform samplePlatform
             (setElementTransform samplePlatform (createElementNS ''rect'') ?d) = ?d"
    using t1 rt by blast
  have b: "getAttribute (setElementTransform samplePlatform (createElementNS ''rect'') ?d)
             ''transform'' = Some ''translate(5, 7) rotate(90, 10, 20)''"
    using t1 by (simp add: sample_defs)
  have c: "getAttribute (setElementTransform samplePlatform (createElementNS ''rect'') ?z)
             ''transform'' = Some ''translate(5, 7)''"
    using t0 by (simp add: sample_defs)
  have d: "getElementTransform samplePlatform (createElementNS ''rect'')
             = \<lparr>tx = 0, ty = 0, rotation = 0, cx = 0, cy = 0\<rparr>"
    using t1 none by blast
  from a b c d show ?thesis by blast
qed



section \<open>Properties of the shape edits\<close>

lemma numAttr_setAttribute_other:
  "name' \<noteq> name \<Longrightarrow> numAttr P (setAttribute el name v) name' = numAttr P el name'"
  by (simp add: numAttr_def getAttribute_setAttribute)

lemma numAttr_setAttribute_same:
  "roundTrips P v \<Longrightarrow> numAttr P (setAttribute el name (String P v)) name = v"
  by (simp add: numAttr_roundTrips getAttribute_setAttribute)

text \<open>
  Claim C4. An edit of a rectangle whose width and height are positive, by either resize
  handle and to any point, never gives it a width or a height that is not positive.
  The first handle keeps the opposite corner and the second keeps the origin; when the
  width and the height the edit asks for are both positive they are written, and read
  back positive on a platform that converts them without loss; otherwise the edit is
  dropped and the element is left as it was.
\<close>

theorem rect_edit_keeps_extent_positive:
  fixes P :: platform and el :: element and pointIndex :: nat and newX newY :: real
  assumes rect: "toLowerCase (tagName el) = ''rect''"
    and w: "0 < numAttr P el ''width''" and h: "0 < numAttr P el ''height''"
  defines "newW \<equiv> (if pointIndex = 0 then (numAttr P el ''x'' + numAttr P el ''width'') - newX
                     else newX - numAttr P el ''x'')"
    and "newH \<equiv> (if pointIndex = 0 then (numAttr P el ''y'' + numAttr P el ''height'') - newY
                     else newY - numAttr P el ''y'')"
  shows "\<exists>el'. updateElementShape P el pointIndex newX newY = Some el'
           \<and> (if 0 < newW \<and> 0 < newH
               then getAttribute el' ''width'' = Some (String P newW)
                    \<and> getAttribute el' ''height'' = Some (String P newH)
                    \<and> (roundTrips P newW \<and> roundTrips P newH \<longrightarrow>
                          0 < numAttr P el' ''width'' \<and> 0 < numAttr P el' ''height'')
               else el' = el \<and> 0 < numAttr P el' ''width'' \<and> 0 < numAttr P el' ''height'')"
proof (cases "0 < newW \<and> 0 < newH")
  case True
  show ?thesis
  proof (cases "pointIndex = 0")
    case z: True
    let ?el' = "setAttribute (setAttribute (setAttribute (setAttribute el
                  ''x'' (String P newX)) ''y'' (String P newY))
                  ''width'' (String P newW)) ''height'' (String P newH)"
    have u: "updateElementShape P el pointIndex newX newY = Some ?el'"
      using rect True z by (simp add: updateElementShape_def Let_def newW_def newH_def)
    have "getAttribute ?el' ''width'' = Some (String P newW)"
      and "getAttribute ?el' ''height'' = Some (String P newH)"
      by (simp_all add: getAttribute_setAttribute)
    then show ?thesis using u True by (auto simp: numAttr_roundTrips)
  next
    case nz: False
    let ?el' = "setAttribute (setAttribute el ''width'' (String P newW)) ''height'' (String P newH)"
    have u: "updateElementShape P el pointIndex newX newY = Some ?el'"
      using rect True nz by (simp add: updateElementShape_def Let_def newW_def newH_def)
    have "getAttribute ?el' ''width'' = Some (String P newW)"
      and "getAttribute ?el' ''height'' = Some (String P newH)"
      by (simp_all add: getAttribute_setAttribute)
    then show ?thesis using u True by (auto simp: numAttr_roundTrips)
  qed
next
  case False
  then have "updateElementShape P el pointIndex newX newY = Some el"
    using rect by (auto simp: updateElementShape_def Let_def newW_def newH_def)
  then show ?thesis using False w h by auto
qed


theorem rect_edit_keeps_extent_positive_witness:
  "updateElementShape samplePlatform
     (setAttribute (setAttribute (setAttribute (setAttribute (createElementNS ''rect'')
        ''x'' ''10'') ''y'' ''10'') ''width'' ''50'') ''height'' ''50'') 0 80 10
     = Some (setAttribute (setAttribute (setAttribute (setAttribute (createElementNS ''rect'')
        ''x'' ''10'') ''y'' ''10'') ''width'' ''50'') ''height'' ''50'')
   \<and> (\<exists>el'. updateElementShape samplePlatform
          (setAttribute (setAttribute (setAttribute (setAttribute (createElementNS ''rect'')
             ''x'' ''10'') ''y'' ''10'') ''width'' ''50'') ''height'' ''50'') 1 30 20 = Some el'
        \<and> getAttribute el' ''width'' = Some ''20'' \<and> getAttribute el' ''height'' = Some ''10''
        \<and> 0 < numAttr samplePlatform el' ''width'' \<and> 0 < numAttr samplePlatform el' ''height'')"
proof -
  let ?r = "setAttribute (setAttribute (setAttribute (setAttribute (createElementNS ''rect'')
        ''x'' ''10'') ''y'' ''10'') ''width'' ''50'') ''height'' ''50''"
  have tag: "toLowerCase (tagName ?r) = ''rect''"
    by (simp add: toLowerCase_def lowerChar_def setAttribute_def createElementNS_def)
  have num: "numAttr samplePlatform ?r ''x'' = 10" "numAttr samplePlatform ?r ''y'' = 10"
    "numAttr samplePlatform ?r ''width'' = 50" "numAttr samplePlatform ?r ''height'' = 50"
    by (simp_all add: numAttr_def getAttribute_setAttribute orDefault_def sample_defs)
  have pos: "0 < numAttr samplePlatform ?r ''width''" "0 < numAttr samplePlatform ?r ''height''"
    by (simp_all add: num)
  have rt: "roundTrips samplePlatform 20" "roundTrips samplePlatform 10"
    by (simp_all add: roundTrips_def sample_defs)
  have str: "String samplePlatform 20 = ''20''" "String samplePlatform 10 = ''10''"
    by (simp_all add: sample_defs)
  have a: "updateElementShape samplePlatform ?r 0 80 10 = Some ?r"
    using rect_edit_keeps_extent_positive[OF tag pos, of 0 80 10] by (simp add: num)
  have b: "\<exists>el'. updateElementShape samplePlatform ?r 1 30 20 = Some el'
        \<and> getAttribute el' ''width'' = Some ''20'' \<and> getAttribute el' ''height'' = Some ''10''
        \<and> 0 < numAttr samplePlatform el' ''width'' \<and> 0 < numAttr samplePlatform el' ''height''"
    using rect_edit_keeps_extent_positive[OF tag pos, of 1 30 20] rt by (simp add: num str)
  from a b show ?thesis by blast
qed



section \<open>Properties of the history\<close>

lemma map_filter_Some:
  "length xs = length ys \<Longrightarrow> \<forall>i<length xs. h (xs ! i) = Some (ys ! i) \<Longrightarrow>
   List.map_filter h xs = ys"
proof (induction xs ys rule: list_induct2)
  case Nil
  then show ?case by (simp add: List.map_filter_simps)
next
  case (Cons x xs y ys)
  from Cons.prems have "h x = Some y" by (auto dest: spec[of _ 0])
  moreover from Cons.prems have "\<forall>i<length xs. h (xs ! i) = Some (ys ! i)" by auto
  ultimately show ?case using Cons.IH by (simp add: List.map_filter_simps)
qed

lemma elementsOf_allocate:
  assumes "allocate els st = (refs, st1)" and "heap st2 = heap st1"
  shows "elementsOf st2 refs = els"
proof -
  let ?n = "nextRef st"
  from assms(1) have refs: "refs = [?n ..< ?n + length els]"
    and hp: "heap st1 = heap st ++ map_of (zip refs els)"
    by (auto simp: allocate_def Let_def)
  have len: "length refs = length els" by (simp add: refs)
  have dist: "distinct refs" by (simp add: refs)
  have "\<forall>i<length refs. heap st2 (refs ! i) = Some (els ! i)"
  proof (intro allI impI)
    fix i assume "i < length refs"
    then have "map_of (zip refs els) (refs ! i) = Some (els ! i)"
      using len dist by (simp add: map_of_zip_nth)
    then show "heap st2 (refs ! i) = Some (els ! i)"
      by (simp add: assms(2) hp map_add_def)
  qed
  with len show ?thesis unfolding elementsOf_def by (rule map_filter_Some)
qed

lemma restoreState_current:
  "getCurrentSVGString P (restoreState P content st)
     = Some (serializeToString P (restoredTree P content))"
proof -
  obtain newSvg els where t: "restoredTree P content = (newSvg, els)" by (cases "restoredTree P content")
  obtain refs st1 where a: "allocate els st = (refs, st1)" by (cases "allocate els st")
  let ?st2 = "st1\<lparr>svg := Some (newSvg, refs), selectedElements := [],
                    controlPoints := [], selectionBBox := None\<rparr>"
  have r: "restoreState P content st = ?st2" by (simp add: restoreState_def t a)
  have "elementsOf ?st2 refs = els" using a by (rule elementsOf_allocate) simp
  then show ?thesis by (simp add: r getCurrentSVGString_def t)
qed

lemma restoreState_history:
  "history (restoreState P content st) = history st"
  "historyIndex (restoreState P content st) = historyIndex st"
  by (auto simp: restoreState_def allocate_def Let_def split: prod.splits)

lemma restoreState_selection:
  "selectedElements (restoreState P content st) = []"
  "controlPoints (restoreState P content st) = []"
  by (auto simp: restoreState_def allocate_def Let_def split: prod.splits)

lemma historyAt_cong: "history a = history b \<Longrightarrow> historyAt a i = historyAt b i"
  by (simp add: historyAt_def)

lemma handleUndo_cases:
  "(\<not> 0 < historyIndex st \<and> handleUndo P st = st)
   \<or> (0 < historyIndex st \<and> history (handleUndo P st) = history st
       \<and> historyIndex (handleUndo P st) = historyIndex st - 1
       \<and> synced P (handleUndo P st))"
proof (cases "0 < historyIndex st")
  case False
  then show ?thesis by (simp add: handleUndo_def)
next
  case True
  let ?s = "st\<lparr>historyIndex := historyIndex st - 1\<rparr>"
  have u: "handleUndo P st = restoreState P (historyAt st (historyIndex st - 1)) ?s"
    using True by (simp add: handleUndo_def Let_def)
  have h: "history (handleUndo P st) = history st"
    and i: "historyIndex (handleUndo P st) = historyIndex st - 1"
    by (simp_all add: u restoreState_history)
  have "historyAt (handleUndo P st) (historyIndex st - 1) = historyAt st (historyIndex st - 1)"
    using h by (rule historyAt_cong)
  then have "synced P (handleUndo P st)"
    unfolding synced_def i by (simp add: u restoreState_current)
  with True h i show ?thesis by simp
qed

lemma handleRedo_cases:
  "(\<not> historyIndex st < int (length (history st)) - 1 \<and> handleRedo P st = st)
   \<or> (historyIndex st < int (length (history st)) - 1 \<and> history (handleRedo P st) = history st
       \<and> historyIndex (handleRedo P st) = historyIndex st + 1
       \<and> synced P (handleRedo P st))"
proof (cases "historyIndex st < int (length (history st)) - 1")
  case False
  then show ?thesis by (simp add: handleRedo_def)
next
  case True
  let ?s = "st\<lparr>historyIndex := historyIndex st + 1\<rparr>"
  have u: "handleRedo P st = restoreState P (historyAt st (historyIndex st + 1)) ?s"
    using True by (simp add: handleRedo_def Let_def)
  have h: "history (handleRedo P st) = history st"
    and i: "historyIndex (handleRedo P st) = historyIndex st + 1"
    by (simp_all add: u restoreState_history)
  have "historyAt (handleRedo P st) (historyIndex st + 1) = historyAt st (historyIndex st + 1)"
    using h by (rule historyAt_cong)
  then have "synced P (handleRedo P st)"
    unfolding synced_def i by (simp add: u restoreState_current)
  with True h i show ?thesis by simp
qed

lemma repeatedly_Suc: "repeatedly (Suc n) f st = f (repeatedly n f st)"
  by (simp add: repeatedly_def)

lemma repeatedly_0: "repeatedly 0 f st = st"
  by (simp add: repeatedly_def)

lemma undo_times:
  assumes "0 \<le> historyIndex st"
  shows "settled P st (repeatedly n (handleUndo P) st)
       \<and> historyIndex (repeatedly n (handleUndo P) st) = max 0 (historyIndex st - int n)"
proof (induction n)
  case 0
  then show ?case using assms by (simp add: repeatedly_0 settled_def)
next
  case (Suc n)
  let ?s = "repeatedly n (handleUndo P) st"
  from Suc have s: "settled P st ?s" and i: "historyIndex ?s = max 0 (historyIndex st - int n)"
    by auto
  from handleUndo_cases[of ?s P] show ?case
  proof (elim disjE conjE)
    assume "\<not> 0 < historyIndex ?s" "handleUndo P ?s = ?s"
    then show ?thesis using s i by (auto simp: repeatedly_Suc)
  next
    assume "0 < historyIndex ?s" "history (handleUndo P ?s) = history ?s"
      "historyIndex (handleUndo P ?s) = historyIndex ?s - 1" "synced P (handleUndo P ?s)"
    then show ?thesis using s i by (auto simp: repeatedly_Suc settled_def)
  qed
qed

lemma redo_times:
  assumes "settled P st s" and "historyIndex s < int (length (history s))"
  shows "settled P st (repeatedly n (handleRedo P) s)
       \<and> historyIndex (repeatedly n (handleRedo P) s)
           = min (int (length (history s)) - 1) (historyIndex s + int n)"
proof (induction n)
  case 0
  then show ?case using assms by (simp add: repeatedly_0)
next
  case (Suc n)
  let ?s = "repeatedly n (handleRedo P) s"
  from Suc have t: "settled P st ?s"
    and i: "historyIndex ?s = min (int (length (history s)) - 1) (historyIndex s + int n)"
    by auto
  have hh: "history ?s = history s" using t assms(1) by (simp add: settled_def)
  from handleRedo_cases[of ?s P] show ?case
  proof (elim disjE conjE)
    assume "\<not> historyIndex ?s < int (length (history ?s)) - 1" "handleRedo P ?s = ?s"
    then show ?thesis using t i hh by (auto simp: repeatedly_Suc)
  next
    assume "historyIndex ?s < int (length (history ?s)) - 1"
      "history (handleRedo P ?s) = history ?s"
      "historyIndex (handleRedo P ?s) = historyIndex ?s + 1" "synced P (handleRedo P ?s)"
    then show ?thesis using t i hh by (auto simp: repeatedly_Suc settled_def)
  qed
qed


lemma undo_times_range:
  "historyInRange st \<Longrightarrow> historyInRange (repeatedly n (handleUndo P) st)"
proof (induction n)
  case 0
  then show ?case by (simp add: repeatedly_0)
next
  case (Suc n)
  then have "historyInRange (repeatedly n (handleUndo P) st)" by simp
  then show ?case using handleUndo_cases[of "repeatedly n (handleUndo P) st" P]
    by (auto simp: repeatedly_Suc historyInRange_def)
qed

lemma addToHistory_commit:
  assumes "getCurrentSVGString P st = Some content" and "content \<noteq> []"
  shows "addToHistory P hi st
           = st\<lparr>history := slice0 (history st) (hi + 1) @ [content],
                historyIndex := historyIndex st + 1\<rparr>"
  using assms by (simp add: addToHistory_def)

lemma addToHistory_current:
  "getCurrentSVGString P (addToHistory P hi st) = getCurrentSVGString P st"
  by (auto simp: addToHistory_def getCurrentSVGString_def elementsOf_def split: option.splits)

lemma commit_at_end:
  assumes rng: "historyInRange st"
    and cur: "getCurrentSVGString P st = Some content" and ne: "content \<noteq> []"
  shows "history (addToHistory P (historyIndex st) st)
           = take (nat (historyIndex st + 1)) (history st) @ [content]"
    and "historyIndex (addToHistory P (historyIndex st) st) = historyIndex st + 1"
    and "historyIndex (addToHistory P (historyIndex st) st)
           = int (length (history (addToHistory P (historyIndex st) st))) - 1"
    and "handleRedo P (addToHistory P (historyIndex st) st) = addToHistory P (historyIndex st) st"
proof -
  let ?c = "addToHistory P (historyIndex st) st"
  show h: "history ?c = take (nat (historyIndex st + 1)) (history st) @ [content]"
    using rng by (simp add: addToHistory_commit[OF cur ne] slice0_def historyInRange_def)
  show i: "historyIndex ?c = historyIndex st + 1"
    by (simp add: addToHistory_commit[OF cur ne])
  show l: "historyIndex ?c = int (length (history ?c)) - 1"
    using rng unfolding h i by (auto simp: historyInRange_def min_def)
  show "handleRedo P ?c = ?c" using l by (simp add: handleRedo_def)
qed

text \<open>
  Claim C1. In a state whose history is in range, committing an edit (the tree serializes
  to a non-empty text) keeps the snapshots up to the current index, drops the ones after
  it, appends the new text and moves the index to it, the last position; a redo then
  changes nothing. Hence after one or more undos and any edit that is then committed,
  redo changes nothing.
\<close>

theorem commit_discards_redo_branch:
  assumes rng: "historyInRange st"
    and cur: "getCurrentSVGString P st = Some content" and ne: "content \<noteq> []"
  shows "history (addToHistory P (historyIndex st) st)
           = take (nat (historyIndex st + 1)) (history st) @ [content]
       \<and> historyIndex (addToHistory P (historyIndex st) st) = historyIndex st + 1
       \<and> historyIndex (addToHistory P (historyIndex st) st)
           = int (length (history (addToHistory P (historyIndex st) st))) - 1
       \<and> handleRedo P (addToHistory P (historyIndex st) st) = addToHistory P (historyIndex st) st
       \<and> (\<forall>K edited content'.
             1 \<le> K
             \<and> history edited = history (repeatedly K (handleUndo P) st)
             \<and> historyIndex edited = historyIndex (repeatedly K (handleUndo P) st)
             \<and> getCurrentSVGString P edited = Some content' \<and> content' \<noteq> [] \<longrightarrow>
             handleRedo P (addToHistory P (historyIndex edited) edited)
               = addToHistory P (historyIndex edited) edited)"
proof (intro conjI allI impI)
  fix K edited content'
  assume a: "1 \<le> K
             \<and> history edited = history (repeatedly K (handleUndo P) st)
             \<and> historyIndex edited = historyIndex (repeatedly K (handleUndo P) st)
             \<and> getCurrentSVGString P edited = Some content' \<and> content' \<noteq> []"
  have "historyInRange (repeatedly K (handleUndo P) st)" using rng by (rule undo_times_range)
  with a have "historyInRange edited" by (simp add: historyInRange_def)
  with a show "handleRedo P (addToHistory P (historyIndex edited) edited)
               = addToHistory P (historyIndex edited) edited"
    by (intro commit_at_end(4)) auto
qed (rule commit_at_end[OF rng cur ne])+

lemmas string_defs = splitWs_def splitWsComma_def isWhiteSpace_def trim_def joinWith_def
  toLowerCase_def lowerChar_def

lemma sampleLoaded_fields:
  "history sampleLoaded = [''svg line'']" "historyIndex sampleLoaded = 0"
  "heap sampleLoaded 0 = Some (createElementNS ''line'')" "nextRef sampleLoaded = 1"
  "\<exists>svgEl. svg sampleLoaded = Some (svgEl, [0]) \<and> tagName svgEl = ''svg''"
  "selectedElements sampleLoaded = []" "controlPoints sampleLoaded = []"
  by (simp_all add: sampleLoaded_def initialize_def initialEditor_def sample_defs string_defs
      allocate_def withViewBox_def setAttribute_def setStyle_def getAttribute_def
      createElementNS_def Let_def orDefault_def)

lemma sampleEdited_fields:
  "history sampleEdited = [''svg line'']" "historyIndex sampleEdited = 0"
  "getCurrentSVGString samplePlatform sampleEdited = Some ''svg''"
  using sampleLoaded_fields
  by (auto simp: sampleEdited_def removeChild_def getCurrentSVGString_def elementsOf_def
      List.map_filter_simps samplePlatform_def sampleSerialize_def joinWith_def)

lemma sample_roundtrip:
  "serializeToString samplePlatform (restoredTree samplePlatform ''svg'') = ''svg''"
  "serializeToString samplePlatform (restoredTree samplePlatform ''svg line'') = ''svg line''"
  by (simp_all add: restoredTree_def sample_defs string_defs setStyle_def createElementNS_def)

theorem commit_discards_redo_branch_witness:
  "history sampleCommitted = [''svg line'', ''svg'']
   \<and> historyIndex sampleCommitted = 1
   \<and> handleRedo samplePlatform sampleCommitted = sampleCommitted
   \<and> historyIndex (handleUndo samplePlatform sampleCommitted) = 0
   \<and> history (addToHistory samplePlatform 0 (handleUndo samplePlatform sampleCommitted))
       = [''svg line'', ''svg line'']
   \<and> handleRedo samplePlatform
         (addToHistory samplePlatform 0 (handleUndo samplePlatform sampleCommitted))
       = addToHistory samplePlatform 0 (handleUndo samplePlatform sampleCommitted)"
proof -
  have rng: "historyInRange sampleEdited" by (simp add: historyInRange_def sampleEdited_fields)
  have ne: "''svg'' \<noteq> []" by simp
  note t = commit_discards_redo_branch[OF rng sampleEdited_fields(3) ne, folded sampleCommitted_def]
  have h: "history sampleCommitted = [''svg line'', ''svg'']"
    using t by (simp add: sampleEdited_fields)
  have i: "historyIndex sampleCommitted = 1" using t by (simp add: sampleEdited_fields)
  have r: "handleRedo samplePlatform sampleCommitted = sampleCommitted" using t by blast
  let ?u = "handleUndo samplePlatform sampleCommitted"
  have one: "repeatedly (Suc 0) (handleUndo samplePlatform) sampleCommitted = ?u"
    by (simp add: repeatedly_def)
  have rng2: "historyInRange sampleCommitted" by (simp add: historyInRange_def h i)
  have cur2: "getCurrentSVGString samplePlatform sampleCommitted = Some ''svg''"
    by (simp add: sampleCommitted_def addToHistory_current sampleEdited_fields)
  from handleUndo_cases[of sampleCommitted samplePlatform]
  have u: "history ?u = history sampleCommitted" "historyIndex ?u = 0" "synced samplePlatform ?u"
    by (simp_all add: i)
  have "historyAt ?u 0 = ''svg line''" by (simp add: historyAt_def u(1) h)
  then have cur3: "getCurrentSVGString samplePlatform ?u = Some ''svg line''"
    using u(3) by (simp add: synced_def u(2) sample_roundtrip)
  have ne3: "''svg line'' \<noteq> []" by simp
  from commit_discards_redo_branch[OF rng2 cur2 ne]
  have "\<forall>K edited content'.
             1 \<le> K
             \<and> history edited = history (repeatedly K (handleUndo samplePlatform) sampleCommitted)
             \<and> historyIndex edited
                 = historyIndex (repeatedly K (handleUndo samplePlatform) sampleCommitted)
             \<and> getCurrentSVGString samplePlatform edited = Some content' \<and> content' \<noteq> [] \<longrightarrow>
             handleRedo samplePlatform (addToHistory samplePlatform (historyIndex edited) edited)
               = addToHistory samplePlatform (historyIndex edited) edited"
    by blast
  from this[rule_format, of 1 ?u "''svg line''"] cur3
  have k: "handleRedo samplePlatform (addToHistory samplePlatform (historyIndex ?u) ?u)
             = addToHistory samplePlatform (historyIndex ?u) ?u"
    by (simp add: one)
  have hh: "history (addToHistory samplePlatform 0 ?u) = [''svg line'', ''svg line'']"
    by (simp add: addToHistory_commit[OF cur3 ne3] slice0_def u(1) h)
  from h i r u(2) k hh show ?thesis by simp
qed



section \<open>Properties of the move drag\<close>

lemma forEachElement_Nil: "forEachElement f [] h = h"
  by (simp add: forEachElement_def)

lemma forEachElement_Cons:
  "forEachElement f (x # xs) h
     = forEachElement f xs (case h x of None \<Rightarrow> h | Some el \<Rightarrow> h(x \<mapsto> f x el))"
  by (simp add: forEachElement_def)

lemma forEachElement_other:
  "q \<notin> set refs \<Longrightarrow> forEachElement f refs h q = h q"
  by (induction refs arbitrary: h) (auto simp: forEachElement_Nil forEachElement_Cons split: option.splits)

lemma forEachElement_rel:
  assumes step: "\<And>r u v. R u v \<Longrightarrow> R u (f r v)"
  shows "h q = Some u \<Longrightarrow> R v u \<Longrightarrow> \<exists>v'. forEachElement f refs h q = Some v' \<and> R v v'"
proof (induction refs arbitrary: h u)
  case Nil
  then show ?case by (simp add: forEachElement_Nil)
next
  case (Cons x xs)
  let ?h = "case h x of None \<Rightarrow> h | Some el \<Rightarrow> h(x \<mapsto> f x el)"
  show ?case
  proof (cases "x = q")
    case True
    then have "?h q = Some (f q u)" using Cons.prems by simp
    moreover have "R v (f q u)" using Cons.prems step by blast
    ultimately show ?thesis using Cons.IH[of ?h "f q u"] by (simp add: forEachElement_Cons)
  next
    case False
    then have "?h q = Some u" using Cons.prems by (simp split: option.splits)
    then show ?thesis using Cons.IH[of ?h u] Cons.prems by (simp add: forEachElement_Cons)
  qed
qed

lemma forEachElement_last:
  assumes est: "\<And>u. Q (f q u)"
  shows "q \<in> set refs \<Longrightarrow> h q = Some v \<Longrightarrow> \<exists>v'. forEachElement f refs h q = Some v' \<and> Q v'"
proof (induction refs arbitrary: h v)
  case Nil
  then show ?case by simp
next
  case (Cons x xs)
  let ?h = "case h x of None \<Rightarrow> h | Some el \<Rightarrow> h(x \<mapsto> f x el)"
  show ?case
  proof (cases "q \<in> set xs")
    case True
    have "\<exists>w. ?h q = Some w" using Cons.prems by (auto split: option.splits)
    then obtain w where w: "?h q = Some w" ..
    from Cons.IH[of ?h w, OF True w] show ?thesis by (simp add: forEachElement_Cons)
  next
    case False
    with Cons.prems have x: "x = q" by simp
    then have "?h q = Some (f q v)" using Cons.prems by simp
    moreover have "forEachElement f xs ?h q = ?h q" using False by (rule forEachElement_other)
    ultimately show ?thesis using est by (simp add: forEachElement_Cons)
  qed
qed

lemma updateSelectionBBox_frame:
  "heap (updateSelectionBBox P refs st) = heap st"
  "selectedElements (updateSelectionBBox P refs st) = selectedElements st"
  "controlPoints (updateSelectionBBox P refs st) = controlPoints st"
  "startTransformsMap (updateSelectionBBox P refs st) = startTransformsMap st"
  "history (updateSelectionBBox P refs st) = history st"
  "historyIndex (updateSelectionBBox P refs st) = historyIndex st"
  "svg (updateSelectionBBox P refs st) = svg st"
  "tool (updateSelectionBBox P refs st) = tool st"
  "dragMode (updateSelectionBBox P refs st) = dragMode st"
  "isDrawing (updateSelectionBBox P refs st) = isDrawing st"
  "currentDrawElement (updateSelectionBBox P refs st) = currentDrawElement st"
  "didChange (updateSelectionBBox P refs st) = didChange st"
  "nextRef (updateSelectionBBox P refs st) = nextRef st"
  "startPoint (updateSelectionBBox P refs st) = startPoint st"
  "isDraggingPoint (updateSelectionBBox P refs st) = isDraggingPoint st"
  "currentHexColor (updateSelectionBBox P refs st) = currentHexColor st"
  "rotationCenter (updateSelectionBBox P refs st) = rotationCenter st"
  by (auto simp: updateSelectionBBox_def Let_def split: option.splits prod.splits)

lemma sameShape_refl: "sameShape el el"
  by (simp add: sameShape_def)

lemma setElementTransform_fields:
  "tagName (setElementTransform P v d) = tagName v"
  "style (setElementTransform P v d) = style v"
  "textContent (setElementTransform P v d) = textContent v"
  by (simp_all add: setElementTransform_def setAttribute_def Let_def)

lemma sameShape_setElementTransform:
  assumes "sameShape u v"
  shows "sameShape u (setElementTransform P v d)"
proof -
  have "getAttribute (setElementTransform P v d) name = getAttribute v name"
    if "name \<notin> set transformAttributes" for name
    using that by (simp add: setElementTransform_attribute transformAttributes_def)
  with assms show ?thesis by (simp add: sameShape_def setElementTransform_fields)
qed

lemma sameShape_moveElement:
  "sameShape u v \<Longrightarrow> sameShape u (moveElement P dx dy starts r v)"
  by (simp add: moveElement_def Let_def sameShape_setElementTransform split: option.splits)

lemma handleMouseMove_move:
  assumes "dragMode st = DragMove" "selectedElements st \<noteq> []" "startPoint st = Some start"
    "\<not> isDrawing st"
  shows "handleMouseMove P e st = dragMove P (svgPoint e) start st"
proof -
  have a: "dragMode (dragMove P (svgPoint e) start st) = DragMove"
    and b: "isDrawing (dragMove P (svgPoint e) start st) = False"
    using assms by (simp_all add: dragMove_def Let_def updateSelectionBBox_frame)
  show ?thesis using assms a b
    by (simp add: handleMouseMove_def Let_def split: option.splits prod.splits)
qed

lemma dragMove_frame:
  "heap (dragMove P pt start st)
     = forEachElement (moveElement P (fst pt - fst start) (snd pt - snd start)
         (startTransformsMap st)) (selectedElements st) (heap st)"
  "selectedElements (dragMove P pt start st) = selectedElements st"
  "startTransformsMap (dragMove P pt start st) = startTransformsMap st"
  by (simp_all add: dragMove_def Let_def updateSelectionBBox_frame)

text \<open>
  Claim C3. During a move drag (the drag mode is move, something is selected, the gesture
  has a start point and nothing is being drawn) a pointer move by \<open>(dx, dy)\<close> from the
  start point gives every selected shape whose transform was captured the translation
  \<open>(tx + dx, ty + dy)\<close> of its captured transform, and the captured rotation and pivot:
  the five attributes hold the texts of these numbers, and they read back as these
  numbers on a platform that converts them without loss. Of every shape in the store,
  selected or not, the tag, the style, the text and every attribute other than the five
  and the rendered transform stay as they were.
\<close>

theorem move_drag_translates:
  fixes P :: platform and e :: mouse_event and st :: editor and start :: point
  assumes mode: "dragMode st = DragMove" and sel: "selectedElements st \<noteq> []"
    and sp: "startPoint st = Some start" and nd: "\<not> isDrawing st"
  defines "dx \<equiv> fst (svgPoint e) - fst start" and "dy \<equiv> snd (svgPoint e) - snd start"
  shows "(\<forall>r el t0. r \<in> set (selectedElements st) \<and> heap st r = Some el
            \<and> startTransformsMap st r = Some t0 \<longrightarrow>
            (\<exists>el'. heap (handleMouseMove P e st) r = Some el'
               \<and> getAttribute el' ''data-tx'' = Some (String P (tx t0 + dx))
               \<and> getAttribute el' ''data-ty'' = Some (String P (ty t0 + dy))
               \<and> getAttribute el' ''data-rotation'' = Some (String P (rotation t0))
               \<and> getAttribute el' ''data-cx'' = Some (String P (cx t0))
               \<and> getAttribute el' ''data-cy'' = Some (String P (cy t0))
               \<and> getAttribute el' ''transform''
                   = Some (transformString P (t0\<lparr>tx := tx t0 + dx, ty := ty t0 + dy\<rparr>))
               \<and> ((\<forall>v \<in> set [tx t0 + dx, ty t0 + dy, rotation t0, cx t0, cy t0].
                      roundTrips P v) \<longrightarrow>
                    getElementTransform P el' = t0\<lparr>tx := tx t0 + dx, ty := ty t0 + dy\<rparr>)))
       \<and> (\<forall>r el. heap st r = Some el \<longrightarrow>
            (\<exists>el'. heap (handleMouseMove P e st) r = Some el' \<and> sameShape el el'))
       \<and> selectedElements (handleMouseMove P e st) = selectedElements st
       \<and> startTransformsMap (handleMouseMove P e st) = startTransformsMap st"
proof -
  let ?f = "moveElement P dx dy (startTransformsMap st)"
  have hm: "handleMouseMove P e st = dragMove P (svgPoint e) start st"
    using mode sel sp nd by (rule handleMouseMove_move)
  have hp: "heap (handleMouseMove P e st) = forEachElement ?f (selectedElements st) (heap st)"
    by (simp add: hm dragMove_frame dx_def dy_def)
  have part1: "\<exists>el'. heap (handleMouseMove P e st) r = Some el'
               \<and> getAttribute el' ''data-tx'' = Some (String P (tx t0 + dx))
               \<and> getAttribute el' ''data-ty'' = Some (String P (ty t0 + dy))
               \<and> getAttribute el' ''data-rotation'' = Some (String P (rotation t0))
               \<and> getAttribute el' ''data-cx'' = Some (String P (cx t0))
               \<and> getAttribute el' ''data-cy'' = Some (String P (cy t0))
               \<and> getAttribute el' ''transform''
                   = Some (transformString P (t0\<lparr>tx := tx t0 + dx, ty := ty t0 + dy\<rparr>))
               \<and> ((\<forall>v \<in> set [tx t0 + dx, ty t0 + dy, rotation t0, cx t0, cy t0].
                      roundTrips P v) \<longrightarrow>
                    getElementTransform P el' = t0\<lparr>tx := tx t0 + dx, ty := ty t0 + dy\<rparr>)"
    if r: "r \<in> set (selectedElements st)" and el: "heap st r = Some el"
      and t0: "startTransformsMap st r = Some t0" for r el t0
  proof -
    let ?d = "t0\<lparr>tx := tx t0 + dx, ty := ty t0 + dy\<rparr>"
    let ?Q = "\<lambda>el'. \<exists>u. el' = setElementTransform P u ?d"
    have est: "\<And>u. ?Q (?f r u)" using t0 by (auto simp: moveElement_def Let_def)
    from forEachElement_last[of ?Q ?f r "selectedElements st" "heap st" el, OF est r el]
    obtain el' u where e1: "heap (handleMouseMove P e st) r = Some el'"
      and e2: "el' = setElementTransform P u ?d"
      unfolding hp by blast
    have attrs: "getAttribute el' ''data-tx'' = Some (String P (tx ?d))"
      "getAttribute el' ''data-ty'' = Some (String P (ty ?d))"
      "getAttribute el' ''data-rotation'' = Some (String P (rotation ?d))"
      "getAttribute el' ''data-cx'' = Some (String P (cx ?d))"
      "getAttribute el' ''data-cy'' = Some (String P (cy ?d))"
      "getAttribute el' ''transform'' = Some (transformString P ?d)"
      by (simp_all add: e2 setElementTransform_attribute)
    have readback: "getElementTransform P el' = ?d"
      if "\<forall>v \<in> set [tx ?d, ty ?d, rotation ?d, cx ?d, cy ?d]. roundTrips P v"
      unfolding e2 using that by (rule getElementTransform_written)
    from e1 attrs readback show ?thesis by simp
  qed
  have part2: "\<exists>el'. heap (handleMouseMove P e st) r = Some el' \<and> sameShape el el'"
    if "heap st r = Some el" for r el
    unfolding hp
    using forEachElement_rel[where R = sameShape and f = ?f and h = "heap st" and q = r
        and u = el and v = el and refs = "selectedElements st"] sameShape_moveElement that
      sameShape_refl
    by blast
  show ?thesis
    using part1 part2 by (simp add: hm dragMove_frame)
qed

lemmas element_defs = createElementNS_def setAttribute_def setStyle_def getAttribute_def
  getStyle_def numAttr_def orDefault_def

lemmas handler_defs = run_def handleMouseDownCanvas_def selectDown_def isShapeTarget_def
  validShapeTags_def nextSelection_def controlPointsOf_def parseControlPoints_def mkPoint_def
  updateSelectionBBox_def elementsOf_def extent_def captureTransforms_def
  getElementTransform_def handleMouseUp_def endDrag_def endDraw_def initialize_def
  initialEditor_def allocate_def withViewBox_def List.map_filter_simps Let_def

lemma sampleGesture_fields:
  "dragMode sampleGesture = DragMove"
  "selectedElements sampleGesture = [0, 1]"
  "startPoint sampleGesture = Some (10, 10)"
  "\<not> isDrawing sampleGesture"
  "heap sampleGesture 0 = Some (createElementNS ''line'')"
  "heap sampleGesture 1 = Some (createElementNS ''rect'')"
  "startTransformsMap sampleGesture 0 = Some \<lparr>tx = 0, ty = 0, rotation = 0, cx = 0, cy = 0\<rparr>"
  "startTransformsMap sampleGesture 1 = Some \<lparr>tx = 0, ty = 0, rotation = 0, cx = 0, cy = 0\<rparr>"
  by (simp_all add: sampleGesture_def sampleTwoShapes_def clickAt_def handler_defs element_defs
      sample_defs string_defs)


theorem move_drag_translates_witness:
  "(\<exists>el'. heap (handleMouseMove samplePlatform (clickAt 1 (15, 17) False) sampleGesture) 0 = Some el'
       \<and> getAttribute el' ''data-tx'' = Some ''5'' \<and> getAttribute el' ''data-ty'' = Some ''7''
       \<and> getAttribute el' ''data-rotation'' = Some ''0''
       \<and> getAttribute el' ''transform'' = Some ''translate(5, 7)''
       \<and> sameShape (createElementNS ''line'') el')
   \<and> (\<exists>el'. heap (handleMouseMove samplePlatform (clickAt 1 (15, 17) False) sampleGesture) 1 = Some el'
       \<and> getAttribute el' ''data-tx'' = Some ''5'' \<and> getAttribute el' ''data-ty'' = Some ''7''
       \<and> getAttribute el' ''data-rotation'' = Some ''0''
       \<and> getAttribute el' ''transform'' = Some ''translate(5, 7)''
       \<and> sameShape (createElementNS ''rect'') el')"
proof -
  let ?e = "clickAt 1 (15, 17) False"
  let ?z = "\<lparr>tx = 0, ty = 0, rotation = 0, cx = 0, cy = 0\<rparr> :: TransformData"
  have sel: "selectedElements sampleGesture \<noteq> []" by (simp add: sampleGesture_fields)
  have nd: "\<not> isDrawing sampleGesture" by (rule sampleGesture_fields)
  note t = move_drag_translates[OF sampleGesture_fields(1) sel sampleGesture_fields(3) nd,
      of samplePlatform ?e]
  have str: "String samplePlatform 5 = ''5''" "String samplePlatform 7 = ''7''"
    "String samplePlatform 0 = ''0''"
    by (simp_all add: sample_defs)
  have ts: "transformString samplePlatform \<lparr>tx = 5, ty = 7, rotation = 0, cx = 0, cy = 0\<rparr>
              = ''translate(5, 7)''"
    by (simp add: transformString_def str)
  have d: "fst (svgPoint ?e) - fst (10 :: real, 10 :: real) = 5"
    "snd (svgPoint ?e) - snd (10 :: real, 10 :: real) = 7"
    by (simp_all add: clickAt_def)
  from t have t1: "\<forall>r el t0. r \<in> set (selectedElements sampleGesture)
        \<and> heap sampleGesture r = Some el \<and> startTransformsMap sampleGesture r = Some t0 \<longrightarrow>
        (\<exists>el'. heap (handleMouseMove samplePlatform ?e sampleGesture) r = Some el'
           \<and> getAttribute el' ''data-tx'' = Some (String samplePlatform (tx t0 + 5))
           \<and> getAttribute el' ''data-ty'' = Some (String samplePlatform (ty t0 + 7))
           \<and> getAttribute el' ''data-rotation'' = Some (String samplePlatform (rotation t0))
           \<and> getAttribute el' ''transform''
               = Some (transformString samplePlatform (t0\<lparr>tx := tx t0 + 5, ty := ty t0 + 7\<rparr>)))"
    unfolding d by blast
  from t have t2: "\<forall>r el. heap sampleGesture r = Some el \<longrightarrow>
        (\<exists>el'. heap (handleMouseMove samplePlatform ?e sampleGesture) r = Some el' \<and> sameShape el el')"
    by blast
  have m: "0 \<in> set (selectedElements sampleGesture)" "1 \<in> set (selectedElements sampleGesture)"
    by (simp_all add: sampleGesture_fields)
  have a1: "\<exists>el'. heap (handleMouseMove samplePlatform ?e sampleGesture) 0 = Some el'
           \<and> getAttribute el' ''data-tx'' = Some (String samplePlatform (tx ?z + 5))
           \<and> getAttribute el' ''data-ty'' = Some (String samplePlatform (ty ?z + 7))
           \<and> getAttribute el' ''data-rotation'' = Some (String samplePlatform (rotation ?z))
           \<and> getAttribute el' ''transform''
               = Some (transformString samplePlatform (?z\<lparr>tx := tx ?z + 5, ty := ty ?z + 7\<rparr>))"
    using t1 m(1) sampleGesture_fields(5) sampleGesture_fields(7) by blast
  have a2: "\<exists>el'. heap (handleMouseMove samplePlatform ?e sampleGesture) 0 = Some el'
           \<and> sameShape (createElementNS ''line'') el'"
    using t2 sampleGesture_fields(5) by blast
  have a: "\<exists>el'. heap (handleMouseMove samplePlatform ?e sampleGesture) 0 = Some el'
       \<and> getAttribute el' ''data-tx'' = Some ''5'' \<and> getAttribute el' ''data-ty'' = Some ''7''
       \<and> getAttribute el' ''data-rotation'' = Some ''0''
       \<and> getAttribute el' ''transform'' = Some ''translate(5, 7)''
       \<and> sameShape (createElementNS ''line'') el'"
    using a1 a2 by (auto simp: str ts)
  have b1: "\<exists>el'. heap (handleMouseMove samplePlatform ?e sampleGesture) 1 = Some el'
           \<and> getAttribute el' ''data-tx'' = Some (String samplePlatform (tx ?z + 5))
           \<and> getAttribute el' ''data-ty'' = Some (String samplePlatform (ty ?z + 7))
           \<and> getAttribute el' ''data-rotation'' = Some (String samplePlatform (rotation ?z))
           \<and> getAttribute el' ''transform''
               = Some (transformString samplePlatform (?z\<lparr>tx := tx ?z + 5, ty := ty ?z + 7\<rparr>))"
    using t1 m(2) sampleGesture_fields(6) sampleGesture_fields(8) by blast
  have b2: "\<exists>el'. heap (handleMouseMove samplePlatform ?e sampleGesture) 1 = Some el'
           \<and> sameShape (createElementNS ''rect'') el'"
    using t2 sampleGesture_fields(6) by blast
  have b: "\<exists>el'. heap (handleMouseMove samplePlatform ?e sampleGesture) 1 = Some el'
       \<and> getAttribute el' ''data-tx'' = Some ''5'' \<and> getAttribute el' ''data-ty'' = Some ''7''
       \<and> getAttribute el' ''data-rotation'' = Some ''0''
       \<and> getAttribute el' ''transform'' = Some ''translate(5, 7)''
       \<and> sameShape (createElementNS ''rect'') el'"
    using b1 b2 by (auto simp del: One_nat_def simp: str ts)
  from a b show ?thesis by blast
qed



section \<open>Properties of drawing\<close>

lemma endDraw_tiny:
  assumes "isDrawing st" "currentDrawElement st = Some r" "heap st r = Some el" "isTiny P el"
  shows "endDraw P hi st = (removeChild r (st\<lparr>isDrawing := False\<rparr>))\<lparr>currentDrawElement := None\<rparr>"
  using assms by (simp add: endDraw_def Let_def)

lemma endDrag_idle: "dragMode st = DragNone \<Longrightarrow> endDrag P hi st = st"
  by (simp add: endDrag_def)

lemma removeChild_fields:
  "svg (removeChild r st)
     = (case svg st of None \<Rightarrow> None | Some (svgEl, ch) \<Rightarrow> Some (svgEl, filter (\<lambda>c. c \<noteq> r) ch))"
  "history (removeChild r st) = history st"
  "historyIndex (removeChild r st) = historyIndex st"
  "selectedElements (removeChild r st) = selectedElements st"
  "controlPoints (removeChild r st) = controlPoints st"
  "tool (removeChild r st) = tool st"
  "heap (removeChild r st) = heap st"
  by (auto simp: removeChild_def split: option.splits prod.splits)

lemma mouseUp_tiny:
  assumes "isDrawing st" "currentDrawElement st = Some r" "heap st r = Some el" "isTiny P el"
    "dragMode st = DragNone"
  shows "svg (handleMouseUp P st)
           = (case svg st of None \<Rightarrow> None
              | Some (svgEl, ch) \<Rightarrow> Some (svgEl, filter (\<lambda>c. c \<noteq> r) ch))"
    and "history (handleMouseUp P st) = history st"
    and "historyIndex (handleMouseUp P st) = historyIndex st"
    and "selectedElements (handleMouseUp P st) = selectedElements st"
    and "tool (handleMouseUp P st) = tool st"
    and "currentDrawElement (handleMouseUp P st) = None"
    and "\<not> isDrawing (handleMouseUp P st)"
  using assms
  by (simp_all add: handleMouseUp_def endDrag_idle endDraw_tiny removeChild_fields)
     (simp_all add: removeChild_def split: option.splits prod.splits)

lemma draw_line_down:
  assumes "tool st = ToolLine" "svg st = Some (svgEl, ch)"
  shows "handleMouseDownCanvas P e st
     = st\<lparr>isDrawing := True, didChange := False, startPoint := Some (svgPoint e),
           selectedElements := [], controlPoints := [], selectionBBox := None,
           heap := (heap st)(nextRef st \<mapsto> newShape P ToolLine (currentHexColor st) (svgPoint e)),
           nextRef := Suc (nextRef st),
           svg := Some (svgEl, ch @ [nextRef st]),
           currentDrawElement := Some (nextRef st)\<rparr>"
  using assms
  by (simp add: handleMouseDownCanvas_def beginDraw_def newObject_def appendChild_def Let_def)

lemma draw_line_move:
  assumes "tool st = ToolLine" "dragMode st = DragNone" "isDrawing st"
    "currentDrawElement st = Some r" "startPoint st = Some start" "heap st r = Some el"
    "\<not> shiftKey e"
  shows "handleMouseMove P e st
     = st\<lparr>didChange := True,
           heap := (heap st)(r \<mapsto> setAttribute (setAttribute el ''x2'' (String P (fst (svgPoint e))))
                                   ''y2'' (String P (snd (svgPoint e))))\<rparr>"
  using assms
  by (cases "rotationCenter st")
     (simp_all add: handleMouseMove_def drawGrow_def growShape_def forEachElement_def Let_def)


lemma newShape_line:
  "tagName (newShape P ToolLine color pt) = ''line''"
  "getAttribute (newShape P ToolLine color pt) ''x1'' = Some (String P (fst pt))"
  "getAttribute (newShape P ToolLine color pt) ''y1'' = Some (String P (snd pt))"
  "getAttribute (newShape P ToolLine color pt) ''x2'' = Some (String P (fst pt))"
  "getAttribute (newShape P ToolLine color pt) ''y2'' = Some (String P (snd pt))"
  by (simp_all add: newShape_def newShapeTag_def Let_def getAttribute_setAttribute)
     (simp_all add: setAttribute_def createElementNS_def)

lemma tiny_line_gesture:
  assumes tl: "tool st = ToolLine" and sv: "svg st = Some (svgEl, ch)"
    and fresh: "\<forall>c \<in> set ch. c < nextRef st" and idle: "dragMode st = DragNone"
    and dn: "svgPoint down = (10, 10)" and mv: "svgPoint move = (10.5, 10.3)"
    and ns: "\<not> shiftKey move"
    and rt: "roundTrips P 10" "roundTrips P 10.5" "roundTrips P 10.3"
  defines "drawn \<equiv> handleMouseMove P move (handleMouseDownCanvas P down st)"
  shows "isDrawing drawn" "currentDrawElement drawn = Some (nextRef st)"
    "\<exists>el. heap drawn (nextRef st) = Some el \<and> isTiny P el" "dragMode drawn = DragNone"
    "svg drawn = Some (svgEl, ch @ [nextRef st])" "history drawn = history st"
    "historyIndex drawn = historyIndex st" "selectedElements drawn = []"
proof -
  let ?r = "nextRef st"
  let ?line = "newShape P ToolLine (currentHexColor st) (svgPoint down)"
  let ?el = "setAttribute (setAttribute ?line ''x2'' (String P (fst (svgPoint move))))
               ''y2'' (String P (snd (svgPoint move)))"
  let ?d = "handleMouseDownCanvas P down st"
  note d = draw_line_down[OF tl sv, of P down]
  have a: "tool ?d = ToolLine" "dragMode ?d = DragNone" "isDrawing ?d"
    "currentDrawElement ?d = Some ?r" "startPoint ?d = Some (svgPoint down)"
    "heap ?d ?r = Some ?line"
    using tl idle by (simp_all add: d)
  note m = draw_line_move[OF a ns, of P, folded drawn_def]
  show "isDrawing drawn" "currentDrawElement drawn = Some ?r" "dragMode drawn = DragNone"
    "svg drawn = Some (svgEl, ch @ [?r])" "history drawn = history st"
    "historyIndex drawn = historyIndex st" "selectedElements drawn = []"
    using a by (simp_all add: m d)
  have h: "heap drawn ?r = Some ?el" by (simp add: m)
  have x1: "numAttr P ?el ''x1'' = 10" and y1: "numAttr P ?el ''y1'' = 10"
    and x2: "numAttr P ?el ''x2'' = 10.5" and y2: "numAttr P ?el ''y2'' = 10.3"
    using rt by (simp_all add: numAttr_roundTrips getAttribute_setAttribute newShape_line dn mv)
  have "tagName ?el = ''line''" by (simp add: setAttribute_def newShape_line)
  then have "isTiny P ?el" unfolding isTiny_def x1 x2 y1 y2 by simp
  with h show "\<exists>el. heap drawn ?r = Some el \<and> isTiny P el" by blast
qed

text \<open>On any platform that converts the three numbers 10, 10.5 and 10.3 without loss: with
  the line tool and no drag under way, pressing at \<open>(10, 10)\<close>, moving to \<open>(10.5, 10.3)\<close>
  without Shift and releasing leaves the tree and the history as they were.\<close>

lemma tiny_line_release:
  assumes tl: "tool st = ToolLine" and sv: "svg st = Some (svgEl, ch)"
    and fresh: "\<forall>c \<in> set ch. c < nextRef st" and idle: "dragMode st = DragNone"
    and dn: "svgPoint down = (10, 10)" and mv: "svgPoint move = (10.5, 10.3)"
    and ns: "\<not> shiftKey move"
    and rt: "roundTrips P 10" "roundTrips P 10.5" "roundTrips P 10.3"
  shows "svg (handleMouseUp P (handleMouseMove P move (handleMouseDownCanvas P down st)))
           = Some (svgEl, ch)"
    and "history (handleMouseUp P (handleMouseMove P move (handleMouseDownCanvas P down st)))
           = history st"
    and "historyIndex (handleMouseUp P (handleMouseMove P move (handleMouseDownCanvas P down st)))
           = historyIndex st"
    and "selectedElements
           (handleMouseUp P (handleMouseMove P move (handleMouseDownCanvas P down st))) = []"
proof -
  let ?drawn = "handleMouseMove P move (handleMouseDownCanvas P down st)"
  note g = tiny_line_gesture[OF tl sv fresh idle dn mv ns rt]
  from g(3) obtain el' where e: "heap ?drawn (nextRef st) = Some el'" "isTiny P el'" by blast
  note u = mouseUp_tiny[OF g(1) g(2) e g(4)]
  from fresh have "filter (\<lambda>c. c \<noteq> nextRef st) ch = ch" by (auto simp: filter_id_conv)
  then show "svg (handleMouseUp P ?drawn) = Some (svgEl, ch)" by (simp add: u g)
  show "history (handleMouseUp P ?drawn) = history st" by (simp add: u g)
  show "historyIndex (handleMouseUp P ?drawn) = historyIndex st" by (simp add: u g)
  show "selectedElements (handleMouseUp P ?drawn) = []" by (simp add: u g)
qed

lemmas draw_defs = drawGesture_def clickAt_def handler_defs element_defs sample_defs string_defs
  beginDraw_def newShape_def newShapeTag_def newObject_def appendChild_def removeChild_def
  handleMouseMove_def drawGrow_def growShape_def forEachElement_def isTiny_def
  addToHistory_def getCurrentSVGString_def slice0_def

lemma flat_rect_gesture:
  "\<exists>svgEl. svg (drawGesture ToolRect (10, 10) (20, 10)) = Some (svgEl, [0, 1])"
  "\<exists>rect. heap (drawGesture ToolRect (10, 10) (20, 10)) 1 = Some rect
      \<and> tagName rect = ''rect'' \<and> getAttribute rect ''width'' = Some ''10''
      \<and> getAttribute rect ''height'' = Some ''0'' \<and> \<not> isTiny samplePlatform rect"
  "selectedElements (drawGesture ToolRect (10, 10) (20, 10)) = [1]"
  "history (drawGesture ToolRect (10, 10) (20, 10)) = [''svg line'', ''svg line rect'']"
  "historyIndex (drawGesture ToolRect (10, 10) (20, 10)) = 1"
  by (simp_all add: draw_defs)

lemma flat_ellipse_gesture:
  "\<exists>svgEl. svg (drawGesture ToolCircle (10, 10) (20, 10)) = Some (svgEl, [0])"
  "history (drawGesture ToolCircle (10, 10) (20, 10)) = [''svg line'']"
  by (simp_all add: draw_defs)

lemma tiny_line_sample:
  "\<exists>svgEl. svg (drawGesture ToolLine (10, 10) (10.5, 10.3)) = Some (svgEl, [0])"
  "history (drawGesture ToolLine (10, 10) (10.5, 10.3)) = [''svg line'']"
proof -
  let ?st = "sampleLoaded\<lparr>tool := ToolLine\<rparr>"
  let ?down = "clickAt 0 (10, 10) False"
  let ?move = "clickAt 0 (10.5, 10.3) False"
  have d: "drawGesture ToolLine (10, 10) (10.5, 10.3)
             = handleMouseUp samplePlatform (handleMouseMove samplePlatform ?move
                 (handleMouseDownCanvas samplePlatform ?down ?st))"
    by (simp add: drawGesture_def run_def sampleLoaded_def)
  from sampleLoaded_fields(5) obtain svgEl where sv: "svg ?st = Some (svgEl, [0])"
    by auto
  have tl: "tool ?st = ToolLine" by simp
  have fresh: "\<forall>c \<in> set [0]. c < nextRef ?st" by (simp add: sampleLoaded_fields)
  have idle: "dragMode ?st = DragNone"
    by (simp add: sampleLoaded_def initialize_def initialEditor_def allocate_def Let_def
        split: prod.splits)
  have pts: "svgPoint ?down = (10, 10)" "svgPoint ?move = (10.5, 10.3)" "\<not> shiftKey ?move"
    by (simp_all add: clickAt_def)
  have rt: "roundTrips samplePlatform 10" "roundTrips samplePlatform 10.5"
    "roundTrips samplePlatform 10.3"
    by (simp_all add: roundTrips_def sample_defs)
  note r = tiny_line_release[OF tl sv fresh idle pts rt]
  show "\<exists>svgEl. svg (drawGesture ToolLine (10, 10) (10.5, 10.3)) = Some (svgEl, [0])"
    unfolding d using r(1) by blast
  show "history (drawGesture ToolLine (10, 10) (10.5, 10.3)) = [''svg line'']"
    unfolding d using r(2) by (simp add: sampleLoaded_fields)
qed

text \<open>
  Claim C6. The test \<^const>\<open>isTiny\<close> that decides on release whether the pending shape is
  discarded reads, of a rectangle, the width alone. With the rectangle tool, pressing at
  \<open>(10, 10)\<close>, moving to \<open>(20, 10)\<close> and releasing draws a rectangle of width 10 and
  height 0, of which nothing is visible; the test does not find it tiny, so it stays in
  the tree, is selected and is committed as a new snapshot. The same gesture with the
  ellipse tool draws radii 10 and 0, and the ellipse is taken out of the tree without a
  commit, because the test reads both radii; so is the line drawn from \<open>(10, 10)\<close> to
  \<open>(10.5, 10.3)\<close>.
\<close>

theorem flat_rectangle_committed:
  "(\<exists>svgEl rect.
      svg (drawGesture ToolRect (10, 10) (20, 10)) = Some (svgEl, [0, 1])
      \<and> heap (drawGesture ToolRect (10, 10) (20, 10)) 1 = Some rect
      \<and> tagName rect = ''rect'' \<and> getAttribute rect ''width'' = Some ''10''
      \<and> getAttribute rect ''height'' = Some ''0'' \<and> \<not> isTiny samplePlatform rect)
   \<and> selectedElements (drawGesture ToolRect (10, 10) (20, 10)) = [1]
   \<and> history (drawGesture ToolRect (10, 10) (20, 10)) = [''svg line'', ''svg line rect'']
   \<and> historyIndex (drawGesture ToolRect (10, 10) (20, 10)) = 1
   \<and> (\<exists>svgEl. svg (drawGesture ToolCircle (10, 10) (20, 10)) = Some (svgEl, [0]))
   \<and> history (drawGesture ToolCircle (10, 10) (20, 10)) = [''svg line'']
   \<and> (\<exists>svgEl. svg (drawGesture ToolLine (10, 10) (10.5, 10.3)) = Some (svgEl, [0]))
   \<and> history (drawGesture ToolLine (10, 10) (10.5, 10.3)) = [''svg line'']"
proof -
  from flat_rect_gesture(1) flat_rect_gesture(2)
  have "\<exists>svgEl rect.
      svg (drawGesture ToolRect (10, 10) (20, 10)) = Some (svgEl, [0, 1])
      \<and> heap (drawGesture ToolRect (10, 10) (20, 10)) 1 = Some rect
      \<and> tagName rect = ''rect'' \<and> getAttribute rect ''width'' = Some ''10''
      \<and> getAttribute rect ''height'' = Some ''0'' \<and> \<not> isTiny samplePlatform rect"
    by blast
  with flat_rect_gesture(3-5) flat_ellipse_gesture tiny_line_sample show ?thesis
    by (intro conjI)
qed


section \<open>Properties of the style commands\<close>

lemma forEachElement_distinct:
  "distinct refs \<Longrightarrow> r \<in> set refs \<Longrightarrow> h r = Some el \<Longrightarrow>
   forEachElement f refs h r = Some (f r el)"
proof (induction refs arbitrary: h)
  case Nil
  then show ?case by simp
next
  case (Cons x xs)
  let ?h = "case h x of None \<Rightarrow> h | Some u \<Rightarrow> h(x \<mapsto> f x u)"
  show ?case
  proof (cases "x = r")
    case True
    then have "r \<notin> set xs" using Cons.prems by simp
    then have "forEachElement f xs ?h r = ?h r" by (rule forEachElement_other)
    then show ?thesis using True Cons.prems by (simp add: forEachElement_Cons)
  next
    case False
    then have "r \<in> set xs" "?h r = Some el" "distinct xs"
      using Cons.prems by (auto split: option.splits)
    then show ?thesis using Cons.IH[of ?h] by (simp add: forEachElement_Cons)
  qed
qed

lemma toggleDash_effect:
  "\<not> isDashed el \<Longrightarrow> getAttribute (toggleDash el) ''stroke-dasharray'' = Some ''4 4''"
  "\<not> isDashed el \<Longrightarrow> getStyle (toggleDash el) ''strokeDasharray'' = ''4 4''"
  "\<not> isDashed el \<Longrightarrow> isDashed (toggleDash el)"
  "isDashed el \<Longrightarrow> getAttribute (toggleDash el) ''stroke-dasharray'' = Some ''none''"
  "isDashed el \<Longrightarrow> getStyle (toggleDash el) ''strokeDasharray'' = ''none''"
  "isDashed el \<Longrightarrow> \<not> isDashed (toggleDash el)"
  by (simp_all add: toggleDash_def isDashed_def getAttribute_def setAttribute_def getStyle_def
      setStyle_def truthy_def Let_def)

lemma addToHistory_frame:
  "heap (addToHistory P hi st) = heap st"
  "svg (addToHistory P hi st) = svg st"
  "selectedElements (addToHistory P hi st) = selectedElements st"
  "controlPoints (addToHistory P hi st) = controlPoints st"
  "tool (addToHistory P hi st) = tool st"
  "dragMode (addToHistory P hi st) = dragMode st"
  "isDrawing (addToHistory P hi st) = isDrawing st"
  "currentDrawElement (addToHistory P hi st) = currentDrawElement st"
  "didChange (addToHistory P hi st) = didChange st"
  "nextRef (addToHistory P hi st) = nextRef st"
  "startPoint (addToHistory P hi st) = startPoint st"
  "isDraggingPoint (addToHistory P hi st) = isDraggingPoint st"
  "startTransformsMap (addToHistory P hi st) = startTransformsMap st"
  by (auto simp: addToHistory_def split: option.splits)

text \<open>
  Claim C8, as the code has it. With a selection that is not empty and has no shape
  twice, the dash command toggles every selected shape: a shape that is not dashed gets
  the pattern \<^verbatim>\<open>4 4\<close> and is dashed afterwards, a dashed shape gets \<^verbatim>\<open>none\<close> and is not
  dashed afterwards; so all selected shapes end dashed when none of them was. Shapes
  outside the selection and the selection itself are left alone. The command commits
  once: when the tree serializes to a non-empty text, the history is the old one cut
  after the current index with that one text appended, and the index is one more.
\<close>

theorem toggle_dash_each_selected:
  fixes P :: platform and st :: editor
  assumes sel: "selectedElements st \<noteq> []" and dist: "distinct (selectedElements st)"
  shows "(\<forall>r el. r \<in> set (selectedElements st) \<and> heap st r = Some el \<longrightarrow>
            heap (handleToggleDash P st) r = Some (toggleDash el)
            \<and> (\<not> isDashed el \<longrightarrow>
                 getAttribute (toggleDash el) ''stroke-dasharray'' = Some ''4 4''
                 \<and> getStyle (toggleDash el) ''strokeDasharray'' = ''4 4''
                 \<and> isDashed (toggleDash el))
            \<and> (isDashed el \<longrightarrow>
                 getAttribute (toggleDash el) ''stroke-dasharray'' = Some ''none''
                 \<and> getStyle (toggleDash el) ''strokeDasharray'' = ''none''
                 \<and> \<not> isDashed (toggleDash el)))
       \<and> (\<forall>r. r \<notin> set (selectedElements st) \<longrightarrow> heap (handleToggleDash P st) r = heap st r)
       \<and> selectedElements (handleToggleDash P st) = selectedElements st
       \<and> (\<forall>content. getCurrentSVGString P (handleToggleDash P st) = Some content
             \<and> content \<noteq> [] \<longrightarrow>
             history (handleToggleDash P st)
               = slice0 (history st) (historyIndex st + 1) @ [content]
             \<and> historyIndex (handleToggleDash P st) = historyIndex st + 1)"
proof -
  let ?st1 = "st\<lparr>heap := forEachElement (\<lambda>r. toggleDash) (selectedElements st) (heap st)\<rparr>"
  have t: "handleToggleDash P st = addToHistory P (historyIndex st) ?st1"
    using sel by (simp add: handleToggleDash_def Let_def)
  have hp: "heap (handleToggleDash P st)
              = forEachElement (\<lambda>r. toggleDash) (selectedElements st) (heap st)"
    by (simp add: t addToHistory_frame)
  have a: "heap (handleToggleDash P st) r = Some (toggleDash el)"
    if "r \<in> set (selectedElements st)" "heap st r = Some el" for r el
    unfolding hp using dist that by (rule forEachElement_distinct)
  have b: "heap (handleToggleDash P st) r = heap st r" if "r \<notin> set (selectedElements st)" for r
    unfolding hp using that by (rule forEachElement_other)
  have c: "selectedElements (handleToggleDash P st) = selectedElements st"
    by (simp add: t addToHistory_frame)
  have d: "history (handleToggleDash P st) = slice0 (history st) (historyIndex st + 1) @ [content]
             \<and> historyIndex (handleToggleDash P st) = historyIndex st + 1"
    if "getCurrentSVGString P (handleToggleDash P st) = Some content" "content \<noteq> []" for content
  proof -
    from that(1) have "getCurrentSVGString P ?st1 = Some content"
      by (simp add: t addToHistory_current)
    from addToHistory_commit[OF this that(2), of "historyIndex st"] show ?thesis
      by (simp add: t)
  qed
  show ?thesis using a b c d toggleDash_effect by blast
qed

lemma sampleMixed_fields:
  "selectedElements sampleMixed = [0, 1, 2]"
  "\<exists>el. heap sampleMixed 0 = Some el \<and> isDashed el \<and> tagName el = ''line''"
  "heap sampleMixed 1 = Some (createElementNS ''line'')"
  "heap sampleMixed 2 = Some (createElementNS ''line'')"
  "history sampleMixed = [''svg line line line'', ''svg line line line'']"
  "historyIndex sampleMixed = 1"
  "getCurrentSVGString samplePlatform sampleMixed = Some ''svg line line line''"
  "\<exists>svgEl. svg sampleMixed = Some (svgEl, [0, 1, 2]) \<and> tagName svgEl = ''svg''"
  by (simp_all add: sampleMixed_def clickAt_def handler_defs element_defs sample_defs string_defs
      handleToggleDash_def addToHistory_def getCurrentSVGString_def toggleDash_def isDashed_def
      forEachElement_def slice0_def truthy_def)


lemma sampleMixed_toggled:
  "heap (handleToggleDash samplePlatform sampleMixed)
     = forEachElement (\<lambda>r. toggleDash) [0, 1, 2] (heap sampleMixed)"
  "svg (handleToggleDash samplePlatform sampleMixed) = svg sampleMixed"
  by (simp_all add: handleToggleDash_def Let_def addToHistory_frame sampleMixed_fields)

lemma sampleMixed_after:
  "\<exists>el. heap sampleMixed 0 = Some el \<and> isDashed el \<and> tagName el = ''line''
       \<and> heap (handleToggleDash samplePlatform sampleMixed) 0 = Some (toggleDash el)"
  "heap (handleToggleDash samplePlatform sampleMixed) 1 = Some (toggleDash (createElementNS ''line''))"
  "heap (handleToggleDash samplePlatform sampleMixed) 2 = Some (toggleDash (createElementNS ''line''))"
proof -
  from sampleMixed_fields(2) obtain el where e: "heap sampleMixed 0 = Some el" "isDashed el"
    "tagName el = ''line''"
    by blast
  have d: "distinct [0, 1, 2 :: nat]" by simp
  have "heap (handleToggleDash samplePlatform sampleMixed) 0 = Some (toggleDash el)"
    unfolding sampleMixed_toggled using d _ e(1) by (rule forEachElement_distinct) simp
  with e show "\<exists>el. heap sampleMixed 0 = Some el \<and> isDashed el \<and> tagName el = ''line''
       \<and> heap (handleToggleDash samplePlatform sampleMixed) 0 = Some (toggleDash el)"
    by blast
  show "heap (handleToggleDash samplePlatform sampleMixed) 1
          = Some (toggleDash (createElementNS ''line''))"
    unfolding sampleMixed_toggled using d _ sampleMixed_fields(3)
    by (rule forEachElement_distinct) simp
  show "heap (handleToggleDash samplePlatform sampleMixed) 2
          = Some (toggleDash (createElementNS ''line''))"
    unfolding sampleMixed_toggled using d _ sampleMixed_fields(4)
    by (rule forEachElement_distinct) simp
qed

lemma toggleDash_tagName: "tagName (toggleDash el) = tagName el"
  by (simp add: toggleDash_def setAttribute_def setStyle_def)

lemma sampleMixed_current:
  "getCurrentSVGString samplePlatform (handleToggleDash samplePlatform sampleMixed)
     = Some ''svg line line line''"
proof -
  from sampleMixed_after(1) obtain el
    where e: "tagName el = ''line''"
      "heap (handleToggleDash samplePlatform sampleMixed) 0 = Some (toggleDash el)"
    by blast
  from sampleMixed_fields(8) obtain svgEl
    where s: "svg sampleMixed = Some (svgEl, [0, 1, 2])" "tagName svgEl = ''svg''"
    by blast
  have els: "elementsOf (handleToggleDash samplePlatform sampleMixed) [0, 1, 2]
          = [toggleDash el, toggleDash (createElementNS ''line''),
             toggleDash (createElementNS ''line'')]"
    using e(2) sampleMixed_after(2,3)
    by (simp add: elementsOf_def List.map_filter_simps del: One_nat_def)
  have "getCurrentSVGString samplePlatform (handleToggleDash samplePlatform sampleMixed)
          = Some (serializeToString samplePlatform
              (svgEl, [toggleDash el, toggleDash (createElementNS ''line''),
                       toggleDash (createElementNS ''line'')]))"
    by (simp add: getCurrentSVGString_def sampleMixed_toggled(2) s(1) els del: One_nat_def)
  also have "serializeToString samplePlatform
              (svgEl, [toggleDash el, toggleDash (createElementNS ''line''),
                       toggleDash (createElementNS ''line'')]) = ''svg line line line''"
    by (simp add: sample_defs joinWith_def toggleDash_tagName e(1) s(2) createElementNS_def)
  finally show ?thesis .
qed

theorem toggle_dash_each_selected_witness:
  "heap (handleToggleDash samplePlatform sampleMixed) 1 = Some (toggleDash (createElementNS ''line''))
   \<and> getAttribute (toggleDash (createElementNS ''line'')) ''stroke-dasharray'' = Some ''4 4''
   \<and> history (handleToggleDash samplePlatform sampleMixed)
       = [''svg line line line'', ''svg line line line'', ''svg line line line'']
   \<and> historyIndex (handleToggleDash samplePlatform sampleMixed) = 2"
proof -
  have sel: "selectedElements sampleMixed \<noteq> []" "distinct (selectedElements sampleMixed)"
    by (simp_all add: sampleMixed_fields)
  note t = toggle_dash_each_selected[OF sel, of samplePlatform]
  have m: "1 \<in> set (selectedElements sampleMixed)" by (simp add: sampleMixed_fields)
  have nd: "\<not> isDashed (createElementNS ''line'')"
    by (simp add: isDashed_def element_defs truthy_def)
  have a: "heap (handleToggleDash samplePlatform sampleMixed) 1
             = Some (toggleDash (createElementNS ''line''))
           \<and> getAttribute (toggleDash (createElementNS ''line'')) ''stroke-dasharray''
               = Some ''4 4''"
    using t m sampleMixed_fields(3) nd by blast
  have ne: "''svg line line line'' \<noteq> []" by simp
  have b: "history (handleToggleDash samplePlatform sampleMixed)
             = slice0 (history sampleMixed) (historyIndex sampleMixed + 1) @ [''svg line line line'']
           \<and> historyIndex (handleToggleDash samplePlatform sampleMixed)
               = historyIndex sampleMixed + 1"
    using t sampleMixed_current ne by blast
  from a b show ?thesis by (simp add: sampleMixed_fields slice0_def)
qed

text \<open>
  Claim C8 as stated has all three selected shapes dashed after the command. With
  three shapes selected of which the first is dashed already, the command leaves the
  first one solid.
\<close>

theorem toggle_dash_mixed_counterexample:
  "selectedElements sampleMixed = [0, 1, 2]
   \<and> map_option isDashed (heap sampleMixed 0) = Some True
   \<and> map_option isDashed (heap (handleToggleDash samplePlatform sampleMixed) 0) = Some False
   \<and> map_option isDashed (heap (handleToggleDash samplePlatform sampleMixed) 1) = Some True
   \<and> map_option isDashed (heap (handleToggleDash samplePlatform sampleMixed) 2) = Some True"
proof -
  from sampleMixed_after(1) obtain el where e: "heap sampleMixed 0 = Some el" "isDashed el"
    "heap (handleToggleDash samplePlatform sampleMixed) 0 = Some (toggleDash el)"
    by blast
  have "\<not> isDashed (createElementNS ''line'')"
    by (simp add: isDashed_def element_defs truthy_def)
  then show ?thesis
    using e sampleMixed_after(2,3) by (simp add: sampleMixed_fields toggleDash_effect)
qed



section \<open>Properties of the selection\<close>

lemma controlPointsOf_cong: "heap a = heap b \<Longrightarrow> controlPointsOf P a r = controlPointsOf P b r"
  by (simp add: controlPointsOf_def)

lemma follow_same:
  "selectedElements st' = selectedElements st \<Longrightarrow> controlPoints st' = controlPoints st \<Longrightarrow>
   controlPointsFollow P st st'"
  by (simp add: controlPointsFollow_def)

lemma follow_none:
  "selectedElements st' = [] \<Longrightarrow> controlPoints st' = [] \<Longrightarrow> controlPointsFollow P st st'"
  by (simp add: controlPointsFollow_def derivedControlPoints_def)

lemma follow_one:
  "selectedElements st' = [r] \<Longrightarrow> controlPoints st' = controlPointsOf P st' r \<Longrightarrow>
   controlPointsFollow P st st'"
  by (simp add: controlPointsFollow_def derivedControlPoints_def)

lemma captureTransforms_frame:
  "heap (captureTransforms P refs st) = heap st"
  "selectedElements (captureTransforms P refs st) = selectedElements st"
  "controlPoints (captureTransforms P refs st) = controlPoints st"
  by (simp_all add: captureTransforms_def)

lemma selectDown_follow: "controlPointsFollow P st (selectDown P e st)"
proof (cases "isShapeTarget st (target e)")
  case False
  then show ?thesis by (intro follow_none) (simp_all add: selectDown_def)
next
  case True
  let ?n = "nextSelection (ctrlKey e \<or> metaKey e) (target e) (selectedElements st)"
  have s: "selectedElements (selectDown P e st) = ?n"
    using True by (simp add: selectDown_def Let_def captureTransforms_frame updateSelectionBBox_frame)
  have h: "heap (selectDown P e st) = heap st"
    using True by (simp add: selectDown_def Let_def captureTransforms_frame updateSelectionBBox_frame)
  have c: "controlPoints (selectDown P e st)
             = (if length ?n = 1 then controlPointsOf P st (?n ! 0) else [])"
    using True
    by (simp add: selectDown_def Let_def captureTransforms_frame updateSelectionBBox_frame
        controlPointsOf_def)
  have "controlPointsOf P (selectDown P e st) (?n ! 0) = controlPointsOf P st (?n ! 0)"
    using h by (rule controlPointsOf_cong)
  then show ?thesis by (simp add: controlPointsFollow_def derivedControlPoints_def s c)
qed

lemma newObject_fields:
  "fst (newObject el st) = nextRef st"
  "heap (snd (newObject el st)) = (heap st)(nextRef st \<mapsto> el)"
  "selectedElements (snd (newObject el st)) = selectedElements st"
  "controlPoints (snd (newObject el st)) = controlPoints st"
  by (simp_all add: newObject_def)

lemma appendChild_frame:
  "heap (appendChild r st) = heap st"
  "selectedElements (appendChild r st) = selectedElements st"
  "controlPoints (appendChild r st) = controlPoints st"
  by (auto simp: appendChild_def split: option.splits prod.splits)

lemma beginDraw_follow: "controlPointsFollow P st (beginDraw P e hi st)"
proof (cases "tool st = ToolText \<and> truthy (promptText e)")
  case False
  then show ?thesis
    by (intro follow_none)
       (auto simp: beginDraw_def Let_def newObject_def appendChild_def truthy_def
         split: option.splits prod.splits)
next
  case True
  then obtain answer where t: "promptText e = Some answer" "answer \<noteq> []" "tool st = ToolText"
    by (auto simp: truthy_def split: option.splits)
  let ?r = "nextRef st"
  have s: "selectedElements (beginDraw P e hi st) = [?r]"
    using t by (simp add: beginDraw_def Let_def newObject_def updateSelectionBBox_frame)
  have c: "controlPoints (beginDraw P e hi st) = controlPointsOf P (beginDraw P e hi st) ?r"
    using t
    by (simp add: beginDraw_def Let_def newObject_def updateSelectionBBox_frame
        controlPointsOf_def addToHistory_frame appendChild_frame)
  from s c show ?thesis by (rule follow_one)
qed

lemma handleMouseDownCanvas_follow: "controlPointsFollow P st (handleMouseDownCanvas P e st)"
  by (auto simp: handleMouseDownCanvas_def selectDown_follow beginDraw_follow follow_same
      split: option.splits)


lemma dragVertex_follow: "controlPointsFollow P st (dragVertex P e st)"
proof (cases "\<exists>r idx el el'. selectedElements st = [r] \<and> isDraggingPoint st = Some idx
                \<and> heap st r = Some el
                \<and> updateElementShape P el idx (fst (localPoint e)) (snd (localPoint e)) = Some el'")
  case True
  then obtain r idx el el' where a: "selectedElements st = [r]" "isDraggingPoint st = Some idx"
    "heap st r = Some el"
    "updateElementShape P el idx (fst (localPoint e)) (snd (localPoint e)) = Some el'"
    by blast
  have s: "selectedElements (dragVertex P e st) = [r]"
    using a by (simp add: dragVertex_def Let_def updateSelectionBBox_frame)
  have c: "controlPoints (dragVertex P e st) = controlPointsOf P (dragVertex P e st) r"
    using a by (simp add: dragVertex_def Let_def updateSelectionBBox_frame controlPointsOf_def)
  from s c show ?thesis by (rule follow_one)
next
  case False
  then show ?thesis
    by (intro follow_same)
       (auto simp: dragVertex_def Let_def split: list.splits option.splits)
qed

lemma dragRotate_frame:
  "selectedElements (dragRotate P pt start c st) = selectedElements st"
  "controlPoints (dragRotate P pt start c st) = controlPoints st"
  by (simp_all add: dragRotate_def Let_def updateSelectionBBox_frame)

lemma dragMove_controlPoints:
  "controlPoints (dragMove P pt start st) = controlPoints st"
  by (simp add: dragMove_def Let_def updateSelectionBBox_frame)

lemma drawGrow_frame:
  "selectedElements (drawGrow P e r start st) = selectedElements st"
  "controlPoints (drawGrow P e r start st) = controlPoints st"
  by (simp_all add: drawGrow_def Let_def)

lemma handleMouseMove_follow: "controlPointsFollow P st (handleMouseMove P e st)"
proof (cases "dragMode st = DragVertex \<and> isDraggingPoint st \<noteq> None
         \<and> length (selectedElements st) = 1")
  case True
  then show ?thesis by (simp add: handleMouseMove_def dragVertex_follow)
next
  case False
  then show ?thesis
    by (intro follow_same)
       (auto simp: handleMouseMove_def Let_def dragMove_frame dragMove_controlPoints
         dragRotate_frame drawGrow_frame split: option.splits prod.splits)
qed

lemma endDrag_frame:
  "selectedElements (endDrag P hi st) = selectedElements st"
  "controlPoints (endDrag P hi st) = controlPoints st"
  "heap (endDrag P hi st) = heap st"
  by (simp_all add: endDrag_def Let_def updateSelectionBBox_frame addToHistory_frame)

lemma endDraw_follow: "controlPointsFollow P st (endDraw P hi st)"
proof (cases "\<exists>r el. isDrawing st \<and> currentDrawElement st = Some r \<and> heap st r = Some el
                \<and> \<not> isTiny P el")
  case True
  then obtain r el where a: "isDrawing st" "currentDrawElement st = Some r" "heap st r = Some el"
    "\<not> isTiny P el" by blast
  have s: "selectedElements (endDraw P hi st) = [r]"
    using a by (simp add: endDraw_def Let_def updateSelectionBBox_frame addToHistory_frame)
  have c: "controlPoints (endDraw P hi st) = controlPointsOf P (endDraw P hi st) r"
    using a
    by (simp add: endDraw_def Let_def updateSelectionBBox_frame addToHistory_frame
        controlPointsOf_def)
  from s c show ?thesis by (rule follow_one)
next
  case False
  then show ?thesis
    by (intro follow_same)
       (auto simp: endDraw_def Let_def removeChild_fields split: option.splits)
qed

lemma follow_after_same:
  "selectedElements mid = selectedElements st \<Longrightarrow> controlPoints mid = controlPoints st \<Longrightarrow>
   controlPointsFollow P mid st' \<Longrightarrow> controlPointsFollow P st st'"
  by (simp add: controlPointsFollow_def)

lemma handleMouseUp_follow: "controlPointsFollow P st (handleMouseUp P st)"
  unfolding handleMouseUp_def
  by (rule follow_after_same[OF endDrag_frame(1) endDrag_frame(2) endDraw_follow])

lemma single_member: "length xs = 1 \<Longrightarrow> t \<in> set xs \<Longrightarrow> xs = [t]"
  by (cases xs) auto

lemma handleDoubleClick_follow: "controlPointsFollow P st (handleDoubleClick P e st)"
proof (cases "\<exists>el newText. tool st = ToolSelect \<and> heap st (target e) = Some el
                \<and> toLowerCase (tagName el) = ''text'' \<and> promptText e = Some newText
                \<and> newText \<noteq> textContent el
                \<and> target e \<in> set (selectedElements st) \<and> length (selectedElements st) = 1")
  case True
  then obtain el newText where a: "tool st = ToolSelect" "heap st (target e) = Some el"
    "toLowerCase (tagName el) = ''text''" "promptText e = Some newText"
    "newText \<noteq> textContent el" "target e \<in> set (selectedElements st)"
    "length (selectedElements st) = 1" by blast
  have one: "selectedElements st = [target e]" using a(7) a(6) by (rule single_member)
  have s: "selectedElements (handleDoubleClick P e st) = [target e]"
    using a one by (simp add: handleDoubleClick_def Let_def updateSelectionBBox_frame
        addToHistory_frame)
  have c: "controlPoints (handleDoubleClick P e st)
             = controlPointsOf P (handleDoubleClick P e st) (target e)"
    using a one
    by (simp add: handleDoubleClick_def Let_def updateSelectionBBox_frame addToHistory_frame
        controlPointsOf_def)
  from s c show ?thesis by (rule follow_one)
next
  case False
  then show ?thesis
    by (intro follow_same)
       (auto simp: handleDoubleClick_def Let_def addToHistory_frame split: option.splits)
qed

lemma fold_removeChild_frame:
  "selectedElements (fold removeChild refs st) = selectedElements st"
  "controlPoints (fold removeChild refs st) = controlPoints st"
  by (induction refs arbitrary: st) (simp_all add: removeChild_fields)

lemma handleDelete_follow: "controlPointsFollow P st (handleDelete P st)"
proof (cases "0 < length (selectedElements st)")
  case True
  then show ?thesis
    by (intro follow_none) (simp_all add: handleDelete_def Let_def addToHistory_frame)
next
  case False
  then show ?thesis by (intro follow_same) (simp_all add: handleDelete_def)
qed

lemma style_commands_follow:
  "controlPointsFollow P st (handleToggleDash P st)"
  "controlPointsFollow P st (handleChangeStrokeWidth P width st)"
  by (intro follow_same;
      simp add: handleToggleDash_def handleChangeStrokeWidth_def Let_def addToHistory_frame)+

lemma history_jumps_follow:
  "controlPointsFollow P st (handleUndo P st)"
  "controlPointsFollow P st (handleRedo P st)"
proof -
  show "controlPointsFollow P st (handleUndo P st)"
  proof (cases "0 < historyIndex st")
    case True
    then show ?thesis
      by (intro follow_none) (simp_all add: handleUndo_def Let_def restoreState_selection)
  next
    case False
    then show ?thesis by (intro follow_same) (simp_all add: handleUndo_def)
  qed
  show "controlPointsFollow P st (handleRedo P st)"
  proof (cases "historyIndex st < int (length (history st)) - 1")
    case True
    then show ?thesis
      by (intro follow_none) (simp_all add: handleRedo_def Let_def restoreState_selection)
  next
    case False
    then show ?thesis by (intro follow_same) (simp_all add: handleRedo_def)
  qed
qed

lemma initialize_selection:
  "(initialize P svgContent st = st)
   \<or> (selectedElements (initialize P svgContent st) = []
       \<and> controlPoints (initialize P svgContent st) = [])"
  by (auto simp: initialize_def allocate_def Let_def split: option.splits prod.splits)

lemma initialize_follow: "controlPointsFollow P st (initialize P svgContent st)"
  using initialize_selection[of P svgContent st]
  by (auto intro: follow_same follow_none)

lemma step_follow: "controlPointsFollow P st (step P ev st)"
proof (cases ev)
  case (BBoxMouseDown e)
  then show ?thesis
    by (auto intro!: follow_same simp: handleBBoxMouseDown_def captureTransforms_frame)
next
  case (RotateMouseDown e)
  then show ?thesis
    by (auto intro!: follow_same simp: handleRotateMouseDown_def captureTransforms_frame
        split: option.splits)
qed (simp_all add: handleMouseDownCanvas_follow handleMouseMove_follow handleMouseUp_follow
      handleDoubleClick_follow handleDelete_follow style_commands_follow history_jumps_follow
      initialize_follow follow_same handleVertexMouseDown_def)

lemma run_snoc: "run P (evs @ [ev]) st = step P ev (run P evs st)"
  by (simp add: run_def)

text \<open>
  Claim C9. In every state the editor reaches from its initial state, by any events on any
  platform, the list of control points is non-empty only when exactly one shape is
  selected. And in any state, an event that changes the selection sets the control
  points to those of the single selected shape when the new selection has one shape,
  and to the empty list otherwise.
\<close>

theorem control_points_only_for_single_selection:
  "(controlPoints (run P evs (initialEditor color)) \<noteq> [] \<longrightarrow>
      length (selectedElements (run P evs (initialEditor color))) = 1)
   \<and> (selectedElements (step P ev st) \<noteq> selectedElements st \<longrightarrow>
        controlPoints (step P ev st)
          = (if length (selectedElements (step P ev st)) = 1
             then controlPointsOf P (step P ev st) (selectedElements (step P ev st) ! 0)
             else []))"
proof
  show "controlPoints (run P evs (initialEditor color)) \<noteq> [] \<longrightarrow>
      length (selectedElements (run P evs (initialEditor color))) = 1"
  proof (induction evs rule: rev_induct)
    case Nil
    then show ?case by (simp add: run_def initialEditor_def)
  next
    case (snoc ev evs)
    then show ?case
      using step_follow[of P "run P evs (initialEditor color)" ev]
      by (auto simp: run_snoc controlPointsFollow_def derivedControlPoints_def split: if_splits)
  qed
  show "selectedElements (step P ev st) \<noteq> selectedElements st \<longrightarrow>
        controlPoints (step P ev st)
          = (if length (selectedElements (step P ev st)) = 1
             then controlPointsOf P (step P ev st) (selectedElements (step P ev st) ! 0)
             else [])"
    using step_follow[of P st ev]
    by (auto simp: controlPointsFollow_def derivedControlPoints_def)
qed


lemma sampleSelected_fields:
  "selectedElements sampleSelected = [0]"
  "controlPoints sampleSelected = [mkPoint 0 0 0 Vertex, mkPoint 0 0 1 Vertex]"
  "tool sampleSelected = ToolSelect"
  "isShapeTarget sampleSelected 1"
  by (simp_all add: sampleSelected_def clickAt_def handler_defs element_defs sample_defs
      string_defs addToHistory_def getCurrentSVGString_def)

theorem control_points_only_for_single_selection_witness:
  "controlPoints sampleSelected = [mkPoint 0 0 0 Vertex, mkPoint 0 0 1 Vertex]
   \<and> length (selectedElements sampleSelected) = 1
   \<and> selectedElements (step samplePlatform (MouseDownCanvas (clickAt 1 (10, 10) True)) sampleSelected)
       = [0, 1]
   \<and> controlPoints (step samplePlatform (MouseDownCanvas (clickAt 1 (10, 10) True)) sampleSelected)
       = []"
proof -
  let ?ev = "MouseDownCanvas (clickAt 1 (10, 10) True)"
  note t = control_points_only_for_single_selection[of samplePlatform
      "[SvgContentChanged (Some ''svg line rect''), MouseDownCanvas (clickAt 0 (3, 3) False),
        MouseUp]" "''#000000''" ?ev sampleSelected, folded sampleSelected_def]
  have ne: "controlPoints sampleSelected \<noteq> []" by (simp add: sampleSelected_fields)
  have a: "length (selectedElements sampleSelected) = 1" using t ne by blast
  have s: "selectedElements (step samplePlatform ?ev sampleSelected) = [0, 1]"
    by (simp add: handleMouseDownCanvas_def selectDown_def Let_def captureTransforms_frame
        updateSelectionBBox_frame sampleSelected_fields clickAt_def nextSelection_def
        del: One_nat_def)
  then have "selectedElements (step samplePlatform ?ev sampleSelected)
               \<noteq> selectedElements sampleSelected"
    by (simp add: sampleSelected_fields)
  with t have "controlPoints (step samplePlatform ?ev sampleSelected)
          = (if length (selectedElements (step samplePlatform ?ev sampleSelected)) = 1
             then controlPointsOf samplePlatform (step samplePlatform ?ev sampleSelected)
                    (selectedElements (step samplePlatform ?ev sampleSelected) ! 0)
             else [])"
    by blast
  then have c: "controlPoints (step samplePlatform ?ev sampleSelected) = []"
    unfolding s by simp
  from a s c show ?thesis by (simp add: sampleSelected_fields)
qed

lemma nextSelection_distinct: "distinct sel \<Longrightarrow> distinct (nextSelection c t sel)"
  by (simp add: nextSelection_def)

lemma selectDown_selection:
  "selectedElements (selectDown P e st)
     = (if isShapeTarget st (target e)
        then nextSelection (ctrlKey e \<or> metaKey e) (target e) (selectedElements st) else [])"
  by (simp add: selectDown_def Let_def captureTransforms_frame updateSelectionBBox_frame)

lemma beginDraw_selection:
  "selectedElements (beginDraw P e hi st) = []
   \<or> (\<exists>r. selectedElements (beginDraw P e hi st) = [r])"
  by (auto simp: beginDraw_def Let_def newObject_def appendChild_def updateSelectionBBox_frame
      addToHistory_frame split: option.splits prod.splits)

lemma dragVertex_selection: "selectedElements (dragVertex P e st) = selectedElements st"
  by (auto simp: dragVertex_def Let_def updateSelectionBBox_frame
      split: list.splits option.splits)

lemma handleMouseMove_selection: "selectedElements (handleMouseMove P e st) = selectedElements st"
  by (auto simp: handleMouseMove_def Let_def dragVertex_selection dragMove_frame
      dragRotate_frame drawGrow_frame split: option.splits prod.splits)

lemma endDraw_selection:
  "selectedElements (endDraw P hi st) = selectedElements st
   \<or> (\<exists>r. selectedElements (endDraw P hi st) = [r])"
  by (auto simp: endDraw_def Let_def removeChild_fields updateSelectionBBox_frame
      addToHistory_frame split: option.splits)

lemma handleDoubleClick_selection:
  "selectedElements (handleDoubleClick P e st) = selectedElements st"
  by (auto simp: handleDoubleClick_def Let_def updateSelectionBBox_frame addToHistory_frame
      split: option.splits)

lemma step_distinct:
  assumes "distinct (selectedElements st)"
  shows "distinct (selectedElements (step P ev st))"
proof (cases ev)
  case (MouseDownCanvas e)
  then show ?thesis
    using assms beginDraw_selection[of P e "historyIndex st" st]
    by (auto simp: handleMouseDownCanvas_def selectDown_selection nextSelection_distinct
        split: option.splits)
next
  case (BBoxMouseDown e)
  then show ?thesis using assms by (simp add: handleBBoxMouseDown_def captureTransforms_frame)
next
  case (RotateMouseDown e)
  then show ?thesis
    using assms by (simp add: handleRotateMouseDown_def captureTransforms_frame split: option.splits)
next
  case (VertexMouseDown idx)
  then show ?thesis using assms by (simp add: handleVertexMouseDown_def)
next
  case (MouseMove e)
  then show ?thesis using assms by (simp add: handleMouseMove_selection)
next
  case MouseUp
  then show ?thesis
    using assms endDraw_selection[of P "historyIndex st" "endDrag P (historyIndex st) st"]
    by (auto simp: handleMouseUp_def endDrag_frame)
next
  case (DoubleClick e)
  then show ?thesis using assms by (simp add: handleDoubleClick_selection)
next
  case Delete
  then show ?thesis using assms by (simp add: handleDelete_def Let_def addToHistory_frame)
next
  case ToggleDash
  then show ?thesis using assms by (simp add: handleToggleDash_def Let_def addToHistory_frame)
next
  case (ChangeStrokeWidth width)
  then show ?thesis
    using assms by (simp add: handleChangeStrokeWidth_def Let_def addToHistory_frame)
next
  case Undo
  then show ?thesis using assms by (simp add: handleUndo_def Let_def restoreState_selection)
next
  case Redo
  then show ?thesis using assms by (simp add: handleRedo_def Let_def restoreState_selection)
next
  case (SetTool t)
  then show ?thesis using assms by simp
next
  case (SvgContentChanged svgContent)
  then show ?thesis using assms initialize_selection[of P svgContent st] by auto
next
  case (ColorChanged color)
  then show ?thesis using assms by simp
next
  case CanvasUnmounted
  then show ?thesis using assms by simp
qed

text \<open>
  Claim C10. With the select tool, a press with Ctrl or Cmd held on a shape of the
  drawing removes the shape from the selection when it is selected, the other selected
  shapes staying in their order, and appends it when it is not; a selection without
  duplicates stays without duplicates. In every state the editor reaches from its
  initial state the selection has no duplicates.
\<close>

theorem ctrl_click_toggles_selection:
  "(tool st = ToolSelect \<and> isShapeTarget st (target e) \<and> (ctrlKey e \<or> metaKey e) \<longrightarrow>
      selectedElements (handleMouseDownCanvas P e st)
        = (if target e \<in> set (selectedElements st)
           then filter (\<lambda>el. el \<noteq> target e) (selectedElements st)
           else selectedElements st @ [target e])
      \<and> (distinct (selectedElements st) \<longrightarrow>
            distinct (selectedElements (handleMouseDownCanvas P e st))))
   \<and> distinct (selectedElements (run P evs (initialEditor color)))"
proof (intro conjI impI)
  assume a: "tool st = ToolSelect \<and> isShapeTarget st (target e) \<and> (ctrlKey e \<or> metaKey e)"
  then show s: "selectedElements (handleMouseDownCanvas P e st)
        = (if target e \<in> set (selectedElements st)
           then filter (\<lambda>el. el \<noteq> target e) (selectedElements st)
           else selectedElements st @ [target e])"
    by (auto simp: handleMouseDownCanvas_def selectDown_selection nextSelection_def)
  assume "distinct (selectedElements st)"
  then show "distinct (selectedElements (handleMouseDownCanvas P e st))"
    using step_distinct[of st P "MouseDownCanvas e"] by simp
next
  show "distinct (selectedElements (run P evs (initialEditor color)))"
  proof (induction evs rule: rev_induct)
    case Nil
    then show ?case by (simp add: run_def initialEditor_def)
  next
    case (snoc ev evs)
    then show ?case by (simp add: run_snoc step_distinct)
  qed
qed

theorem ctrl_click_toggles_selection_witness:
  "selectedElements sampleGesture = [0, 1]
   \<and> selectedElements (handleMouseDownCanvas samplePlatform (clickAt 0 (3, 3) True) sampleGesture)
       = [1]
   \<and> distinct (selectedElements
        (handleMouseDownCanvas samplePlatform (clickAt 0 (3, 3) True) sampleGesture))
   \<and> selectedElements (handleMouseDownCanvas samplePlatform (clickAt 1 (3, 3) True) sampleSelected)
       = [0, 1]"
proof -
  have g: "tool sampleGesture = ToolSelect" "isShapeTarget sampleGesture 0"
    by (simp_all add: sampleGesture_def sampleTwoShapes_def clickAt_def handler_defs element_defs
        sample_defs string_defs)
  have h1: "tool sampleGesture = ToolSelect \<and> isShapeTarget sampleGesture (target (clickAt 0 (3, 3) True))
      \<and> (ctrlKey (clickAt 0 (3, 3) True) \<or> metaKey (clickAt 0 (3, 3) True))"
    using g by (simp add: clickAt_def)
  have h2: "tool sampleSelected = ToolSelect \<and> isShapeTarget sampleSelected (target (clickAt 1 (3, 3) True))
      \<and> (ctrlKey (clickAt 1 (3, 3) True) \<or> metaKey (clickAt 1 (3, 3) True))"
    using sampleSelected_fields by (simp add: clickAt_def del: One_nat_def)
  have d: "distinct (selectedElements sampleGesture)" by (simp add: sampleGesture_fields)
  note t1 = ctrl_click_toggles_selection[of sampleGesture "clickAt 0 (3, 3) True" samplePlatform]
  note t2 = ctrl_click_toggles_selection[of sampleSelected "clickAt 1 (3, 3) True" samplePlatform]
  have a: "selectedElements (handleMouseDownCanvas samplePlatform (clickAt 0 (3, 3) True) sampleGesture)
             = (if target (clickAt 0 (3, 3) True) \<in> set (selectedElements sampleGesture)
                then filter (\<lambda>el. el \<noteq> target (clickAt 0 (3, 3) True)) (selectedElements sampleGesture)
                else selectedElements sampleGesture @ [target (clickAt 0 (3, 3) True)])"
    using t1 h1 by blast
  have b: "distinct (selectedElements
             (handleMouseDownCanvas samplePlatform (clickAt 0 (3, 3) True) sampleGesture))"
    using t1 h1 d by blast
  have c: "selectedElements (handleMouseDownCanvas samplePlatform (clickAt 1 (3, 3) True) sampleSelected)
             = (if target (clickAt 1 (3, 3) True) \<in> set (selectedElements sampleSelected)
                then filter (\<lambda>el. el \<noteq> target (clickAt 1 (3, 3) True)) (selectedElements sampleSelected)
                else selectedElements sampleSelected @ [target (clickAt 1 (3, 3) True)])"
    using t2 h2 by blast
  have a': "selectedElements (handleMouseDownCanvas samplePlatform (clickAt 0 (3, 3) True) sampleGesture)
              = [1]"
    unfolding a by (simp add: sampleGesture_fields clickAt_def)
  have c': "selectedElements (handleMouseDownCanvas samplePlatform (clickAt 1 (3, 3) True) sampleSelected)
              = [0, 1]"
    unfolding c by (simp add: sampleSelected_fields clickAt_def)
  from a' b c' show ?thesis by (simp add: sampleGesture_fields)
qed


section \<open>Properties of undo and redo\<close>

text \<open>The component sets \<^verbatim>\<open>display\<close> and \<^verbatim>\<open>overflow\<close> on a root before it mounts it, in the
  effect and in \<^verbatim>\<open>restoreState\<close>, and no handler changes the root afterwards: in every
  state the editor reaches, the root in the canvas carries the two properties. Setting
  them again on such a root changes nothing.\<close>

lemma restyle_shown:
  "shown el \<Longrightarrow> setStyle (setStyle el ''display'' ''block'') ''overflow'' ''visible'' = el"
  by (simp add: shown_def setStyle_def map_upd_triv)

lemma shown_restyle: "shown (setStyle (setStyle el ''display'' ''block'') ''overflow'' ''visible'')"
  by (simp add: shown_def setStyle_def)

lemma rootShown_svg: "svg st' = svg st \<Longrightarrow> rootShown st' = rootShown st"
  by (simp add: rootShown_def)

lemma rootShown_root: "mountedRoot st' = mountedRoot st \<Longrightarrow> rootShown st \<Longrightarrow> rootShown st'"
  by (auto simp: rootShown_def mountedRoot_def split: option.splits prod.splits)

lemma captureTransforms_svg: "svg (captureTransforms P refs st) = svg st"
  by (simp add: captureTransforms_def)

lemma updateSelectionBBox_svg: "svg (updateSelectionBBox P refs st) = svg st"
  by (simp add: updateSelectionBBox_frame)

lemma addToHistory_svg: "svg (addToHistory P hi st) = svg st"
  by (simp add: addToHistory_frame)

lemma appendChild_root: "mountedRoot (appendChild r st) = mountedRoot st"
  by (auto simp: appendChild_def mountedRoot_def split: option.splits prod.splits)

lemma removeChild_root: "mountedRoot (removeChild r st) = mountedRoot st"
  by (auto simp: removeChild_def mountedRoot_def split: option.splits prod.splits)

lemma fold_removeChild_root: "mountedRoot (fold removeChild refs st) = mountedRoot st"
  by (induction refs arbitrary: st) (simp_all add: removeChild_root)

lemma mountedRoot_svg: "svg st' = svg st \<Longrightarrow> mountedRoot st' = mountedRoot st"
  by (simp add: mountedRoot_def)

lemma selectDown_root: "mountedRoot (selectDown P e st) = mountedRoot st"
  by (rule mountedRoot_svg)
     (simp add: selectDown_def Let_def captureTransforms_svg updateSelectionBBox_svg)

lemma newObject_svg: "svg (snd (newObject el st)) = svg st"
  by (simp add: newObject_def)

lemma beginDraw_root: "mountedRoot (beginDraw P e hi st) = mountedRoot st"
  by (auto simp: beginDraw_def Let_def newObject_def appendChild_root updateSelectionBBox_svg
      addToHistory_svg mountedRoot_def appendChild_def
      split: option.splits prod.splits)

lemma handleMouseDownCanvas_root: "mountedRoot (handleMouseDownCanvas P e st) = mountedRoot st"
  by (simp add: handleMouseDownCanvas_def selectDown_root beginDraw_root split: option.splits)

lemma dragVertex_svg: "svg (dragVertex P e st) = svg st"
  by (auto simp: dragVertex_def Let_def updateSelectionBBox_svg split: list.splits option.splits)

lemma dragMove_svg: "svg (dragMove P pt start st) = svg st"
  by (simp add: dragMove_def Let_def updateSelectionBBox_svg)

lemma dragRotate_svg: "svg (dragRotate P pt start c st) = svg st"
  by (simp add: dragRotate_def Let_def updateSelectionBBox_svg)

lemma drawGrow_svg: "svg (drawGrow P e r start st) = svg st"
  by (simp add: drawGrow_def Let_def)

lemma handleMouseMove_svg: "svg (handleMouseMove P e st) = svg st"
  by (auto simp: handleMouseMove_def Let_def dragVertex_svg dragMove_svg dragRotate_svg
      drawGrow_svg split: option.splits prod.splits)

lemma endDrag_svg: "svg (endDrag P hi st) = svg st"
  by (simp add: endDrag_def Let_def updateSelectionBBox_svg addToHistory_svg)

lemma endDraw_root: "mountedRoot (endDraw P hi st) = mountedRoot st"
  by (auto simp: endDraw_def Let_def mountedRoot_def removeChild_fields updateSelectionBBox_svg
      addToHistory_svg split: option.splits prod.splits)

lemma handleMouseUp_root: "mountedRoot (handleMouseUp P st) = mountedRoot st"
  by (simp add: handleMouseUp_def endDraw_root mountedRoot_svg[OF endDrag_svg])

lemma handleDoubleClick_svg: "svg (handleDoubleClick P e st) = svg st"
  by (auto simp: handleDoubleClick_def Let_def updateSelectionBBox_svg addToHistory_svg
      split: option.splits)

lemma handleDelete_root: "mountedRoot (handleDelete P st) = mountedRoot st"
proof (cases "0 < length (selectedElements st)")
  case True
  let ?st1 = "fold removeChild (selectedElements st) st"
  let ?st2 = "?st1\<lparr>selectedElements := [], controlPoints := [], selectionBBox := None\<rparr>"
  have "mountedRoot (addToHistory P (historyIndex st) ?st2) = mountedRoot ?st2"
    by (rule mountedRoot_svg) (rule addToHistory_svg)
  also have "mountedRoot ?st2 = mountedRoot ?st1" by (simp add: mountedRoot_def)
  also have "mountedRoot ?st1 = mountedRoot st" by (rule fold_removeChild_root)
  finally show ?thesis using True by (simp add: handleDelete_def Let_def)
next
  case False
  then show ?thesis by (simp add: handleDelete_def)
qed

lemma style_commands_svg:
  "svg (handleToggleDash P st) = svg st"
  "svg (handleChangeStrokeWidth P width st) = svg st"
  by (simp_all add: handleToggleDash_def handleChangeStrokeWidth_def Let_def addToHistory_svg)

lemma restoreState_rootShown: "rootShown (restoreState P content st)"
  by (auto simp: restoreState_def restoredTree_def rootShown_def shown_restyle allocate_def Let_def
      split: prod.splits)

lemma history_jumps_rootShown:
  "rootShown st \<Longrightarrow> rootShown (handleUndo P st)"
  "rootShown st \<Longrightarrow> rootShown (handleRedo P st)"
  by (simp_all add: handleUndo_def handleRedo_def Let_def restoreState_rootShown)

lemma initialize_rootShown: "rootShown st \<Longrightarrow> rootShown (initialize P svgContent st)"
  by (auto simp: initialize_def rootShown_def shown_restyle allocate_def Let_def
      split: option.splits prod.splits)

lemma handle_downs_svg:
  "svg (handleBBoxMouseDown P e st) = svg st"
  "svg (handleRotateMouseDown P e st) = svg st"
  by (auto simp: handleBBoxMouseDown_def handleRotateMouseDown_def captureTransforms_svg
      split: option.splits)

lemma step_rootShown:
  assumes sh: "rootShown st"
  shows "rootShown (step P ev st)"
proof (cases ev)
  case (MouseDownCanvas e)
  then show ?thesis using rootShown_root[OF handleMouseDownCanvas_root sh] by simp
next
  case (BBoxMouseDown e)
  then show ?thesis using sh by (simp add: rootShown_svg[OF handle_downs_svg(1)])
next
  case (RotateMouseDown e)
  then show ?thesis using sh by (simp add: rootShown_svg[OF handle_downs_svg(2)])
next
  case (VertexMouseDown idx)
  then show ?thesis using sh by (simp add: rootShown_def handleVertexMouseDown_def)
next
  case (MouseMove e)
  then show ?thesis using sh by (simp add: rootShown_svg[OF handleMouseMove_svg])
next
  case MouseUp
  then show ?thesis using rootShown_root[OF handleMouseUp_root sh] by simp
next
  case (DoubleClick e)
  then show ?thesis using sh by (simp add: rootShown_svg[OF handleDoubleClick_svg])
next
  case Delete
  then show ?thesis using rootShown_root[OF handleDelete_root sh] by simp
next
  case ToggleDash
  then show ?thesis using sh by (simp add: rootShown_svg[OF style_commands_svg(1)])
next
  case (ChangeStrokeWidth width)
  then show ?thesis using sh by (simp add: rootShown_svg[OF style_commands_svg(2)])
next
  case Undo
  then show ?thesis using sh by (simp add: history_jumps_rootShown)
next
  case Redo
  then show ?thesis using sh by (simp add: history_jumps_rootShown)
next
  case (SetTool t)
  then show ?thesis using sh by (simp add: rootShown_def)
next
  case (SvgContentChanged svgContent)
  then show ?thesis using sh by (simp add: initialize_rootShown)
next
  case (ColorChanged color)
  then show ?thesis using sh by (simp add: rootShown_def)
next
  case CanvasUnmounted
  then show ?thesis by (simp add: rootShown_def)
qed

lemma run_rootShown: "rootShown (run P evs (initialEditor color))"
proof (induction evs rule: rev_induct)
  case Nil
  then show ?case by (simp add: run_def rootShown_def initialEditor_def)
next
  case (snoc ev evs)
  then show ?case by (simp add: run_snoc step_rootShown)
qed

lemma restoredTree_mounted:
  assumes sh: "rootShown st" and tr: "mountedTree st = Some tree" and pb: "parsesBack P tree"
  shows "restoredTree P (serializeToString P tree) = tree"
proof -
  from tr obtain svgEl children where sv: "svg st = Some (svgEl, children)"
    and t: "tree = (svgEl, elementsOf st children)"
    by (auto simp: mountedTree_def split: option.splits prod.splits)
  from sh sv have "shown svgEl" by (simp add: rootShown_def)
  then have "setStyle (setStyle svgEl ''display'' ''block'') ''overflow'' ''visible'' = svgEl"
    by (rule restyle_shown)
  moreover from pb have "parseFromString P (serializeToString P tree) = tree"
    by (simp add: parsesBack_def)
  ultimately show ?thesis by (simp add: restoredTree_def t)
qed

lemma getCurrentSVGString_mounted:
  "getCurrentSVGString P st = map_option (serializeToString P) (mountedTree st)"
  by (simp add: getCurrentSVGString_def mountedTree_def split: option.splits prod.splits)

text \<open>A commit made with the index in range leads to a state of the kind that the
  next property starts from: the index is at the last snapshot, which records the tree
  in the canvas.\<close>

lemma commit_recorded:
  fixes P :: platform and st0 :: editor
  assumes rng: "historyInRange st0" and tr: "mountedTree st0 = Some tree"
    and ne: "serializeToString P tree \<noteq> []"
  defines "st \<equiv> addToHistory P (historyIndex st0) st0"
  shows "mountedTree st = Some tree" and "history st \<noteq> []"
    and "last (history st) = serializeToString P tree"
    and "historyIndex st = int (length (history st)) - 1"
proof -
  have cur: "getCurrentSVGString P st0 = Some (serializeToString P tree)"
    by (simp add: getCurrentSVGString_mounted tr)
  note c = commit_at_end[OF rng cur ne, folded st_def]
  show "mountedTree st = Some tree"
    using tr
    by (auto simp: st_def mountedTree_def elementsOf_def addToHistory_frame
        split: option.splits prod.splits)
  show "history st \<noteq> []" by (simp add: c(1))
  show "last (history st) = serializeToString P tree" by (simp add: c(1))
  show "historyIndex st = int (length (history st)) - 1" by (rule c(3))
qed

text \<open>
  Claim C2. Take a state that the editor reaches from its initial state by any events on
  any platform, in which an edit has just been committed: the index is at the last
  snapshot of the history, and that snapshot is the serialization of the tree in the
  canvas. If the platform's parser gives back this tree from the text that the platform's
  serializer writes for it, then any number of undos followed by the same number of redos
  ends with a tree whose serialization is that last snapshot, and with the history and the
  index as they were. Nothing is assumed of \<^verbatim>\<open>restoreState\<close>: that its restyling of the
  parsed root leaves the tree read back as it is follows from the code, since the root of
  every tree the component mounts carries the two style properties already.
\<close>

theorem undo_redo_restores:
  fixes P :: platform and evs :: "event list" and color :: string and N :: nat
    and tree :: "element \<times> element list"
  defines "st \<equiv> run P evs (initialEditor color)"
  assumes tr: "mountedTree st = Some tree"
    and ne: "history st \<noteq> []" and rec: "last (history st) = serializeToString P tree"
    and idx: "historyIndex st = int (length (history st)) - 1"
    and pb: "parsesBack P tree"
  shows "getCurrentSVGString P (repeatedly N (handleRedo P) (repeatedly N (handleUndo P) st))
           = Some (last (history st))
       \<and> history (repeatedly N (handleRedo P) (repeatedly N (handleUndo P) st)) = history st
       \<and> historyIndex (repeatedly N (handleRedo P) (repeatedly N (handleUndo P) st))
           = historyIndex st"
proof -
  let ?u = "repeatedly N (handleUndo P) st"
  let ?r = "repeatedly N (handleRedo P) ?u"
  let ?content = "last (history st)"
  have sh: "rootShown st" unfolding st_def by (rule run_rootShown)
  have rt: "serializeToString P (restoredTree P ?content) = ?content"
    unfolding rec by (simp add: restoredTree_mounted[OF sh tr pb])
  have cur: "getCurrentSVGString P st = Some ?content"
    by (simp add: getCurrentSVGString_mounted tr rec)
  have i0: "0 \<le> historyIndex st" using ne idx by (cases "history st") auto
  have at: "historyAt st (historyIndex st) = ?content"
    using ne idx by (simp add: historyAt_def last_conv_nth nat_diff_distrib')
  from undo_times[OF i0, of P N]
  have su: "settled P st ?u" and iu: "historyIndex ?u = max 0 (historyIndex st - int N)" by auto
  have hu: "history ?u = history st" using su by (simp add: settled_def)
  have "historyIndex ?u < int (length (history ?u))" using iu idx i0 by (auto simp: hu)
  from redo_times[OF su this, of N]
  have sr: "settled P st ?r"
    and ir: "historyIndex ?r = min (int (length (history ?u)) - 1) (historyIndex ?u + int N)"
    by auto
  have hr: "history ?r = history st" using sr by (simp add: settled_def)
  have ir': "historyIndex ?r = historyIndex st" using ir iu idx i0 by (auto simp: hu)
  have "getCurrentSVGString P ?r = Some ?content"
  proof (cases "?r = st")
    case True
    then show ?thesis by (simp add: cur)
  next
    case False
    then have "synced P ?r" using sr by (simp add: settled_def)
    then have "getCurrentSVGString P ?r
                 = Some (serializeToString P (restoredTree P (historyAt ?r (historyIndex st))))"
      by (simp add: synced_def ir')
    also have "historyAt ?r (historyIndex st) = historyAt st (historyIndex st)"
      using hr by (rule historyAt_cong)
    finally show ?thesis by (simp add: at rt)
  qed
  with hr ir' show ?thesis by simp
qed


lemma sampleRoot_fields:
  "tagName sampleRoot = ''svg''" "getAttribute sampleRoot ''viewBox'' = Some ''0 0 500 500''"
  "shown sampleRoot"
  by (simp_all add: sampleRoot_def getAttribute_def shown_def)

lemma sampleRoot_mounted:
  "setStyle (setStyle (withViewBox P (setAttribute (setAttribute sampleRoot ''width'' ''100%'')
      ''height'' ''100%'')) ''display'' ''block'') ''overflow'' ''visible'' = sampleRoot"
  by (simp add: withViewBox_def setAttribute_def setStyle_def getAttribute_def sampleRoot_def
      map_upd_triv)

lemma sampleThreeLines_eq:
  "sampleThreeLines =
     (initialEditor ''#000000'')
       \<lparr>heap := [0 \<mapsto> createElementNS ''line'', 1 \<mapsto> createElementNS ''line'',
                 2 \<mapsto> createElementNS ''line''],
        nextRef := 3, svg := Some (sampleRoot, [0, 1, 2]),
        history := [''svg line line line''], historyIndex := 0\<rparr>"
  by (simp add: sampleThreeLines_def initialize_def Let_def allocate_def initialEditor_def
      documentPlatform_def sampleParseDocument_def sampleDocuments_def sampleRoot_mounted
      sampleRoot_fields toLowerCase_def lowerChar_def samplePlatform_def sampleSerialize_def
      joinWith_def createElementNS_def)
     (auto simp: fun_eq_iff)

lemma sampleTwoEdits_run:
  "sampleTwoEdits =
     run documentPlatform
       [MouseDownCanvas (clickAt 0 (3, 3) False), MouseUp, Delete,
        MouseDownCanvas (clickAt 1 (3, 3) False), MouseUp, Delete] sampleThreeLines"
  by (simp add: sampleTwoEdits_def sampleThreeLines_def run_def)

lemma sampleTwoEdits_fields:
  "history sampleTwoEdits = [''svg line line line'', ''svg line line'', ''svg line'']"
  "historyIndex sampleTwoEdits = 2"
  "mountedTree sampleTwoEdits = Some (sampleRoot, [createElementNS ''line''])"
  by (simp_all add: sampleTwoEdits_run sampleThreeLines_eq clickAt_def handler_defs
      createElementNS_def getAttribute_def orDefault_def numAttr_def
      samplePlatform_def sampleString_def sampleParseFloat_def sampleNumbers_def
      sampleSerialize_def string_defs documentPlatform_def sampleRoot_fields
      handleDelete_def removeChild_def addToHistory_def
      getCurrentSVGString_def slice0_def mountedTree_def)


lemma document_parsesBack:
  "parsesBack documentPlatform (sampleRoot, [createElementNS ''line''])"
  by (simp add: parsesBack_def documentPlatform_def sampleParseDocument_def sampleDocuments_def
      samplePlatform_def sampleSerialize_def joinWith_def sampleRoot_fields createElementNS_def)

theorem undo_redo_restores_witness:
  "history sampleTwoEdits = [''svg line line line'', ''svg line line'', ''svg line'']
   \<and> historyIndex sampleTwoEdits = 2
   \<and> getCurrentSVGString documentPlatform
        (repeatedly 2 (handleRedo documentPlatform)
           (repeatedly 2 (handleUndo documentPlatform) sampleTwoEdits)) = Some ''svg line''
   \<and> historyIndex (repeatedly 2 (handleRedo documentPlatform)
        (repeatedly 2 (handleUndo documentPlatform) sampleTwoEdits)) = 2"
proof -
  have ne: "history sampleTwoEdits \<noteq> []" by (simp add: sampleTwoEdits_fields)
  have rec: "last (history sampleTwoEdits)
               = serializeToString documentPlatform (sampleRoot, [createElementNS ''line''])"
    by (simp add: sampleTwoEdits_fields documentPlatform_def samplePlatform_def
        sampleSerialize_def joinWith_def sampleRoot_fields createElementNS_def)
  have idx: "historyIndex sampleTwoEdits = int (length (history sampleTwoEdits)) - 1"
    by (simp add: sampleTwoEdits_fields)
  note t = undo_redo_restores[where P = documentPlatform and color = "''#000000''" and N = 2
      and evs = "[SvgContentChanged (Some ''svg line line line''),
        MouseDownCanvas (clickAt 0 (3, 3) False), MouseUp, Delete,
        MouseDownCanvas (clickAt 1 (3, 3) False), MouseUp, Delete]",
      folded sampleTwoEdits_def, OF sampleTwoEdits_fields(3) ne rec idx document_parsesBack]
  from t show ?thesis by (simp add: sampleTwoEdits_fields)
qed

end
